(* ===== verification/Xdp_Prelude.thy ===== *)
theory Xdp_Prelude
  imports Main "HOL-Library.Word" "HOL-Library.More_List"
begin

unbundle bit_operations_syntax

text \<open>
  Shared vocabulary of the development: the fixed-width integer types of the
  sources, byte order conversion, byte-addressed memory (packets and the XDP
  metadata area are plain byte arrays which the code reads through packed
  structs and unions), the verdicts of an XDP program and the sequence-number
  arithmetic that every transport component uses.

  The target is little endian (eBPF on x86): a C struct field of 16, 32 or 64
  bits at offset \<open>o\<close> is the value \<open>ld16 o m\<close>, \<open>ld32 o m\<close> or \<open>ld64 o m\<close>.
\<close>

section \<open>Machine integers\<close>

type_synonym u8 = "8 word"
type_synonym u16 = "16 word"
type_synonym u32 = "32 word"
type_synonym u64 = "64 word"

named_theorems mem_simps
named_theorems seq_simps
named_theorems wf_simps

abbreviation (input) POISON_64 :: u64 where "POISON_64 \<equiv> 0xffffffffffffffff"
abbreviation (input) POISON_32 :: u32 where "POISON_32 \<equiv> 0xffffffff"
abbreviation (input) POISON_16 :: u16 where "POISON_16 \<equiv> 0xffff"

text \<open>
  The C macros \<open>min\<close> and \<open>max\<close> of \<open>ebpf_utils.h\<close>; on values of one type they are
  the lattice operations.
\<close>

definition c_min :: "'a::len word \<Rightarrow> 'a word \<Rightarrow> 'a word" where
  "c_min x y = (if x < y then x else y)"

definition c_max :: "'a::len word \<Rightarrow> 'a word \<Rightarrow> 'a word" where
  "c_max x y = (if x > y then x else y)"

section \<open>Byte order\<close>

definition bswap16 :: "u16 \<Rightarrow> u16" where
  "bswap16 x = push_bit 8 x OR drop_bit 8 x"

definition bswap32 :: "u32 \<Rightarrow> u32" where
  "bswap32 x = push_bit 16 (ucast (bswap16 (ucast x))) OR ucast (bswap16 (ucast (drop_bit 16 x)))"

abbreviation (input) bpf_htons :: "u16 \<Rightarrow> u16" where "bpf_htons \<equiv> bswap16"
abbreviation (input) bpf_ntohs :: "u16 \<Rightarrow> u16" where "bpf_ntohs \<equiv> bswap16"
abbreviation (input) bpf_htonl :: "u32 \<Rightarrow> u32" where "bpf_htonl \<equiv> bswap32"
abbreviation (input) bpf_ntohl :: "u32 \<Rightarrow> u32" where "bpf_ntohl \<equiv> bswap32"

section \<open>Byte-addressed memory\<close>

type_synonym bytes = "u8 list"

definition ld8 :: "nat \<Rightarrow> bytes \<Rightarrow> u8" where
  "ld8 p m = nth_default 0 m p"

definition ld16 :: "nat \<Rightarrow> bytes \<Rightarrow> u16" where
  "ld16 p m = ucast (ld8 p m) OR push_bit 8 (ucast (ld8 (p + 1) m))"

definition ld32 :: "nat \<Rightarrow> bytes \<Rightarrow> u32" where
  "ld32 p m = ucast (ld16 p m) OR push_bit 16 (ucast (ld16 (p + 2) m))"

definition ld64 :: "nat \<Rightarrow> bytes \<Rightarrow> u64" where
  "ld64 p m = ucast (ld32 p m) OR push_bit 32 (ucast (ld32 (p + 4) m))"

definition st8 :: "nat \<Rightarrow> u8 \<Rightarrow> bytes \<Rightarrow> bytes" where
  "st8 p v m = m[p := v]"

definition st16 :: "nat \<Rightarrow> u16 \<Rightarrow> bytes \<Rightarrow> bytes" where
  "st16 p v m = st8 (p + 1) (ucast (drop_bit 8 v)) (st8 p (ucast v) m)"

definition st32 :: "nat \<Rightarrow> u32 \<Rightarrow> bytes \<Rightarrow> bytes" where
  "st32 p v m = st16 (p + 2) (ucast (drop_bit 16 v)) (st16 p (ucast v) m)"

definition st64 :: "nat \<Rightarrow> u64 \<Rightarrow> bytes \<Rightarrow> bytes" where
  "st64 p v m = st32 (p + 4) (ucast (drop_bit 32 v)) (st32 p (ucast v) m)"

section \<open>XDP verdicts\<close>

text \<open>
  The return codes of an XDP program.  \<open>bpf_redirect_map\<close> returns
  \<open>XDP_REDIRECT\<close> when the index is populated and the flags otherwise.
\<close>

datatype xdp_action = XDP_ABORTED | XDP_DROP | XDP_PASS | XDP_TX | XDP_REDIRECT

section \<open>Sequence-number intervals\<close>

text \<open>The \<open>n\<close> sequence numbers that start at \<open>s\<close>, modulo \<open>2^32\<close>.\<close>

definition seq_span :: "u32 \<Rightarrow> u32 \<Rightarrow> u32 set" where
  "seq_span s n = {x. x - s < n}"

section \<open>Lemmas on words\<close>

lemma c_min_eq [simp]: "c_min x y = min x y"
  by (auto simp: c_min_def min_def)

lemma c_max_eq [simp]: "c_max x y = max x y"
  by (auto simp: c_max_def max_def)

lemma bswap16_bswap16 [simp]: "bswap16 (bswap16 x) = x"
  unfolding bswap16_def
  by (rule bit_eqI) (auto simp: bit_simps)

lemma bswap16_eq_iff [simp]: "bswap16 x = bswap16 y \<longleftrightarrow> x = y"
  by (metis bswap16_bswap16)


lemma bswap32_halves:
  "ucast (bswap32 x) = bswap16 (ucast (drop_bit 16 x))"
  "ucast (drop_bit 16 (bswap32 x)) = bswap16 (ucast x)"
  unfolding bswap32_def
  by (rule bit_eqI, auto simp: bit_simps dest: bit_imp_le_length)+

lemma join32': "push_bit 16 (ucast (ucast (drop_bit 16 v) :: u16)) OR (ucast (ucast v :: u16) :: u32) = v"
  by (rule bit_eqI) (auto simp: bit_simps)

lemma bswap32_bswap32 [simp]: "bswap32 (bswap32 x) = x"
  by (subst bswap32_def) (simp add: bswap32_halves join32')

lemma bswap32_eq_iff [simp]: "bswap32 x = bswap32 y \<longleftrightarrow> x = y"
  by (metis bswap32_bswap32)

section \<open>Lemmas on memory\<close>

lemma length_st [simp]:
  "length (st8 p a m) = length m" "length (st16 p b m) = length m"
  "length (st32 p c m) = length m" "length (st64 p d m) = length m"
  by (simp_all add: st8_def st16_def st32_def st64_def)

lemma ld8_st8 [mem_simps]: "p < length m \<Longrightarrow> ld8 p (st8 p v m) = v"
  by (simp add: ld8_def st8_def nth_default_def)

lemma ld8_st8_other [mem_simps]: "p \<noteq> q \<Longrightarrow> ld8 p (st8 q v m) = ld8 p m"
  by (simp add: ld8_def st8_def nth_default_def)

lemma join16: "(ucast (ucast v :: u8) :: u16) OR push_bit 8 (ucast (ucast (drop_bit 8 v) :: u8)) = v"
  by (rule bit_eqI) (auto simp: bit_simps)

lemma join32: "(ucast (ucast v :: u16) :: u32) OR push_bit 16 (ucast (ucast (drop_bit 16 v) :: u16)) = v"
  by (rule bit_eqI) (auto simp: bit_simps)

lemma join64: "(ucast (ucast v :: u32) :: u64) OR push_bit 32 (ucast (ucast (drop_bit 32 v) :: u32)) = v"
  by (rule bit_eqI) (auto simp: bit_simps)

lemma ld8_st16_other [mem_simps]: "p + 1 \<le> q \<or> q + 2 \<le> p \<Longrightarrow> ld8 p (st16 q v m) = ld8 p m"
  by (auto simp: st16_def ld8_st8_other)

lemma ld8_st32_other [mem_simps]: "p + 1 \<le> q \<or> q + 4 \<le> p \<Longrightarrow> ld8 p (st32 q v m) = ld8 p m"
  by (auto simp: st32_def ld8_st16_other)

lemma ld8_st64_other [mem_simps]: "p + 1 \<le> q \<or> q + 8 \<le> p \<Longrightarrow> ld8 p (st64 q v m) = ld8 p m"
  by (auto simp: st64_def ld8_st32_other)

lemma ld16_st16 [mem_simps]: "p + 1 < length m \<Longrightarrow> ld16 p (st16 p v m) = v"
  by (simp add: ld16_def st16_def ld8_st8 ld8_st8_other join16)

lemma ld16_st8_other [mem_simps]: "p + 2 \<le> q \<or> q + 1 \<le> p \<Longrightarrow> ld16 p (st8 q v m) = ld16 p m"
  by (auto simp: ld16_def ld8_st8_other)

lemma ld16_st16_other [mem_simps]: "p + 2 \<le> q \<or> q + 2 \<le> p \<Longrightarrow> ld16 p (st16 q v m) = ld16 p m"
  by (auto simp: ld16_def ld8_st16_other)

lemma ld16_st32_other [mem_simps]: "p + 2 \<le> q \<or> q + 4 \<le> p \<Longrightarrow> ld16 p (st32 q v m) = ld16 p m"
  by (auto simp: ld16_def ld8_st32_other)

lemma ld16_st64_other [mem_simps]: "p + 2 \<le> q \<or> q + 8 \<le> p \<Longrightarrow> ld16 p (st64 q v m) = ld16 p m"
  by (auto simp: ld16_def ld8_st64_other)

lemma ld32_st32 [mem_simps]: "p + 3 < length m \<Longrightarrow> ld32 p (st32 p v m) = v"
  by (simp add: ld32_def st32_def ld16_st16 ld16_st16_other join32)

lemma ld32_st8_other [mem_simps]: "p + 4 \<le> q \<or> q + 1 \<le> p \<Longrightarrow> ld32 p (st8 q v m) = ld32 p m"
  by (auto simp: ld32_def ld16_st8_other)

lemma ld32_st16_other [mem_simps]: "p + 4 \<le> q \<or> q + 2 \<le> p \<Longrightarrow> ld32 p (st16 q v m) = ld32 p m"
  by (auto simp: ld32_def ld16_st16_other)

lemma ld32_st32_other [mem_simps]: "p + 4 \<le> q \<or> q + 4 \<le> p \<Longrightarrow> ld32 p (st32 q v m) = ld32 p m"
  by (auto simp: ld32_def ld16_st32_other)

lemma ld32_st64_other [mem_simps]: "p + 4 \<le> q \<or> q + 8 \<le> p \<Longrightarrow> ld32 p (st64 q v m) = ld32 p m"
  by (auto simp: ld32_def ld16_st64_other)

lemma ld64_st64 [mem_simps]: "p + 7 < length m \<Longrightarrow> ld64 p (st64 p v m) = v"
  by (simp add: ld64_def st64_def ld32_st32 ld32_st32_other join64)

lemma ld64_st8_other [mem_simps]: "p + 8 \<le> q \<or> q + 1 \<le> p \<Longrightarrow> ld64 p (st8 q v m) = ld64 p m"
  by (auto simp: ld64_def ld32_st8_other)

lemma ld64_st16_other [mem_simps]: "p + 8 \<le> q \<or> q + 2 \<le> p \<Longrightarrow> ld64 p (st16 q v m) = ld64 p m"
  by (auto simp: ld64_def ld32_st16_other)

lemma ld64_st32_other [mem_simps]: "p + 8 \<le> q \<or> q + 4 \<le> p \<Longrightarrow> ld64 p (st32 q v m) = ld64 p m"
  by (auto simp: ld64_def ld32_st32_other)

lemma ld64_st64_other [mem_simps]: "p + 8 \<le> q \<or> q + 8 \<le> p \<Longrightarrow> ld64 p (st64 q v m) = ld64 p m"
  by (auto simp: ld64_def ld32_st64_other)

section \<open>Lemmas on sequence numbers\<close>

lemma unat_lt16: "unat (x::u16) < 65536"
  using unsigned_less [of x] by simp

lemma unat_lt32: "unat (x::u32) < 4294967296"
  using unsigned_less [of x] by simp

lemma mask_decode:
  fixes c p x :: "'a::len word"
  assumes "c AND p = 0" "x = 0 \<or> x = p"
  shows "(c OR x) AND p = x" "(c OR x) AND NOT p = c"
proof -
  have "(c AND p) OR (c AND NOT p) = c" by (simp add: bit.conj_disj_distrib [symmetric])
  then have "c AND NOT p = c" using assms(1) by simp
  then show "(c OR x) AND p = x" "(c OR x) AND NOT p = c"
    using assms by (auto simp: bit.conj_disj_distrib2)
qed

lemma high_bit_clear: "x < 0x80000000 \<Longrightarrow> x AND 0x80000000 = (0 :: u32)"
proof -
  assume a: "x < 0x80000000"
  then have "unat x < 2 ^ 31" by (simp add: word_less_nat_alt)
  then have "\<not> bit (unat x) 31" by (simp add: bit_iff_odd)
  then have "\<not> bit x 31" by (simp add: bit_unsigned_iff)
  then show ?thesis using and_exp_eq_0_iff_not_bit [of x 31] by simp
qed

lemma unat_ucast_16_32 [simp]: "unat (ucast (x :: u16) :: u32) = unat x"
  using unat_lt16 [of x] by (simp add: unsigned_ucast_eq take_bit_nat_eq_self)

lemma unat_lt64: "unat (x::u64) < 18446744073709551616"
  using unsigned_less [of x] by simp

lemma unat_neg32: "unat (- d :: u32) = (if unat d = 0 then 0 else 4294967296 - unat d)"
  using unat_sub_if' [of 0 d] by (auto simp: unsigned_eq_0_iff)

text \<open>Order and arithmetic on words as natural-number arithmetic with explicit wrap-around.\<close>

lemmas seq_nat = word_less_nat_alt word_le_nat_alt unat_plus_if' unat_sub_if' unat_neg32

lemma mem_seq_span [simp]: "x \<in> seq_span s n \<longleftrightarrow> x - s < n"
  by (simp add: seq_span_def)

lemma seq_span_0 [simp]: "seq_span s 0 = {}"
  by (auto simp: seq_span_def)

end
