(* ===== verification/Tcp_State.thy ===== *)
theory Tcp_State
  imports Xdp_Prelude
begin

text \<open>
  The data of the TCP transport: the connection and congestion-control entries
  that live in BPF maps and the metadata area in front of a packet
  (\<open>common/intf/intf_ebpf.h\<close>), the events, header blueprints and intermediate
  outputs of the event processors (\<open>eBPF/tcp/mtp_defs.h\<close>), and the queued
  acknowledgement (\<open>eBPF/tcp/common_funcs.h\<close>).

  Field names are those of the sources; the fields of records other than the
  connection carry a prefix because several structs share names.  The spin lock
  of a connection has no field: \<open>TCP_LOCK\<close> expands to nothing in the build
  configuration of the sources (\<open>XDP_EGRESS_DEBUG\<close> is defined in
  \<open>eBPF/tcp/eTran_defs.h\<close>), so the operations below are the program text between
  the lock calls and nothing else.
\<close>

section \<open>Constants\<close>

abbreviation (input) TCP_MSS_W_TS :: nat where "TCP_MSS_W_TS \<equiv> 1448"
abbreviation (input) TS_OPT_SIZE :: nat where "TS_OPT_SIZE \<equiv> 12"
abbreviation (input) TCP_WND_SCALE :: nat where "TCP_WND_SCALE \<equiv> 3"
abbreviation (input) MAX_CPU :: u32 where "MAX_CPU \<equiv> 20"
abbreviation (input) MAX_NIC_QUEUES :: u32 where "MAX_NIC_QUEUES \<equiv> 20"
abbreviation (input) MAX_TCP_FLOWS :: u32 where "MAX_TCP_FLOWS \<equiv> 65536"
abbreviation (input) TCP_MAX_RTT :: u32 where "TCP_MAX_RTT \<equiv> 100000"
abbreviation (input) LINK_BANDWIDTH :: u64 where "LINK_BANDWIDTH \<equiv> 3125000000"
abbreviation (input) RECOVERY_MASK :: u32 where "RECOVERY_MASK \<equiv> 0x80000000"
abbreviation (input) FORCE_RX_BUMP_MASK :: u32 where "FORCE_RX_BUMP_MASK \<equiv> 0x80000000"
abbreviation (input) OOO_SEGMENT_MASK :: u32 where "OOO_SEGMENT_MASK \<equiv> 0x80000000"
abbreviation (input) OOO_FIN_MASK :: u32 where "OOO_FIN_MASK \<equiv> 0x40000000"
abbreviation (input) OOO_CLEAR_MASK :: u32 where "OOO_CLEAR_MASK \<equiv> 0x20000000"
abbreviation (input) FLAG_SYNC :: u64 where "FLAG_SYNC \<equiv> 1"
abbreviation (input) FLAG_TO :: u64 where "FLAG_TO \<equiv> 2"

section \<open>Packet metadata: the union of a transmit and a receive view\<close>

record tx_t =
  tx_slowpath :: u64
  tx_flag :: u64
  tx_rx_bump :: u32
  tx_tx_pending :: u32
  tx_tx_pos :: u32
  tx_plen :: u32

record rx_t =
  rx_qid :: u32
  rx_conn :: u64
  rx_rx_pos :: u32
  rx_poff :: u16
  rx_plen :: u16
  rx_xsk_budget_avail :: u32
  rx_ack_bytes :: u32
  rx_ooo_bump :: u32

text \<open>\<open>ack_bytes\<close> and \<open>go_back_pos\<close> are two names of one word of the struct.\<close>

abbreviation rx_go_back_pos :: "rx_t \<Rightarrow> u32" where
  "rx_go_back_pos \<equiv> rx_ack_bytes"

text \<open>The metadata area is 32 bytes; both views read and write the same bytes.\<close>

type_synonym meta_info = bytes

definition meta_tx :: "meta_info \<Rightarrow> tx_t" where
  "meta_tx m = \<lparr> tx_slowpath = ld64 0 m, tx_flag = ld64 8 m, tx_rx_bump = ld32 16 m,
     tx_tx_pending = ld32 20 m, tx_tx_pos = ld32 24 m, tx_plen = ld32 28 m \<rparr>"

definition meta_put_tx :: "tx_t \<Rightarrow> meta_info \<Rightarrow> meta_info" where
  "meta_put_tx t m = st32 28 (tx_plen t) (st32 24 (tx_tx_pos t) (st32 20 (tx_tx_pending t)
     (st32 16 (tx_rx_bump t) (st64 8 (tx_flag t) (st64 0 (tx_slowpath t) m)))))"

definition meta_rx :: "meta_info \<Rightarrow> rx_t" where
  "meta_rx m = \<lparr> rx_qid = ld32 0 m, rx_conn = ld64 4 m, rx_rx_pos = ld32 12 m, rx_poff = ld16 16 m,
     rx_plen = ld16 18 m, rx_xsk_budget_avail = ld32 20 m, rx_ack_bytes = ld32 24 m,
     rx_ooo_bump = ld32 28 m \<rparr>"

definition meta_put_rx :: "rx_t \<Rightarrow> meta_info \<Rightarrow> meta_info" where
  "meta_put_rx r m = st32 28 (rx_ooo_bump r) (st32 24 (rx_ack_bytes r)
     (st32 20 (rx_xsk_budget_avail r) (st16 18 (rx_plen r) (st16 16 (rx_poff r)
     (st32 12 (rx_rx_pos r) (st64 4 (rx_conn r) (st32 0 (rx_qid r) m)))))))"

text \<open>An assignment to fields of the receive view.\<close>

definition upd_rx :: "(rx_t \<Rightarrow> rx_t) \<Rightarrow> meta_info \<Rightarrow> meta_info" where
  "upd_rx f m = meta_put_rx (f (meta_rx m)) m"

section \<open>Congestion control entry\<close>

record bpf_cc =
  cc_prev_desired_tx_ts :: u64
  cc_rate :: u32
  cc_cnt_tx_drops :: u16
  cc_cnt_rx_acks :: u16
  cc_cnt_rx_ack_bytes :: u32
  cc_cnt_rx_ecn_bytes :: u32
  cc_rtt_est :: u32
  cc_txp :: u32
  cc_ev_curr_tsc :: u64

section \<open>Connection entry\<close>

record bpf_tcp_conn =
  opaque_connection :: u64
  qid :: u32
  local_mac :: bytes
  remote_mac :: bytes
  local_ip :: u32
  remote_ip :: u32
  local_port :: u16
  remote_port :: u16
  rx_buf_size :: u32
  tx_buf_size :: u32
  rx_remote_avail :: u32
  rx_next_pos :: u32
  tx_pending :: u32
  tx_sent :: u32
  tx_next_pos :: u32
  tx_next_ts :: u32
  cc_idx :: u32
  ecn_enable :: u8
  rx_next_seq :: u32
  rx_ooo_start :: u32
  rx_ooo_len :: u32
  rx_dupack_cnt :: u16
  tx_next_seq :: u32
  rx_avail :: u32
  first_rto :: u8
  RTO :: u32
  SRTT :: "64 word"
  RTTVAR :: u32
  last_ack :: u32
  rate :: u32
  send_una :: u32
  data_end :: u32
  recv_next :: u32
  buf_curr_seq :: u32
  recv_init_seq :: u32
  qid2xsk :: "u8 list"

record ebpf_flow_tuple =
  ft_local_ip :: u32
  ft_remote_ip :: u32
  ft_local_port :: u16
  ft_remote_port :: u16

record slow_path_info =
  sp_active :: bool
  sp_xsk_map_key :: "32 word"

section \<open>Events, blueprints and intermediate outputs\<close>

abbreviation (input) NET_EVENT_ACK :: u8 where "NET_EVENT_ACK \<equiv> 1"
abbreviation (input) NET_EVENT_DATA :: u8 where "NET_EVENT_DATA \<equiv> 0"
abbreviation (input) NET_EVENT :: u8 where "NET_EVENT \<equiv> 2"
abbreviation (input) APP_EVENT :: u8 where "APP_EVENT \<equiv> 1"
abbreviation (input) TIMER_EVENT :: u8 where "TIMER_EVENT \<equiv> 0"
abbreviation (input) SEG_DATA :: bool where "SEG_DATA \<equiv> True"
abbreviation (input) UNSEG_DATA :: bool where "UNSEG_DATA \<equiv> False"

record TCPBP =
  bp_src_port :: u16
  bp_dest_port :: u16
  bp_seq_num :: u32
  bp_ack_seq :: u32
  bp_is_ack :: bool
  bp_rwnd_size :: u16
  bp_desired_tx_ts :: u32

record interm_out =
  io_change_cwnd :: bool
  io_skip_ack_eps :: bool
  io_trigger_ack :: bool
  io_drop :: bool
  io_skip_data_eps :: bool
  io_num_acked_bytes :: u32
  io_go_back_bytes :: u32

record app_timer_event =
  at_type :: u8
  at_data_size :: u32
  at_timestamp :: u32
  at_seq_num :: u32

record net_event =
  ev_minor_type :: u8
  ev_ack_seq :: u32
  ev_rwnd_size :: u32
  ev_ts_ecr :: u32
  ev_data_len :: u32
  ev_ts_val :: u32
  ev_seq_num :: u32
  ev_ecn_mark :: bool
  ev_timestamp :: u32

record bpf_tcp_ack =
  ak_local_ip :: u32
  ak_remote_ip :: u32
  ak_local_port :: u16
  ak_remote_port :: u16
  ak_seq :: u32
  ak_ack :: u32
  ak_rxwnd :: u32
  ak_ts_val :: u32
  ak_ts_ecr :: u32
  ak_ecn_flags :: u8
  ak_is_ack :: u8

section \<open>Per-CPU variables and maps\<close>

text \<open>
  The global arrays of the transport that are indexed by the CPU number, and the
  per-CPU acknowledgement array, form one record per CPU.  \<open>redirect_info\<close> is
  where \<open>bpf_redirect_map\<close> leaves the target of a redirect verdict and
  \<open>timer_started\<close> counts the starts of the wheel's timer.
\<close>

datatype redirect_target = To_Xsk u32 | To_Wheel u32 u32

record tcp_cpu =
  ack_prod :: u32
  ack_cons :: u32
  ack_map :: "bpf_tcp_ack list"
  prev_conn :: u32
  prev_conn_li :: u32
  prev_conn_lp :: u16
  prev_conn_ri :: u32
  prev_conn_rp :: u16
  prev_conn_ece :: u8
  tx_cached_ts :: u64
  rx_cached_ts :: u64
  front_timestamp :: u64
  nr_pkts_in_tw :: u32
  has_kick :: u64
  twt_ready :: bool
  timer_started :: nat
  redirect_info :: "redirect_target option"

record tcp_state =
  conn_map :: "ebpf_flow_tuple \<rightharpoonup> bpf_tcp_conn"
  cc_map :: "u32 \<Rightarrow> bpf_cc"
  cpus :: "u32 \<Rightarrow> tcp_cpu"
  slow_path_map :: "u32 \<Rightarrow> slow_path_info"

abbreviation (input) NULL_CONN :: u32 where "NULL_CONN \<equiv> 0xffffffff"
abbreviation (input) NAPI_BATCH_SIZE :: u32 where "NAPI_BATCH_SIZE \<equiv> 64"

definition upd_cpu :: "u32 \<Rightarrow> (tcp_cpu \<Rightarrow> tcp_cpu) \<Rightarrow> tcp_state \<Rightarrow> tcp_state" where
  "upd_cpu cpu f st = st\<lparr>cpus := (cpus st)(cpu := f (cpus st cpu))\<rparr>"

definition put_conn :: "ebpf_flow_tuple \<Rightarrow> bpf_tcp_conn \<Rightarrow> tcp_state \<Rightarrow> tcp_state" where
  "put_conn key c st = st\<lparr>conn_map := (conn_map st)(key \<mapsto> c)\<rparr>"

definition put_cc :: "u32 \<Rightarrow> bpf_cc \<Rightarrow> tcp_state \<Rightarrow> tcp_state" where
  "put_cc i cc st = st\<lparr>cc_map := (cc_map st)(i := cc)\<rparr>"

section \<open>Small accessors\<close>

definition xsk_budget_avail :: "bpf_tcp_conn \<Rightarrow> u32" where
  "xsk_budget_avail c = rx_remote_avail c"

text \<open>Lookups in the two per-flow maps: an array map returns a null pointer outside its range.\<close>

definition cc_lookup :: "(u32 \<Rightarrow> bpf_cc) \<Rightarrow> u32 \<Rightarrow> bpf_cc option" where
  "cc_lookup m i = (if i < MAX_TCP_FLOWS then Some (m i) else None)"

definition flow_key :: "bpf_tcp_conn \<Rightarrow> ebpf_flow_tuple" where
  "flow_key c = \<lparr> ft_local_ip = local_ip c, ft_remote_ip = remote_ip c,
     ft_local_port = local_port c, ft_remote_port = remote_port c \<rparr>"

text \<open>The contents of a map entry that user space has not written yet: every byte is zero.\<close>

definition zero_cc :: bpf_cc where
  "zero_cc = \<lparr> cc_prev_desired_tx_ts = 0, cc_rate = 0, cc_cnt_tx_drops = 0, cc_cnt_rx_acks = 0,
     cc_cnt_rx_ack_bytes = 0, cc_cnt_rx_ecn_bytes = 0, cc_rtt_est = 0, cc_txp = 0, cc_ev_curr_tsc = 0 \<rparr>"

definition zero_conn :: bpf_tcp_conn where
  "zero_conn = \<lparr> opaque_connection = 0, qid = 0, local_mac = replicate 6 0, remote_mac = replicate 6 0,
     local_ip = 0, remote_ip = 0, local_port = 0, remote_port = 0, rx_buf_size = 0, tx_buf_size = 0,
     rx_remote_avail = 0, rx_next_pos = 0, tx_pending = 0, tx_sent = 0, tx_next_pos = 0, tx_next_ts = 0,
     cc_idx = 0, ecn_enable = 0, rx_next_seq = 0, rx_ooo_start = 0, rx_ooo_len = 0, rx_dupack_cnt = 0,
     tx_next_seq = 0, rx_avail = 0, first_rto = 0, RTO = 0, SRTT = 0, RTTVAR = 0, last_ack = 0, rate = 0,
     send_una = 0, data_end = 0, recv_next = 0, buf_curr_seq = 0, recv_init_seq = 0,
     qid2xsk = replicate 20 0 \<rparr>"

definition zero_ack :: bpf_tcp_ack where
  "zero_ack = \<lparr> ak_local_ip = 0, ak_remote_ip = 0, ak_local_port = 0, ak_remote_port = 0, ak_seq = 0,
     ak_ack = 0, ak_rxwnd = 0, ak_ts_val = 0, ak_ts_ecr = 0, ak_ecn_flags = 0, ak_is_ack = 0 \<rparr>"

definition zero_bp :: TCPBP where
  "zero_bp = \<lparr> bp_src_port = 0, bp_dest_port = 0, bp_seq_num = 0, bp_ack_seq = 0, bp_is_ack = False,
     bp_rwnd_size = 0, bp_desired_tx_ts = 0 \<rparr>"

text \<open>The per-CPU variables when the programs are loaded (\<open>.bss\<close> is zero, \<open>prev_conn\<close> is in \<open>.data\<close>).\<close>

definition init_cpu :: tcp_cpu where
  "init_cpu = \<lparr> ack_prod = 0, ack_cons = 0, ack_map = replicate 64 zero_ack, prev_conn = NULL_CONN,
     prev_conn_li = 0, prev_conn_lp = 0, prev_conn_ri = 0, prev_conn_rp = 0, prev_conn_ece = 0,
     tx_cached_ts = 0, rx_cached_ts = 0, front_timestamp = 0, nr_pkts_in_tw = 0, has_kick = 0,
     twt_ready = False, timer_started = 0, redirect_info = None \<rparr>"

definition init_state :: tcp_state where
  "init_state = \<lparr> conn_map = (\<lambda>_. None), cc_map = (\<lambda>_. zero_cc), cpus = (\<lambda>_. init_cpu),
     slow_path_map = (\<lambda>_. \<lparr> sp_active = False, sp_xsk_map_key = 0 \<rparr>) \<rparr>"

section \<open>The two metadata views\<close>

lemma meta_rx_put_rx [simp]: "length m = 32 \<Longrightarrow> meta_rx (meta_put_rx r m) = r"
  by (simp add: meta_rx_def meta_put_rx_def mem_simps)

lemma meta_tx_put_tx [simp]: "length m = 32 \<Longrightarrow> meta_tx (meta_put_tx t m) = t"
  by (simp add: meta_tx_def meta_put_tx_def mem_simps)

lemma length_meta_put [simp]:
  "length (meta_put_rx r m) = length m" "length (meta_put_tx t m) = length m"
  by (simp_all add: meta_put_rx_def meta_put_tx_def)

lemma length_upd_rx [simp]: "length (upd_rx f m) = length m"
  by (simp add: upd_rx_def)

lemma upd_cpu_simps [simp]:
  "cpus (upd_cpu cpu f st) = (cpus st)(cpu := f (cpus st cpu))"
  "conn_map (upd_cpu cpu f st) = conn_map st"
  "cc_map (upd_cpu cpu f st) = cc_map st"
  "slow_path_map (upd_cpu cpu f st) = slow_path_map st"
  by (simp_all add: upd_cpu_def)

lemma put_conn_simps [simp]:
  "conn_map (put_conn key c st) = (conn_map st)(key \<mapsto> c)"
  "cpus (put_conn key c st) = cpus st"
  "cc_map (put_conn key c st) = cc_map st"
  "slow_path_map (put_conn key c st) = slow_path_map st"
  by (simp_all add: put_conn_def)

lemma put_cc_simps [simp]:
  "cc_map (put_cc i cc st) = (cc_map st)(i := cc)"
  "cpus (put_cc i cc st) = cpus st"
  "conn_map (put_cc i cc st) = conn_map st"
  "slow_path_map (put_cc i cc st) = slow_path_map st"
  by (simp_all add: put_cc_def)

lemma meta_rx_upd_rx [simp]: "length m = 32 \<Longrightarrow> meta_rx (upd_rx f m) = f (meta_rx m)"
  by (simp add: upd_rx_def)

end
