(* ===== verification/Seq_Window.thy ===== *)
theory Seq_Window
  imports Tcp_State
begin

text \<open>
  Sequence-number tests of the TCP receive path: \<open>seq_in_range\<close> and
  \<open>tcp_valid_rxseq_ooo\<close> of \<open>eBPF/tcp/common_funcs.h\<close>, \<open>tcp_valid_rxack\<close> and
  \<open>tcp_valid_rxseq\<close> of \<open>eBPF/tcp/tcp.h\<close>.

  A function that returns \<open>-1\<close> or fills its out-parameters is an option of the
  out-parameters.  The lemmas reduce the case distinctions of the code on
  wrapped and unwrapped intervals to distances modulo \<open>2^32\<close>, and show that
  trimming computes the intersection of a segment with the receive window.
\<close>

section \<open>Definitions\<close>

definition seq_in_range :: "u32 \<Rightarrow> u32 \<Rightarrow> u32 \<Rightarrow> bool \<Rightarrow> bool" where
  "seq_in_range seq start stop excluding =
    (if start \<le> stop then
       (if excluding then seq > start \<and> seq \<le> stop else seq \<ge> start \<and> seq < stop)
     else
       (if excluding then seq > start \<or> seq \<le> stop else seq \<ge> start \<or> seq < stop))"

definition tcp_valid_rxseq_ooo :: "bpf_tcp_conn \<Rightarrow> u32 \<Rightarrow> u32 \<Rightarrow> (u32 \<times> u32) option" where
  "tcp_valid_rxseq_ooo c seq payload_len =
    (let exp_seq_first = rx_next_seq c;
         exp_seq_last = rx_next_seq c + rx_avail c;
         pkt_seq_first = seq;
         pkt_seq_last = seq + payload_len;
         valid = seq_in_range pkt_seq_first exp_seq_first exp_seq_last False \<or>
                 seq_in_range pkt_seq_last exp_seq_first exp_seq_last True \<or>
                 seq_in_range exp_seq_first pkt_seq_first pkt_seq_last False \<or>
                 seq_in_range exp_seq_last pkt_seq_first pkt_seq_last True
     in if \<not> valid then None
        else
          let trim_start = (if seq_in_range pkt_seq_first exp_seq_first exp_seq_last False then 0
                            else exp_seq_first - pkt_seq_first);
              trim_end = (if seq_in_range pkt_seq_last exp_seq_first exp_seq_last True then 0
                          else pkt_seq_last - exp_seq_last)
          in Some (trim_start, trim_end))"

text \<open>
  What every caller of the trimming test does with its result: the payload
  shrinks by both trims when it is at least that long and is left alone otherwise.
\<close>

definition trim_payload :: "u32 \<Rightarrow> u32 \<Rightarrow> u32 \<Rightarrow> u32" where
  "trim_payload payload_len trim_start trim_end =
    (if payload_len \<ge> trim_start + trim_end then payload_len - (trim_start + trim_end) else payload_len)"

definition tcp_valid_rxack :: "bpf_tcp_conn \<Rightarrow> u32 \<Rightarrow> u32 option" where
  "tcp_valid_rxack c ack_seq =
    (let exp_ack_first = tx_next_seq c - tx_sent c;
         exp_ack_last = tx_next_seq c + tx_pending c
     in if exp_ack_first \<le> exp_ack_last then
          (if ack_seq < exp_ack_first \<or> ack_seq > exp_ack_last then None
           else Some (ack_seq - exp_ack_first))
        else
          (if exp_ack_first > ack_seq \<and> ack_seq > exp_ack_last then None
           else Some (ack_seq - exp_ack_first)))"

definition tcp_valid_rxseq :: "bpf_tcp_conn \<Rightarrow> u32 \<Rightarrow> u32 \<Rightarrow> (u32 \<times> u32) option" where
  "tcp_valid_rxseq c seq payload_len =
    (let exp_seq_first = rx_next_seq c;
         exp_seq_last = rx_next_seq c + rx_avail c;
         pkt_seq_first = seq;
         pkt_seq_last = seq + payload_len
     in if exp_seq_first \<le> exp_seq_last \<and> pkt_seq_first \<le> pkt_seq_last then
          (if pkt_seq_last < exp_seq_first then None
           else if pkt_seq_first > exp_seq_first then None
           else Some (exp_seq_first - pkt_seq_first,
                      if pkt_seq_last > exp_seq_last then pkt_seq_last - exp_seq_last else 0))
        else if pkt_seq_first \<le> pkt_seq_last \<and> exp_seq_first > exp_seq_last then
          (if pkt_seq_first \<ge> exp_seq_last \<and> pkt_seq_last < exp_seq_first then None
           else if pkt_seq_first > exp_seq_first \<or> pkt_seq_first < exp_seq_last then None
           else Some (exp_seq_first - pkt_seq_first, 0))
        else if pkt_seq_first > pkt_seq_last \<and> exp_seq_first \<le> exp_seq_last then
          (if pkt_seq_first > exp_seq_first then None
           else Some (exp_seq_first - pkt_seq_first,
                      if pkt_seq_last > exp_seq_last then pkt_seq_last - exp_seq_last else 0))
        else
          (if pkt_seq_first > exp_seq_first then None
           else Some (exp_seq_first - pkt_seq_first,
                      if pkt_seq_last > exp_seq_last then pkt_seq_last - exp_seq_last else 0)))"

section \<open>Intervals as modular distances\<close>

lemma seq_in_range_incl [seq_simps]:
  "seq_in_range s a b False \<longleftrightarrow> s - a < b - a"
  unfolding seq_in_range_def by (auto; uint_arith)

lemma seq_in_range_excl [seq_simps]:
  "seq_in_range s a b True \<longleftrightarrow> 0 < s - a \<and> s - a \<le> b - a"
  unfolding seq_in_range_def by (auto; uint_arith)

text \<open>The two-sided test of an acknowledgement number against the range \<open>f\<close> to \<open>l\<close>.\<close>

lemma ack_range_bool:
  fixes a f l :: u32
  shows "(if f \<le> l then a < f \<or> a > l else f > a \<and> a > l) \<longleftrightarrow> \<not> a - f \<le> l - f"
  by (auto; uint_arith)

lemma ack_range_distance:
  fixes a f l :: u32
  shows "(if f \<le> l then if a < f \<or> a > l then None else Some (a - f)
      else if f > a \<and> a > l then None else Some (a - f)) =
    (if a - f \<le> l - f then Some (a - f) else None)"
  using ack_range_bool [of f l a] by (auto split: if_splits)

section \<open>Trimming computes an intersection\<close>

text \<open>
  The two facts below are about distances from the left edge of the window:
  \<open>d\<close> is where the segment starts, \<open>L\<close> its length and \<open>A\<close> the window size.
\<close>

lemma trim_overlap:
  fixes d A L :: u32
  assumes "0 < L" "0 < A" "unat L + unat A < 2^32"
  shows "(d < A \<or> (0 < d + L \<and> d + L \<le> A) \<or> - d < L \<or> (0 < A - d \<and> A - d \<le> L)) \<longleftrightarrow> (\<exists>y. y - d < L \<and> y < A)"
proof -
  note lt = unat_lt32 [of d] unat_lt32 [of A] unat_lt32 [of L]
  have "\<lbrakk>d < A\<rbrakk> \<Longrightarrow> d - d < L \<and> d < A" using assms by simp
  moreover have "\<lbrakk>- d < L\<rbrakk> \<Longrightarrow> 0 - d < L \<and> 0 < A" using assms by simp
  moreover have "y - d < L \<Longrightarrow> y < A \<Longrightarrow> \<not> d < A \<Longrightarrow> - d < L" for y
    using assms lt unat_lt32 [of y] by (auto simp: seq_nat split: if_splits)
  moreover have "0 < d + L \<Longrightarrow> d + L \<le> A \<Longrightarrow> d < A \<or> - d < L"
    using assms lt by (auto simp: seq_nat split: if_splits)
  moreover have "0 < A - d \<Longrightarrow> A - d \<le> L \<Longrightarrow> d < A \<or> - d < L"
    using assms lt by (auto simp: seq_nat split: if_splits)
  ultimately show ?thesis by blast
qed

lemma trim_inter:
  fixes d A L y :: u32
  assumes L: "unat L + unat A < 2^32"
    and valid: "d < A \<or> (0 < d + L \<and> d + L \<le> A) \<or> - d < L \<or> (0 < A - d \<and> A - d \<le> L)"
    and ts: "ts = (if d < A then 0 else - d)"
    and te: "te = (if 0 < d + L \<and> d + L \<le> A then 0 else d + L - A)"
  shows "y - (d + ts) < trim_payload L ts te \<longleftrightarrow> y - d < L \<and> y < A"
proof -
  note lt = unat_lt32 [of d] unat_lt32 [of A] unat_lt32 [of L] unat_lt32 [of y]
  show ?thesis
  proof (cases "d < A")
    case True
    then show ?thesis
    proof (cases "0 < d + L \<and> d + L \<le> A")
      case T2: True
      with True ts te have "ts = 0" "te = 0" by auto
      then show ?thesis using L lt True T2
        by (auto simp: trim_payload_def seq_nat split: if_splits)
    next
      case False
      with True ts te have "ts = 0" "te = d + L - A" by auto
      then show ?thesis using L lt True False
        by (auto simp: trim_payload_def seq_nat split: if_splits)
    qed
  next
    case F: False
    then show ?thesis
    proof (cases "0 < d + L \<and> d + L \<le> A")
      case T2: True
      with F ts te have "ts = - d" "te = 0" by auto
      then show ?thesis using L lt F T2
        by (auto simp: trim_payload_def seq_nat split: if_splits)
    next
      case False
      with F ts te have "ts = - d" "te = d + L - A" by auto
      then show ?thesis using L lt F False valid
        by (auto simp: trim_payload_def seq_nat split: if_splits)
    qed
  qed
qed
lemma rxseq_ooo_distance:
  "tcp_valid_rxseq_ooo c seq len =
    (let d = seq - rx_next_seq c; A = rx_avail c
     in if d < A \<or> (0 < d + len \<and> d + len \<le> A) \<or> - d < len \<or> (0 < A - d \<and> A - d \<le> len)
        then Some (if d < A then 0 else - d, if 0 < d + len \<and> d + len \<le> A then 0 else d + len - A)
        else None)"
proof -
  have "rx_next_seq c + rx_avail c - rx_next_seq c = rx_avail c"
    "seq + len - rx_next_seq c = (seq - rx_next_seq c) + len"
    "rx_next_seq c - seq = - (seq - rx_next_seq c)"
    "rx_next_seq c + rx_avail c - seq = rx_avail c - (seq - rx_next_seq c)"
    "seq + len - seq = len"
    "seq + len - (rx_next_seq c + rx_avail c) = (seq - rx_next_seq c) + len - rx_avail c"
    by simp_all
  then show ?thesis
    unfolding tcp_valid_rxseq_ooo_def seq_in_range_incl seq_in_range_excl Let_def
    by (simp only: if_not_P if_P not_not cong: if_cong) presburger
qed

lemma span_offset:
  fixes s r A n :: u32
  shows "(\<exists>y. y - (s - r) < n \<and> y < A) \<longleftrightarrow> (\<exists>x. x - s < n \<and> x - r < A)"
proof
  assume "\<exists>y. y - (s - r) < n \<and> y < A"
  then obtain y where "y - (s - r) < n" "y < A" by blast
  then show "\<exists>x. x - s < n \<and> x - r < A" by (intro exI [of _ "y + r"]) (simp add: algebra_simps)
next
  assume "\<exists>x. x - s < n \<and> x - r < A"
  then obtain x where "x - s < n" "x - r < A" by blast
  then show "\<exists>y. y - (s - r) < n \<and> y < A" by (intro exI [of _ "x - r"]) simp
qed

lemma rxseq_ooo_inter:
  assumes "tcp_valid_rxseq_ooo c seq len = Some (ts, te)" "unat len + unat (rx_avail c) < 2 ^ 32"
  shows "seq_span (seq + ts) (trim_payload len ts te)
       = seq_span seq len \<inter> seq_span (rx_next_seq c) (rx_avail c)"
proof (rule set_eqI)
  fix x
  show "x \<in> seq_span (seq + ts) (trim_payload len ts te) \<longleftrightarrow>
        x \<in> seq_span seq len \<inter> seq_span (rx_next_seq c) (rx_avail c)"
    using trim_inter [of len "rx_avail c" "seq - rx_next_seq c" ts te "x - rx_next_seq c"] assms
    by (simp add: rxseq_ooo_distance Let_def diff_diff_eq add.commute split: if_split_asm)
qed

lemma rxseq_ooo_overlap:
  assumes "0 < len" "0 < rx_avail c" "unat len + unat (rx_avail c) < 2 ^ 32"
  shows "tcp_valid_rxseq_ooo c seq len \<noteq> None
     \<longleftrightarrow> seq_span seq len \<inter> seq_span (rx_next_seq c) (rx_avail c) \<noteq> {}"
proof -
  note span_offset [of seq "rx_next_seq c" len "rx_avail c"]
  then show ?thesis
    using trim_overlap [OF assms(1,2,3), of "seq - rx_next_seq c"]
    by (auto simp: rxseq_ooo_distance Let_def)
qed

section \<open>Properties\<close>



text \<open>C9: whenever the out-of-order receive test accepts a segment, cutting the reported
  number of bytes from its front and its back leaves exactly the bytes of the segment that
  lie in the receive window.\<close>

theorem rxseq_ooo_trims_to_window:
  assumes "tcp_valid_rxseq_ooo c seq len = Some (trim_start, trim_end)"
    and "unat len + unat (rx_avail c) < 2 ^ 32"
  shows "seq_span (seq + trim_start) (trim_payload len trim_start trim_end)
       = seq_span seq len \<inter> seq_span (rx_next_seq c) (rx_avail c)"
  using assms by (rule rxseq_ooo_inter)

theorem rxseq_ooo_trims_to_window_witness:
  "seq_span 0xfffffff0 24 = seq_span 0xffffffe0 40 \<inter> seq_span 0xfffffff0 100"
  using rxseq_ooo_trims_to_window
    [of "zero_conn\<lparr>rx_next_seq := 0xfffffff0, rx_avail := 100\<rparr>" "0xffffffe0" 40 16 0]
  by (simp add: zero_conn_def tcp_valid_rxseq_ooo_def seq_in_range_def trim_payload_def)

text \<open>An acknowledgement is valid exactly when its distance from the oldest
  unacknowledged byte is at most the number of bytes sent or queued, and then the reported
  bump is that distance.\<close>

theorem rxack_valid_iff_outstanding:
  "tcp_valid_rxack c a =
    (if a - (tx_next_seq c - tx_sent c) \<le> tx_sent c + tx_pending c
     then Some (a - (tx_next_seq c - tx_sent c)) else None)"
  unfolding tcp_valid_rxack_def Let_def ack_range_distance by (simp add: algebra_simps)

text \<open>The in-order receive test, on intervals that do not wrap around, lets exactly
  those segments through whose trimmed remainder starts at the next expected byte and is the
  part of the segment inside the window.\<close>

theorem rxseq_inorder_trims_to_window:
  assumes "rx_next_seq c \<le> rx_next_seq c + rx_avail c" "seq \<le> seq + len"
    and "tcp_valid_rxseq c seq len = Some (trim_start, trim_end)"
  shows "seq + trim_start = rx_next_seq c
    \<and> seq_span (rx_next_seq c) (len - (trim_start + trim_end))
      = seq_span seq len \<inter> seq_span (rx_next_seq c) (rx_avail c)"
proof -
  let ?f = "rx_next_seq c" and ?A = "rx_avail c"
  have tr: "seq \<le> ?f" "?f \<le> seq + len" "trim_start = ?f - seq"
    "trim_end = (if seq + len > ?f + ?A then seq + len - (?f + ?A) else 0)"
    using assms by (auto simp: tcp_valid_rxseq_def Let_def not_less split: if_split_asm)
  have "x - ?f < len - (trim_start + trim_end) \<longleftrightarrow> x - seq < len \<and> x - ?f < ?A" for x
    using assms(1,2) tr unat_lt32 [of x] unat_lt32 [of seq] unat_lt32 [of ?f]
      unat_lt32 [of len] unat_lt32 [of ?A]
    by (cases "seq + len > ?f + ?A") (auto simp: seq_nat split: if_splits)
  then have "seq_span ?f (len - (trim_start + trim_end)) = seq_span seq len \<inter> seq_span ?f ?A"
    by (auto simp only: mem_seq_span set_eq_iff Int_iff)
  with tr(3) show ?thesis by simp
qed

theorem rxseq_inorder_trims_to_window_witness:
  "seq_span 120 30 = seq_span 100 60 \<inter> seq_span (120 :: u32) 30"
  using rxseq_inorder_trims_to_window
    [of "zero_conn\<lparr>rx_next_seq := 120, rx_avail := 30\<rparr>" 100 60 20 10]
  by (simp add: zero_conn_def tcp_valid_rxseq_def)

text \<open>The in-order receive test refuses a segment that carries the next expected byte
  when the segment itself crosses the wrap-around and the window starts just after it, while
  the out-of-order test accepts the same segment.\<close>

theorem rxseq_inorder_refuses_wrapped_segment:
  "let c = zero_conn\<lparr>rx_next_seq := 0x20, rx_avail := 0x1000\<rparr>
   in rx_next_seq c \<in> seq_span 0xfffffff0 0x100
    \<and> tcp_valid_rxseq c 0xfffffff0 0x100 = None
    \<and> tcp_valid_rxseq_ooo c 0xfffffff0 0x100 = Some (0x30, 0)"
  by (simp add: zero_conn_def tcp_valid_rxseq_def tcp_valid_rxseq_ooo_def seq_in_range_def)

end
