(* ===== verification/Fifo_Spec.thy ===== *)
theory Fifo_Spec
  imports Xdp_Prelude
begin

text \<open>
  The contract of a bounded first-in first-out channel, the interface between the
  receive program, which appends to the per-CPU acknowledgement ring, and \<open>xdp_gen\<close>,
  which takes from it.  The lemmas are proved once from the contract; the ring
  interprets it.
\<close>

text \<open>
  A run of pushes (\<open>Some x\<close>) and pops (\<open>None\<close>) from a channel: a refused
  operation leaves the channel alone.  The result is the accepted inputs, the
  outputs and the final channel.
\<close>

primrec fifo_run ::
  "('a \<Rightarrow> 'q \<Rightarrow> 'q option) \<Rightarrow> ('q \<Rightarrow> ('a \<times> 'q) option) \<Rightarrow> 'a option list \<Rightarrow> 'q \<Rightarrow> 'a list \<times> 'a list \<times> 'q"
where
  "fifo_run push pop [] q = ([], [], q)"
| "fifo_run push pop (oper # ops) q =
    (case oper of
       Some x \<Rightarrow> (case push x q of
           None \<Rightarrow> fifo_run push pop ops q
         | Some q' \<Rightarrow> (let (ins, outs, r) = fifo_run push pop ops q' in (x # ins, outs, r)))
     | None \<Rightarrow> (case pop q of
           None \<Rightarrow> fifo_run push pop ops q
         | Some (x, q') \<Rightarrow> (let (ins, outs, r) = fifo_run push pop ops q' in (ins, x # outs, r))))"

locale bounded_fifo =
  fixes push :: "'a \<Rightarrow> 'q \<Rightarrow> 'q option"
    and pop :: "'q \<Rightarrow> ('a \<times> 'q) option"
    and contents :: "'q \<Rightarrow> 'a list"
    and wf :: "'q \<Rightarrow> bool"
    and capacity :: nat
  assumes push_refused: "wf q \<Longrightarrow> push x q = None \<longleftrightarrow> length (contents q) \<ge> capacity"
    and push_contents: "wf q \<Longrightarrow> push x q = Some q' \<Longrightarrow> wf q' \<and> contents q' = contents q @ [x]"
    and pop_refused: "wf q \<Longrightarrow> pop q = None \<longleftrightarrow> contents q = []"
    and pop_contents: "wf q \<Longrightarrow> pop q = Some (x, q') \<Longrightarrow> wf q' \<and> contents q = x # contents q'"
begin

lemma run_fifo:
  assumes "wf q" "fifo_run push pop ops q = (ins, outs, r)"
  shows "wf r \<and> contents q @ ins = outs @ contents r"
  using assms
proof (induction ops arbitrary: q ins outs r)
  case Nil
  then show ?case by simp
next
  case (Cons oper ops)
  let ?next = "case oper of Some x \<Rightarrow> push x q | None \<Rightarrow> map_option snd (pop q)"
  obtain i os s where rest: "fifo_run push pop ops (case ?next of None \<Rightarrow> q | Some q' \<Rightarrow> q') = (i, os, s)"
    by (metis prod_cases3)
  show ?case
  proof (cases ?next)
    case None
    then have "(ins, outs, r) = (i, os, s)" using Cons.prems(2) rest
      by (auto split: option.splits)
    then show ?thesis using Cons.IH Cons.prems(1) rest None by simp
  next
    case (Some q')
    show ?thesis
    proof (cases oper)
      case None
      then obtain x where x: "pop q = Some (x, q')" using Some by auto
      then show ?thesis
        using Cons.IH [of q'] Cons.prems rest pop_contents [OF Cons.prems(1) x] None by auto
    next
      case x: (Some x)
      then have "push x q = Some q'" using Some by simp
      then show ?thesis
        using Cons.IH [of q'] Cons.prems rest push_contents [of q x q'] x by auto
    qed
  qed
qed

lemma push_length:
  assumes "wf q" "length (contents q) \<le> capacity" "push x q = Some q'"
  shows "length (contents q') \<le> capacity"
  using assms push_refused [of q x] push_contents [of q x q'] by auto

lemma push_pop_empty:
  assumes "wf q" "contents q = []" "push x q = Some q'"
  shows "\<exists>r. pop q' = Some (x, r) \<and> contents r = []"
proof -
  have q': "wf q'" "contents q' = [x]" using assms push_contents [of q x q'] by auto
  then obtain y r where "pop q' = Some (y, r)" using pop_refused [of q'] by auto
  with q' show ?thesis using pop_contents [of q' y r] by auto
qed

end

end
