(* ===== verification/Ack_Ring.thy ===== *)
theory Ack_Ring
  imports Tcp_State Fifo_Spec
begin

text \<open>
  The per-CPU ring of pending acknowledgements (\<open>eBPF/tcp/tcp.h\<close>,
  \<open>ackqueue_empty\<close> to \<open>enqueue_ack\<close>; the array and its two indices are declared
  in \<open>eBPF/tcp/common_funcs.h\<close>).  The receive program appends, \<open>xdp_gen\<close> removes.

  \<open>ack_ring_push\<close> and \<open>ack_ring_pop\<close> are the index manipulation shared by the
  enqueue and dequeue functions; they implement the bounded channel contract with
  63 places, one slot being kept free to tell a full ring from an empty one.
\<close>

section \<open>Definitions\<close>

definition ack_lookup :: "tcp_cpu \<Rightarrow> u32 \<Rightarrow> bpf_tcp_ack option" where
  "ack_lookup u i = (if i < NAPI_BATCH_SIZE then Some (ack_map u ! unat i) else None)"

definition ack_ring_push :: "bpf_tcp_ack \<Rightarrow> tcp_cpu \<Rightarrow> tcp_cpu option" where
  "ack_ring_push ack u =
    (let prod = ack_prod u; cons = ack_cons u
     in if cons = (prod + 1) AND (NAPI_BATCH_SIZE - 1) then None
        else case ack_lookup u prod of
            None \<Rightarrow> None
          | Some _ \<Rightarrow> Some (u\<lparr>ack_map := (ack_map u)[unat prod := ack],
                               ack_prod := (prod + 1) AND (NAPI_BATCH_SIZE - 1)\<rparr>))"

definition ack_ring_pop :: "tcp_cpu \<Rightarrow> (bpf_tcp_ack \<times> tcp_cpu) option" where
  "ack_ring_pop u =
    (if ack_prod u = ack_cons u then None
     else case ack_lookup u (ack_cons u) of
         None \<Rightarrow> None
       | Some ack \<Rightarrow> Some (ack, u\<lparr>ack_cons := (ack_cons u + 1) AND (NAPI_BATCH_SIZE - 1)\<rparr>))"

definition ackqueue_empty :: "u32 \<Rightarrow> tcp_state \<Rightarrow> bool" where
  "ackqueue_empty cpu st =
    (if cpu \<ge> MAX_CPU then True else ack_prod (cpus st cpu) = ack_cons (cpus st cpu))"

definition dequeue_ack :: "u32 \<Rightarrow> tcp_state \<Rightarrow> bpf_tcp_ack option \<times> tcp_state" where
  "dequeue_ack cpu st =
    (if cpu \<ge> MAX_CPU then (None, st)
     else
       let u = cpus st cpu
       in if ack_prod u = ack_cons u then (None, st)
          else (ack_lookup u (ack_cons u),
                upd_cpu cpu (\<lambda>u. u\<lparr>ack_cons := (ack_cons u + 1) AND (NAPI_BATCH_SIZE - 1)\<rparr>) st))"

text \<open>
  The assignments to the queued acknowledgement and to the connection that
  \<open>enqueue_prev_ack\<close> and \<open>enqueue_ack\<close> have in common.
\<close>

definition fill_ack :: "bpf_tcp_conn \<Rightarrow> bpf_tcp_ack \<Rightarrow> u32 \<Rightarrow> bool \<Rightarrow> bpf_tcp_ack \<times> bpf_tcp_conn" where
  "fill_ack c ack now ece =
    (ack\<lparr>ak_local_ip := local_ip c, ak_remote_ip := remote_ip c,
         ak_local_port := local_port c, ak_remote_port := remote_port c,
         ak_seq := tx_next_seq c, ak_ack := rx_next_seq c,
         ak_rxwnd := c_min (drop_bit TCP_WND_SCALE (rx_avail c)) 0xFFFF,
         ak_ts_val := now, ak_ts_ecr := tx_next_ts c,
         ak_ecn_flags := (if ece then 1 else 0)\<rparr>,
     c\<lparr>tx_next_ts := 0\<rparr>)"

definition prev_conn_key :: "tcp_cpu \<Rightarrow> ebpf_flow_tuple" where
  "prev_conn_key u = \<lparr> ft_local_ip = prev_conn_li u, ft_remote_ip = prev_conn_ri u,
     ft_local_port = prev_conn_lp u, ft_remote_port = prev_conn_rp u \<rparr>"

text \<open>The result is \<open>True\<close> for the return value 0 and \<open>False\<close> for \<open>-1\<close>.\<close>

definition enqueue_prev_ack :: "u32 \<Rightarrow> u64 \<Rightarrow> tcp_state \<Rightarrow> bool \<times> tcp_state" where
  "enqueue_prev_ack cpu ktime st =
    (let u = cpus st cpu; prod = ack_prod u; cons = ack_cons u
     in if cons = (prod + 1) AND (NAPI_BATCH_SIZE - 1) then (False, st)
        else
          let now = ucast ktime
          in case ack_lookup u prod of
               None \<Rightarrow> (False, st)
             | Some ack \<Rightarrow>
                 let ece = prev_conn_ece u; key = prev_conn_key u
                 in case conn_map st key of
                      None \<Rightarrow> (False, st)
                    | Some c \<Rightarrow>
                        let (ack', c') = fill_ack c ack now (ece \<noteq> 0)
                        in (True, upd_cpu cpu (\<lambda>u. u\<lparr>ack_map := (ack_map u)[unat prod := ack'],
                                     ack_prod := (prod + 1) AND (NAPI_BATCH_SIZE - 1)\<rparr>)
                                   (put_conn key c' st)))"

text \<open>
  \<open>enqueue_ack\<close> belongs to the configuration without coalescing.  Its caller
  looked up the slot \<open>ack\<close> at the index \<open>ack_prod[cpu]\<close> beforehand.
\<close>

definition enqueue_ack :: "bpf_tcp_conn \<Rightarrow> u32 \<Rightarrow> u32 \<Rightarrow> bool \<Rightarrow> tcp_cpu \<Rightarrow> bpf_tcp_conn \<times> tcp_cpu" where
  "enqueue_ack c slot now ece u =
    (let (ack', c') = fill_ack c (ack_map u ! unat slot) now ece
     in (c', u\<lparr>ack_map := (ack_map u)[unat slot := ack'],
              ack_prod := (ack_prod u + 1) AND (NAPI_BATCH_SIZE - 1)\<rparr>))"

section \<open>The ring as a list\<close>

definition ack_ring_wf :: "tcp_cpu \<Rightarrow> bool" where
  "ack_ring_wf u \<longleftrightarrow> ack_prod u < NAPI_BATCH_SIZE \<and> ack_cons u < NAPI_BATCH_SIZE \<and> length (ack_map u) = 64"

definition ack_ring_count :: "tcp_cpu \<Rightarrow> nat" where
  "ack_ring_count u = (unat (ack_prod u) + 64 - unat (ack_cons u)) mod 64"

definition ack_ring_list :: "tcp_cpu \<Rightarrow> bpf_tcp_ack list" where
  "ack_ring_list u =
    map (\<lambda>i. ack_map u ! ((unat (ack_cons u) + i) mod 64)) [0..<ack_ring_count u]"

lemma unat_next_slot:
  fixes x :: u32
  assumes "x < 64"
  shows "unat ((x + 1) AND 63) = (unat x + 1) mod 64"
proof -
  have "(x + 1) AND 63 = take_bit 6 (x + 1)"
    by (simp add: take_bit_eq_mask mask_eq_exp_minus_1)
  moreover have "unat (x + 1) = unat x + 1"
    using assms by (simp add: seq_nat)
  ultimately show ?thesis
    by (simp add: unsigned_take_bit_eq take_bit_eq_mod unat_mod)
qed

lemma slot_bounds:
  fixes x :: u32
  shows "x < 64 \<Longrightarrow> unat x < 64" and "(y AND 63 :: u32) < 64"
proof -
  show "x < 64 \<Longrightarrow> unat x < 64" by (simp add: word_less_nat_alt)
  have "y AND 63 \<le> (63 :: u32)" by (rule word_and_le1)
  then show "(y AND 63 :: u32) < 64" by (simp add: seq_nat)
qed

lemma mod_wrap64:
  fixes x :: nat
  assumes "x < 128"
  shows "x mod 64 = (if x < 64 then x else x - 64)"
proof (cases "x < 64")
  case False
  then have "x mod 64 = (x - 64) mod 64" by (simp add: le_mod_geq)
  then show ?thesis using assms False by simp
qed simp

lemma ring_count_cases:
  assumes "p < 64" "c < 64"
  shows "(p + 64 - c) mod 64 = (if c \<le> p then p - c else p + 64 - c :: nat)"
  using assms by (simp add: mod_wrap64)

lemma ack_ring_full_iff:
  assumes "ack_ring_wf u"
  shows "ack_cons u = (ack_prod u + 1) AND (NAPI_BATCH_SIZE - 1) \<longleftrightarrow> ack_ring_count u = 63"
proof -
  have b: "unat (ack_prod u) < 64" "unat (ack_cons u) < 64"
    using assms by (auto simp: ack_ring_wf_def slot_bounds)
  have "ack_cons u = (ack_prod u + 1) AND 63 \<longleftrightarrow>
      unat (ack_cons u) = (unat (ack_prod u) + 1) mod 64"
    using assms unat_next_slot [of "ack_prod u"] by (metis ack_ring_wf_def word_unat_eq_iff)
  also have "\<dots> \<longleftrightarrow> ack_ring_count u = 63"
    using b unfolding ack_ring_count_def ring_count_cases [OF b] by (auto simp: mod_wrap64)
  finally show ?thesis by simp
qed

lemma ack_ring_empty_iff:
  assumes "ack_ring_wf u"
  shows "ack_prod u = ack_cons u \<longleftrightarrow> ack_ring_list u = []"
proof -
  have b: "unat (ack_prod u) < 64" "unat (ack_cons u) < 64"
    using assms by (auto simp: ack_ring_wf_def slot_bounds)
  have "ack_ring_list u = [] \<longleftrightarrow> ack_ring_count u = 0"
    by (simp add: ack_ring_list_def)
  also have "\<dots> \<longleftrightarrow> unat (ack_prod u) = unat (ack_cons u)"
    using b unfolding ack_ring_count_def ring_count_cases [OF b] by auto
  finally show ?thesis by (simp add: word_unat_eq_iff)
qed

lemma ack_lookup_wf [simp]:
  "ack_ring_wf u \<Longrightarrow> ack_lookup u (ack_prod u) = Some (ack_map u ! unat (ack_prod u))"
  "ack_ring_wf u \<Longrightarrow> ack_lookup u (ack_cons u) = Some (ack_map u ! unat (ack_cons u))"
  by (simp_all add: ack_lookup_def ack_ring_wf_def)

lemma ring_append:
  fixes u :: tcp_cpu
  assumes wf: "ack_ring_wf u" and room: "ack_ring_count u \<noteq> 63"
    and u': "u' = u\<lparr>ack_map := (ack_map u)[unat (ack_prod u) := x],
                   ack_prod := (ack_prod u + 1) AND (NAPI_BATCH_SIZE - 1)\<rparr>"
  shows "ack_ring_wf u' \<and> ack_ring_list u' = ack_ring_list u @ [x]"
proof -
  let ?p = "unat (ack_prod u)" and ?c = "unat (ack_cons u)" and ?n = "ack_ring_count u"
  have b: "?p < 64" "?c < 64" "length (ack_map u) = 64"
    using wf by (auto simp: ack_ring_wf_def slot_bounds)
  have wf': "ack_ring_wf u'" using wf slot_bounds by (simp add: ack_ring_wf_def u')
  have n: "?n = (if ?c \<le> ?p then ?p - ?c else ?p + 64 - ?c)"
    unfolding ack_ring_count_def ring_count_cases [OF b(1,2)] ..
  have p': "unat (ack_prod u') = (?p + 1) mod 64"
    using wf by (simp add: u' unat_next_slot ack_ring_wf_def)
  have c': "ack_cons u' = ack_cons u" by (simp add: u')
  have n': "ack_ring_count u' = ?n + 1"
    using b room n unfolding ack_ring_count_def p' c' by (auto simp: mod_wrap64 split: if_splits)
  have last: "(?c + ?n) mod 64 = ?p" using b n by (auto simp: mod_wrap64)
  have other: "?p \<noteq> (?c + i) mod 64" if "i < ?n" for i
    using that b n by (auto simp: mod_wrap64 split: if_splits)
  have "ack_ring_list u' = map (\<lambda>i. (ack_map u)[?p := x] ! ((?c + i) mod 64)) [0..<?n + 1]"
    unfolding ack_ring_list_def n' c' by (simp add: u')
  also have "\<dots> = map (\<lambda>i. (ack_map u)[?p := x] ! ((?c + i) mod 64)) [0..<?n] @ [x]"
    using last b by simp
  also have "map (\<lambda>i. (ack_map u)[?p := x] ! ((?c + i) mod 64)) [0..<?n] = ack_ring_list u"
    unfolding ack_ring_list_def using other by (intro map_cong) auto
  finally show ?thesis using wf' by simp
qed

lemma ring_remove:
  assumes wf: "ack_ring_wf u" and ne: "ack_prod u \<noteq> ack_cons u"
    and u': "u' = u\<lparr>ack_cons := (ack_cons u + 1) AND (NAPI_BATCH_SIZE - 1)\<rparr>"
  shows "ack_ring_wf u' \<and> ack_ring_list u = ack_map u ! unat (ack_cons u) # ack_ring_list u'"
proof -
  let ?p = "unat (ack_prod u)" and ?c = "unat (ack_cons u)" and ?n = "ack_ring_count u"
  have b: "?p < 64" "?c < 64" using wf by (auto simp: ack_ring_wf_def slot_bounds)
  have wf': "ack_ring_wf u'" using wf slot_bounds by (simp add: ack_ring_wf_def u')
  have "?p \<noteq> ?c" using ne by (simp add: word_unat_eq_iff)
  moreover have c': "unat (ack_cons u') = (?c + 1) mod 64"
    using wf by (simp add: u' unat_next_slot ack_ring_wf_def)
  moreover have p': "ack_prod u' = ack_prod u" by (simp add: u')
  ultimately have n: "?n = Suc (ack_ring_count u')"
    using b unfolding ack_ring_count_def by (auto simp: mod_wrap64 split: if_splits)
  have idx: "(unat (ack_cons u') + i) mod 64 = (?c + Suc i) mod 64" for i
    unfolding c' by (simp add: mod_simps)
  have "ack_ring_list u = map (\<lambda>i. ack_map u ! ((?c + i) mod 64)) (0 # map Suc [0..<ack_ring_count u'])"
    unfolding ack_ring_list_def n by (simp add: upt_conv_Cons map_Suc_upt del: upt_Suc)
  also have "\<dots> = ack_map u ! ?c # ack_ring_list u'"
    using b unfolding ack_ring_list_def idx by (simp add: u')
  finally show ?thesis using wf' by simp
qed

lemma length_ring_list [simp]: "length (ack_ring_list u) = ack_ring_count u"
  by (simp add: ack_ring_list_def)

lemma ring_count_le: "ack_ring_count u \<le> 63"
  using mod_less_divisor [of 64 "unat (ack_prod u) + 64 - unat (ack_cons u)"]
  by (simp add: ack_ring_count_def)

interpretation ackq: bounded_fifo ack_ring_push ack_ring_pop ack_ring_list ack_ring_wf 63
proof
  fix u u' :: tcp_cpu and x
  assume wf: "ack_ring_wf u"
  show "ack_ring_push x u = None \<longleftrightarrow> 63 \<le> length (ack_ring_list u)"
    using ack_ring_full_iff [OF wf] ring_count_le [of u] wf
    by (auto simp: ack_ring_push_def Let_def)
  show "ack_ring_push x u = Some u' \<Longrightarrow> ack_ring_wf u' \<and> ack_ring_list u' = ack_ring_list u @ [x]"
    using ack_ring_full_iff [OF wf] wf
    by (intro ring_append) (auto simp: ack_ring_push_def Let_def split: if_split_asm)
  show "ack_ring_pop u = None \<longleftrightarrow> ack_ring_list u = []"
    using ack_ring_empty_iff [OF wf] wf by (auto simp: ack_ring_pop_def)
  show "ack_ring_pop u = Some (x, u') \<Longrightarrow> ack_ring_wf u' \<and> ack_ring_list u = x # ack_ring_list u'"
    using ring_remove [OF wf] wf by (auto simp: ack_ring_pop_def split: if_split_asm)
qed

lemma ack_ring_wf_init [simp]: "ack_ring_wf init_cpu"
  by (simp add: ack_ring_wf_def init_cpu_def)

lemma rxwnd_scaled:
  "unat (c_min (drop_bit TCP_WND_SCALE a) 0xFFFF :: u32) * 8 \<le> unat a"
proof -
  have "unat (drop_bit 3 a) = unat a div 8"
    by (simp add: unat_drop_bit_eq drop_bit_eq_div unat_div)
  moreover have "unat (min (drop_bit 3 a) 0xFFFF) \<le> unat (drop_bit 3 a)"
    by (simp add: min_def word_le_nat_alt)
  ultimately show ?thesis by simp
qed

lemma enqueue_prev_ack_push:
  assumes "ack_ring_wf (cpus st cpu)"
  shows "enqueue_prev_ack cpu ktime st =
    (case conn_map st (prev_conn_key (cpus st cpu)) of
       None \<Rightarrow> (False, st)
     | Some c \<Rightarrow>
         let u = cpus st cpu;
             (a, c') = fill_ack c (ack_map u ! unat (ack_prod u)) (ucast ktime) (prev_conn_ece u \<noteq> 0)
         in case ack_ring_push a u of
              None \<Rightarrow> (False, st)
            | Some u' \<Rightarrow> (True, upd_cpu cpu (\<lambda>_. u') (put_conn (prev_conn_key u) c' st)))"
  using assms
  by (simp add: enqueue_prev_ack_def ack_ring_push_def Let_def upd_cpu_def split: option.split prod.split)

lemma dequeue_ack_pop:
  assumes "ack_ring_wf (cpus st cpu)" "cpu < MAX_CPU"
  shows "dequeue_ack cpu st =
    (case ack_ring_pop (cpus st cpu) of
       None \<Rightarrow> (None, st) | Some (a, u') \<Rightarrow> (Some a, upd_cpu cpu (\<lambda>_. u') st))"
  using assms by (simp add: dequeue_ack_def ack_ring_pop_def Let_def upd_cpu_def not_le)

section \<open>Properties\<close>



text \<open>Queueing the coalesced acknowledgement of the previous connection fails, without
  any effect, exactly when 63 acknowledgements are pending or the connection is gone;
  otherwise one acknowledgement is appended that names the next expected byte of the
  connection, and whose window field, scaled back, never exceeds the free receive buffer.\<close>

theorem enqueue_prev_ack_correct:
  assumes "ack_ring_wf (cpus st cpu)"
  shows "case enqueue_prev_ack cpu ktime st of
      (False, st') \<Rightarrow> st' = st \<and> (length (ack_ring_list (cpus st cpu)) = 63
                       \<or> conn_map st (prev_conn_key (cpus st cpu)) = None)
    | (True, st') \<Rightarrow> (\<exists>c a. conn_map st (prev_conn_key (cpus st cpu)) = Some c
        \<and> ack_ring_wf (cpus st' cpu)
        \<and> ack_ring_list (cpus st' cpu) = ack_ring_list (cpus st cpu) @ [a]
        \<and> ak_ack a = rx_next_seq c \<and> ak_seq a = tx_next_seq c \<and> ak_ts_ecr a = tx_next_ts c
        \<and> unat (ak_rxwnd a) * 8 \<le> unat (rx_avail c) \<and> ak_rxwnd a \<le> 0xFFFF
        \<and> conn_map st' = (conn_map st)(prev_conn_key (cpus st cpu) \<mapsto> c\<lparr>tx_next_ts := 0\<rparr>))"
proof (cases "conn_map st (prev_conn_key (cpus st cpu))")
  case None
  then show ?thesis by (simp add: enqueue_prev_ack_push [OF assms])
next
  case (Some c)
  let ?u = "cpus st cpu"
  let ?f = "fill_ack c (ack_map ?u ! unat (ack_prod ?u)) (ucast ktime) (prev_conn_ece ?u \<noteq> 0)"
  show ?thesis
  proof (cases "ack_ring_push (fst ?f) ?u")
    case None
    then have "length (ack_ring_list ?u) = 63"
      using ackq.push_refused [OF assms] ring_count_le [of ?u] by simp
    with None Some show ?thesis
      by (simp add: enqueue_prev_ack_push [OF assms] Let_def case_prod_beta)
  next
    case u': (Some u')
    have "unat (ak_rxwnd (fst ?f)) * 8 \<le> unat (rx_avail c)" "ak_rxwnd (fst ?f) \<le> 0xFFFF"
      using rxwnd_scaled [of "rx_avail c"] by (simp_all add: fill_ack_def)
    with Some u' ackq.push_contents [OF assms u'] show ?thesis
      by (simp add: enqueue_prev_ack_push [OF assms] Let_def case_prod_beta)
        (simp add: fill_ack_def)
  qed
qed

theorem enqueue_prev_ack_correct_witness:
  "let st = init_state\<lparr>conn_map := [flow_key zero_conn \<mapsto> zero_conn\<lparr>rx_avail := 0x1000\<rparr>]\<rparr>
   in (\<exists>c a. c = zero_conn\<lparr>rx_avail := 0x1000\<rparr>
      \<and> ack_ring_list (cpus (snd (enqueue_prev_ack 3 0 st)) 3) = [a] \<and> unat (ak_rxwnd a) * 8 \<le> unat (rx_avail c))"
  using enqueue_prev_ack_correct
    [of "init_state\<lparr>conn_map := [flow_key zero_conn \<mapsto> zero_conn\<lparr>rx_avail := 0x1000\<rparr>]\<rparr>" 3 0]
  by (auto simp: init_state_def init_cpu_def flow_key_def prev_conn_key_def zero_conn_def
      enqueue_prev_ack_def ack_lookup_def fill_ack_def ack_ring_list_def ack_ring_count_def Let_def
      upd_cpu_def put_conn_def ack_ring_wf_def)

text \<open>Dequeueing returns the oldest pending acknowledgement and leaves the others,
  returns a null pointer exactly on an empty ring, and does not touch other CPUs.\<close>

theorem dequeue_ack_oldest_first:
  assumes "ack_ring_wf (cpus st cpu)" "cpu < MAX_CPU"
  shows "(ackqueue_empty cpu st \<longleftrightarrow> ack_ring_list (cpus st cpu) = [])
    \<and> (case dequeue_ack cpu st of
        (None, st') \<Rightarrow> st' = st \<and> ack_ring_list (cpus st cpu) = []
      | (Some a, st') \<Rightarrow> ack_ring_list (cpus st cpu) = a # ack_ring_list (cpus st' cpu)
          \<and> ack_ring_wf (cpus st' cpu) \<and> (\<forall>i. i \<noteq> cpu \<longrightarrow> cpus st' i = cpus st i))"
  using ack_ring_empty_iff [OF assms(1)] ackq.pop_refused [OF assms(1)]
    ackq.pop_contents [OF assms(1)] assms(2)
  by (auto simp: dequeue_ack_pop [OF assms] ackqueue_empty_def not_le split: option.split)

theorem dequeue_ack_oldest_first_witness:
  "let st = upd_cpu 3 (\<lambda>u. u\<lparr>ack_prod := 1\<rparr>) init_state
   in \<not> ackqueue_empty 3 st \<and> fst (dequeue_ack 3 st) = Some zero_ack
    \<and> ack_ring_list (cpus (snd (dequeue_ack 3 st)) 3) = []"
  using dequeue_ack_oldest_first [of "upd_cpu 3 (\<lambda>u. u\<lparr>ack_prod := 1\<rparr>) init_state" 3]
  by (simp add: init_state_def init_cpu_def dequeue_ack_def ackqueue_empty_def Let_def
      ack_lookup_def ack_ring_wf_def ack_ring_list_def ack_ring_count_def)

end
