(* ===== verification/Net_Headers.thy ===== *)
theory Net_Headers
  imports Xdp_Prelude
begin

text \<open>
  Packet headers as byte ranges, the parsing helpers
  (\<open>include/xdp/parsing_helpers.h\<close>) and the flag setters of
  \<open>eBPF/tcp/common_funcs.h\<close>.

  A packet is the list of its bytes; a header pointer is an offset into it and
  \<open>data_end\<close> is the length of the list, so the test \<open>h + 1 > data_end\<close> of the
  sources is a comparison of an offset plus a struct size with that length.  The
  parsers return \<open>None\<close> where the code returns \<open>-1\<close> and otherwise the returned
  value, the header pointer they store and the new cursor.
\<close>

section \<open>Layout\<close>

abbreviation (input) ETH_HLEN :: nat where "ETH_HLEN \<equiv> 14"
abbreviation (input) IP_HLEN :: nat where "IP_HLEN \<equiv> 20"
abbreviation (input) TCP_HLEN :: nat where "TCP_HLEN \<equiv> 20"
abbreviation (input) TS_OPT_STRUCT :: nat where "TS_OPT_STRUCT \<equiv> 10"
abbreviation (input) ETH_P_IP :: u16 where "ETH_P_IP \<equiv> 0x0800"
abbreviation (input) ETH_P_8021Q :: u16 where "ETH_P_8021Q \<equiv> 0x8100"
abbreviation (input) ETH_P_8021AD :: u16 where "ETH_P_8021AD \<equiv> 0x88A8"
abbreviation (input) IPPROTO_TCP :: u8 where "IPPROTO_TCP \<equiv> 6"
abbreviation (input) IPPROTO_HOMA :: u8 where "IPPROTO_HOMA \<equiv> 0xFD"
abbreviation (input) IPTOS_ECN_ECT0 :: u8 where "IPTOS_ECN_ECT0 \<equiv> 2"
abbreviation (input) IPTOS_ECN_CE :: u8 where "IPTOS_ECN_CE \<equiv> 3"

text \<open>A bit field of one bit.\<close>

definition put_bit :: "nat \<Rightarrow> bool \<Rightarrow> u8 \<Rightarrow> u8" where
  "put_bit n b w = (if b then set_bit n w else unset_bit n w)"

definition tcp_flag :: "nat \<Rightarrow> nat \<Rightarrow> bytes \<Rightarrow> bool" where
  "tcp_flag n tcph p = bit (ld8 (tcph + 13) p) n"

definition put_tcp_flag :: "nat \<Rightarrow> bool \<Rightarrow> nat \<Rightarrow> bytes \<Rightarrow> bytes" where
  "put_tcp_flag n b tcph p = st8 (tcph + 13) (put_bit n b (ld8 (tcph + 13) p)) p"

abbreviation (input) FIN :: nat where "FIN \<equiv> 0"
abbreviation (input) SYN :: nat where "SYN \<equiv> 1"
abbreviation (input) RST :: nat where "RST \<equiv> 2"
abbreviation (input) PSH :: nat where "PSH \<equiv> 3"
abbreviation (input) ACK :: nat where "ACK \<equiv> 4"
abbreviation (input) URG :: nat where "URG \<equiv> 5"
abbreviation (input) ECE :: nat where "ECE \<equiv> 6"
abbreviation (input) CWR :: nat where "CWR \<equiv> 7"

text \<open>The Linux flag words \<open>TCP_FLAG_FIN\<close> to \<open>TCP_FLAG_CWR\<close>, as loaded on a little-endian host.\<close>

abbreviation (input) TCP_FLAG_ACK :: u16 where "TCP_FLAG_ACK \<equiv> 0x1000"

section \<open>Parsing helpers\<close>

definition proto_is_vlan :: "u16 \<Rightarrow> bool" where
  "proto_is_vlan h_proto = (h_proto = bpf_htons ETH_P_8021Q \<or> h_proto = bpf_htons ETH_P_8021AD)"

text \<open>The unrolled loop over VLAN tags, with the number of tags it may still skip.\<close>

fun skip_vlans :: "nat \<Rightarrow> bytes \<Rightarrow> u16 \<Rightarrow> nat \<Rightarrow> u16 \<times> nat" where
  "skip_vlans 0 p h_proto vlh = (h_proto, vlh)"
| "skip_vlans (Suc n) p h_proto vlh =
    (if \<not> proto_is_vlan h_proto then (h_proto, vlh)
     else if vlh + 4 > length p then (h_proto, vlh)
     else skip_vlans n p (ld16 (vlh + 2) p) (vlh + 4))"

definition parse_ethhdr :: "nat \<Rightarrow> bytes \<Rightarrow> (u16 \<times> nat \<times> nat) option" where
  "parse_ethhdr pos p =
    (if pos + ETH_HLEN > length p then None
     else
       let (h_proto, vlh) = skip_vlans 2 p (ld16 (pos + 12) p) (pos + ETH_HLEN)
       in Some (h_proto, pos, vlh))"

definition parse_iphdr :: "nat \<Rightarrow> bytes \<Rightarrow> (u8 \<times> nat \<times> nat) option" where
  "parse_iphdr pos p =
    (if pos + IP_HLEN > length p then None
     else if drop_bit 4 (ld8 pos p) \<noteq> 4 then None
     else
       let hdrsize = unat (ld8 pos p AND 0xF) * 4
       in if hdrsize < IP_HLEN then None
          else if pos + hdrsize > length p then None
          else Some (ld8 (pos + 9) p, pos, pos + hdrsize))"

definition parse_tcphdr :: "nat \<Rightarrow> bytes \<Rightarrow> (nat \<times> nat \<times> nat) option" where
  "parse_tcphdr pos p =
    (if pos + TCP_HLEN > length p then None
     else
       let len = unat (drop_bit 4 (ld8 (pos + 12) p)) * 4
       in if len < TCP_HLEN then None
          else if pos + len > length p then None
          else Some (len, pos, pos + len))"

definition parse_udphdr :: "nat \<Rightarrow> bytes \<Rightarrow> (nat \<times> nat \<times> nat) option" where
  "parse_udphdr pos p =
    (if pos + 8 > length p then None
     else
       let len = unat (bpf_ntohs (ld16 (pos + 4) p))
       in if len < 8 then None else Some (len - 8, pos, pos + 8))"

definition is_tcp_syn :: "nat \<Rightarrow> bytes \<Rightarrow> bool" where
  "is_tcp_syn tcph p = (tcp_flag SYN tcph p \<and> \<not> tcp_flag ACK tcph p)"

definition is_tcp_syn_ack :: "nat \<Rightarrow> bytes \<Rightarrow> bool" where
  "is_tcp_syn_ack tcph p = (tcp_flag SYN tcph p \<and> tcp_flag ACK tcph p)"

definition is_tcp_rst :: "nat \<Rightarrow> bytes \<Rightarrow> bool" where
  "is_tcp_rst tcph p = tcp_flag RST tcph p"

section \<open>Flag byte\<close>

definition set_tcp_flag :: "nat \<Rightarrow> u16 \<Rightarrow> u16 \<Rightarrow> bytes \<Rightarrow> bytes" where
  "set_tcp_flag tcph len flags p =
    (let p = st8 (tcph + 12) (ld8 (tcph + 12) p AND 0xF0) p;
         p = st8 (tcph + 12) ((ld8 (tcph + 12) p AND 0x0F) OR push_bit 4 (ucast len)) p;
         p = put_tcp_flag FIN (flags AND 0x0100 \<noteq> 0) tcph p;
         p = put_tcp_flag SYN (flags AND 0x0200 \<noteq> 0) tcph p;
         p = put_tcp_flag RST (flags AND 0x0400 \<noteq> 0) tcph p;
         p = put_tcp_flag PSH (flags AND 0x0800 \<noteq> 0) tcph p;
         p = put_tcp_flag ACK (flags AND 0x1000 \<noteq> 0) tcph p;
         p = put_tcp_flag URG (flags AND 0x2000 \<noteq> 0) tcph p;
         p = put_tcp_flag ECE (flags AND 0x4000 \<noteq> 0) tcph p
     in put_tcp_flag CWR (flags AND 0x8000 \<noteq> 0) tcph p)"

end
