(* ===== verification/Inet_Checksum.thy ===== *)
theory Inet_Checksum
  imports Net_Headers
begin

text \<open>
  The Internet checksum, twice: the eBPF routines over an IPv4 header
  (\<open>csum_fold_helper\<close>, \<open>ipv4_csum_inline\<close> of \<open>eBPF/ebpf_utils.h\<close>, \<open>fill_ip_hdr\<close> of
  \<open>eBPF/tcp/common_funcs.h\<close>) and the word-at-a-time routines of the slow path
  (\<open>from32to16\<close> to \<open>tcp_csum\<close> of \<open>common/tran_def/tcp.h\<close>).

  The reference is the sum of the little-endian half-words of a buffer modulo
  65535, which is what one's complement addition computes.
\<close>

section \<open>Header checksum\<close>

definition csum_fold_step :: "u64 \<Rightarrow> u64" where
  "csum_fold_step csum =
    (if drop_bit 16 csum \<noteq> 0 then (csum AND 0xffff) + drop_bit 16 csum else csum)"

definition csum_fold_helper :: "u64 \<Rightarrow> u16" where
  "csum_fold_helper csum = ucast (NOT ((csum_fold_step ^^ 4) csum))"

text \<open>The words of the header are summed from left to right into the initial value \<open>csum\<close>.\<close>

definition sum_words :: "nat \<Rightarrow> nat \<Rightarrow> bytes \<Rightarrow> u64 \<Rightarrow> u64" where
  "sum_words iph n p csum = fold (\<lambda>i acc. acc + ucast (ld16 (iph + 2 * i) p)) [0..<n] csum"

definition ipv4_csum_inline :: "nat \<Rightarrow> bytes \<Rightarrow> u64 \<Rightarrow> u64" where
  "ipv4_csum_inline iph p csum = ucast (csum_fold_helper (sum_words iph (IP_HLEN div 2) p csum))"

text \<open>\<open>fill_ip_hdr\<close> of the TCP programs; \<open>sizeof(struct iphdr) + sizeof(struct tcphdr) + TS_OPT_SIZE\<close> is 52.\<close>

definition ip_hdr_fields :: "nat \<Rightarrow> u32 \<Rightarrow> bool \<Rightarrow> bytes \<Rightarrow> bytes" where
  "ip_hdr_fields iph payload_len ece p =
    (let p = st8 iph ((ld8 iph p AND 0xF0) OR 5) p;
         p = st8 iph ((ld8 iph p AND 0x0F) OR 0x40) p;
         p = st8 (iph + 1) (if ece then IPTOS_ECN_ECT0 else 0) p;
         p = st16 (iph + 2) (bpf_htons (ucast (52 + payload_len))) p;
         p = st16 (iph + 4) (bpf_htons 0) p;
         p = st16 (iph + 6) 0 p;
         p = st8 (iph + 8) 0xff p
     in st8 (iph + 9) IPPROTO_TCP p)"

definition fill_ip_hdr :: "nat \<Rightarrow> u32 \<Rightarrow> bool \<Rightarrow> bytes \<Rightarrow> bytes" where
  "fill_ip_hdr iph payload_len ece p =
    (let p = ip_hdr_fields iph payload_len ece p;
         csum = ipv4_csum_inline iph p 0
     in st16 (iph + 10) (ucast csum) p)"

section \<open>Checksums of the slow path\<close>

definition from32to16 :: "u32 \<Rightarrow> u16" where
  "from32to16 x =
    (let x = (x AND 0xffff) + drop_bit 16 x;
         x = (x AND 0xffff) + drop_bit 16 x
     in ucast x)"

text \<open>The loop over aligned 32-bit words: \<open>n\<close> iterations from offset \<open>pos\<close>.\<close>

fun do_csum_words :: "nat \<Rightarrow> bytes \<Rightarrow> nat \<Rightarrow> u32 \<Rightarrow> u32 \<Rightarrow> u32 \<times> u32" where
  "do_csum_words 0 m pos result carry = (result, carry)"
| "do_csum_words (Suc n) m pos result carry =
    (let w = ld32 pos m;
         result = result + carry;
         result = result + w
     in do_csum_words n m (pos + 4) result (if w > result then 1 else 0))"

text \<open>
  The three parts of \<open>do_csum\<close> for a buffer with at least two bytes left: \<open>addr\<close> is
  the address of the byte at offset \<open>pos\<close>, \<open>len\<close> the number of bytes left.
\<close>

definition do_csum_halves :: "u64 \<Rightarrow> bytes \<Rightarrow> nat \<Rightarrow> nat \<Rightarrow> u32 \<Rightarrow> u32 \<times> nat" where
  "do_csum_halves addr m pos len result =
    (let (result, len, pos) =
           (if addr AND 2 \<noteq> 0 then (result + ucast (ld16 pos m), len - 2, pos + 2) else (result, len, pos));
         (result, pos) =
           (if len \<ge> 4 then
              let (r, carry) = do_csum_words (len div 4) m pos result 0;
                  r = r + carry
              in ((r AND 0xffff) + drop_bit 16 r, pos + 4 * (len div 4))
            else (result, pos))
     in if bit len 1 then (result + ucast (ld16 pos m), pos + 2) else (result, pos))"

definition do_csum :: "u64 \<Rightarrow> bytes \<Rightarrow> int \<Rightarrow> u32" where
  "do_csum addr m len =
    (if len \<le> 0 then 0
     else
       let odd = addr AND 1 \<noteq> 0;
           (result, n, pos) = (if odd then (push_bit 8 (ucast (ld8 0 m)), nat len - 1, 1) else (0, nat len, 0));
           (result, pos) = (if n \<ge> 2 then do_csum_halves (addr + of_nat pos) m pos n result else (result, pos));
           result = (if bit n 0 then result + ucast (ld8 pos m) else result);
           result = ucast (from32to16 result)
       in if odd then (drop_bit 8 result AND 0xff) OR push_bit 8 (result AND 0xff) else result)"

definition ip_fast_csum :: "u64 \<Rightarrow> bytes \<Rightarrow> u32 \<Rightarrow> u16" where
  "ip_fast_csum addr m ihl = ucast (NOT (do_csum addr m (sint (ihl * 4))))"

definition csum_fold :: "u32 \<Rightarrow> u16" where
  "csum_fold csum =
    (let s = (csum AND 0xffff) + drop_bit 16 csum;
         s = (s AND 0xffff) + drop_bit 16 s
     in ucast (NOT s))"

definition from64to32 :: "u64 \<Rightarrow> u32" where
  "from64to32 x =
    (let x = (x AND 0xffffffff) + drop_bit 32 x;
         x = (x AND 0xffffffff) + drop_bit 32 x
     in ucast x)"

definition csum_tcpudp_nofold :: "u32 \<Rightarrow> u32 \<Rightarrow> u32 \<Rightarrow> u8 \<Rightarrow> u32 \<Rightarrow> u32" where
  "csum_tcpudp_nofold saddr daddr len proto csum =
    from64to32 (ucast csum + ucast saddr + ucast daddr + ucast (push_bit 8 (ucast proto + len)))"

definition csum_tcpudp_magic :: "u32 \<Rightarrow> u32 \<Rightarrow> u32 \<Rightarrow> u8 \<Rightarrow> u32 \<Rightarrow> u16" where
  "csum_tcpudp_magic saddr daddr len proto csum = csum_fold (csum_tcpudp_nofold saddr daddr len proto csum)"

definition udp_csum :: "u32 \<Rightarrow> u32 \<Rightarrow> u32 \<Rightarrow> u8 \<Rightarrow> bytes \<Rightarrow> u16" where
  "udp_csum saddr daddr len proto udp_pkt =
    csum_tcpudp_magic saddr daddr len proto
      (fold (\<lambda>i acc. acc + ucast (ld16 (2 * i) udp_pkt)) [0..<(unat len + 1) div 2] 0)"

definition tcp_csum :: "u32 \<Rightarrow> u32 \<Rightarrow> u32 \<Rightarrow> u8 \<Rightarrow> bytes \<Rightarrow> u16" where
  "tcp_csum saddr daddr len proto tcp_pkt =
    csum_tcpudp_magic saddr daddr len proto
      (fold (\<lambda>i acc. acc + (push_bit 8 (ucast (ld8 (2 * i) tcp_pkt)) OR ucast (ld8 (2 * i + 1) tcp_pkt)))
        [0..<(unat len + 1) div 2] 0)"

text \<open>
  The reference: the bytes of a buffer weighted as the low and high halves of
  little-endian 16-bit words, the last byte of an odd buffer being a low half.
\<close>

definition half_sum :: "bytes \<Rightarrow> nat \<Rightarrow> nat \<Rightarrow> nat" where
  "half_sum m pos n = (\<Sum>i<n. unat (ld8 (pos + i) m) * (if even i then 1 else 256))"

section \<open>Folding modulo 65535\<close>

lemma fold16_mod: "(x mod 65536 + x div 65536) mod 65535 = x mod (65535 :: nat)"
proof -
  have "x = x mod 65536 + x div 65536 + 65535 * (x div 65536)"
    using mod_mult_div_eq [of x 65536] by linarith
  then show ?thesis by (metis mod_mult_self2)
qed

lemma unat_fold32:
  fixes x :: u32
  shows "unat ((x AND 0xffff) + drop_bit 16 x) = unat x mod 65536 + unat x div 65536"
proof -
  have a: "x AND 0xffff = take_bit 16 x" by (simp add: take_bit_eq_mask mask_eq_exp_minus_1)
  have l: "unat (take_bit 16 x) = unat x mod 65536"
    by (simp add: unsigned_take_bit_eq take_bit_eq_mod unat_mod)
  have h: "unat (drop_bit 16 x) = unat x div 65536"
    by (simp add: unat_drop_bit_eq drop_bit_eq_div unat_div)
  have "unat x div 65536 < 65536" using unat_lt32 [of x] by (simp add: less_mult_imp_div_less)
  moreover have "unat x mod 65536 < 65536" by simp
  ultimately have "unat x mod 65536 + unat x div 65536 < 2 ^ 32" by simp
  then show ?thesis unfolding a by (subst unat_add_lem [THEN iffD1]) (simp_all add: l h)
qed

lemma unat_csum_fold_step: "unat (csum_fold_step x) = unat x mod 65536 + unat x div 65536"
proof -
  have h: "unat (drop_bit 16 x) = unat x div 65536"
    by (simp add: unat_drop_bit_eq drop_bit_eq_div unat_div)
  show ?thesis
  proof (cases "drop_bit 16 x = 0")
    case True
    then have "unat x div 65536 = 0" using h by simp
    then have "unat x mod 65536 = unat x" by (simp add: div_eq_0_iff)
    with True \<open>unat x div 65536 = 0\<close> show ?thesis by (simp add: csum_fold_step_def)
  next
    case False
    have a: "x AND 0xffff = take_bit 16 x" by (simp add: take_bit_eq_mask mask_eq_exp_minus_1)
    have l: "unat (take_bit 16 x) = unat x mod 65536"
      by (simp add: unsigned_take_bit_eq take_bit_eq_mod unat_mod)
    have "unat x div 65536 < 281474976710656" using unat_lt64 [of x] by (simp add: less_mult_imp_div_less)
    moreover have "unat x mod 65536 < 65536" by simp
    ultimately have "unat x mod 65536 + unat x div 65536 < 2 ^ 64" by simp
    then have "unat (take_bit 16 x + drop_bit 16 x) = unat x mod 65536 + unat x div 65536"
      by (subst unat_add_lem [THEN iffD1]) (simp_all add: l h)
    with False show ?thesis by (simp add: csum_fold_step_def a)
  qed
qed

lemma fold16_small:
  fixes y :: nat
  assumes "y \<le> 131070"
  shows "y mod 65536 + y div 65536 < 65536"
proof (cases "y < 65536")
  case False
  then obtain k where k: "y = k + 65536" "k < 65535" using assms by (intro that [of "y - 65536"]) auto
  then show ?thesis by simp
qed simp

lemma csum_fold_bound:
  fixes x :: nat
  assumes "x < 2 ^ 32"
    and f_def: "f = (\<lambda>x :: nat. x mod 65536 + x div 65536)"
  shows "f (f (f (f x))) < 65536" "f (f (f (f x))) mod 65535 = x mod 65535" "f (f (f (f x))) = 0 \<longleftrightarrow> x = 0"
proof -
  have m: "f y mod 65535 = y mod 65535" for y unfolding f_def by (rule fold16_mod)
  have z: "f y = 0 \<longleftrightarrow> y = 0" for y
    unfolding f_def using mod_mult_div_eq [of y 65536] by auto
  have le: "f y \<le> y" for y unfolding f_def using mod_mult_div_eq [of y 65536] by linarith
  have "x div 65536 \<le> 65535" using assms by (simp add: less_mult_imp_div_less less_Suc_eq_le [symmetric])
  then have "f x \<le> 131070" unfolding f_def using mod_less_divisor [of 65536 x] by linarith
  then have "f (f x) < 65536"
    using fold16_small [of "f x"] by (simp add: f_def)
  then show "f (f (f (f x))) < 65536" using le [of "f (f x)"] le [of "f (f (f x))"] by linarith
  show "f (f (f (f x))) mod 65535 = x mod 65535" by (simp add: m)
  show "f (f (f (f x))) = 0 \<longleftrightarrow> x = 0" by (simp add: z)
qed

lemma funpow_4: "(g ^^ 4) x = g (g (g (g x)))"
  by (simp add: numeral_eq_Suc)

lemma csum_fold_steps:
  assumes "unat x < 2 ^ 32"
  shows "unat ((csum_fold_step ^^ 4) x) < 65536"
    "unat ((csum_fold_step ^^ 4) x) mod 65535 = unat x mod 65535"
    "unat ((csum_fold_step ^^ 4) x) = 0 \<longleftrightarrow> unat x = 0"
  using csum_fold_bound [OF assms refl] by (simp_all only: unat_csum_fold_step funpow_4)

lemma unat_not16: "unat (NOT (z :: u16)) = 65535 - unat z"
proof -
  have "NOT z = -1 - z" by (simp add: not_eq_complement)
  moreover have "unat z \<le> 65535" using unat_lt16 [of z] by simp
  ultimately show ?thesis by (simp add: unat_sub_if' unsigned_minus_1_eq_mask mask_eq_exp_minus_1)
qed

lemma unat_csum_fold_helper:
  assumes "unat x < 2 ^ 32"
  shows "unat (csum_fold_helper x) = 65535 - unat ((csum_fold_step ^^ 4) x)"
proof -
  let ?y = "(csum_fold_step ^^ 4) x"
  have "ucast (NOT ?y) = (NOT (ucast ?y) :: u16)"
    by (rule bit_eqI) (simp add: bit_simps)
  moreover have "unat (ucast ?y :: u16) = unat ?y"
    using csum_fold_steps(1) [OF assms] by (simp add: unsigned_ucast_eq take_bit_eq_mod)
  ultimately show ?thesis by (simp add: csum_fold_helper_def unat_not16)
qed

section \<open>The IPv4 header checksum\<close>

lemma unat_sum_words:
  assumes "n \<le> 1000"
  shows "unat (sum_words iph n p 0) = (\<Sum>i<n. unat (ld16 (iph + 2 * i) p)) \<and> (\<Sum>i<n. unat (ld16 (iph + 2 * i) p)) \<le> 65535 * n"
  using assms
proof (induction n)
  case 0
  then show ?case by (simp add: sum_words_def)
next
  case (Suc n)
  then have IH: "unat (sum_words iph n p 0) = (\<Sum>i<n. unat (ld16 (iph + 2 * i) p))"
    "(\<Sum>i<n. unat (ld16 (iph + 2 * i) p)) \<le> 65535 * n" by simp_all
  have w: "unat (ucast (ld16 (iph + 2 * n) p) :: u64) = unat (ld16 (iph + 2 * n) p)"
    using unat_lt16 [of "ld16 (iph + 2 * n) p"] by (simp add: unsigned_ucast_eq take_bit_nat_eq_self)
  have le: "unat (ld16 (iph + 2 * n) p) \<le> 65535"
    using unat_lt16 [of "ld16 (iph + 2 * n) p"] by simp
  have s: "sum_words iph (Suc n) p 0 = sum_words iph n p 0 + ucast (ld16 (iph + 2 * n) p)"
    by (simp add: sum_words_def)
  have "unat (sum_words iph n p 0) + unat (ucast (ld16 (iph + 2 * n) p) :: u64) < 2 ^ 64"
    using IH w le Suc.prems by simp
  then have "unat (sum_words iph (Suc n) p 0) = unat (sum_words iph n p 0) + unat (ld16 (iph + 2 * n) p)"
    unfolding s by (subst unat_add_lem [THEN iffD1]) (simp_all add: w)
  then show ?case using IH le by simp
qed

lemma header_sum_split:
  assumes "iph + 20 \<le> length p"
  shows "(\<Sum>i<10. unat (ld16 (iph + 2 * i) (st16 (iph + 10) v p))) + unat (ld16 (iph + 10) p)
    = (\<Sum>i<10. unat (ld16 (iph + 2 * i) p)) + unat v"
  using assms by (simp add: lessThan_nat_numeral lessThan_Suc mem_simps)

lemma checksum_arith:
  fixes R k y :: nat
  assumes y: "y < 65536" "y mod 65535 = (R + k) mod 65535" and k: "k < 65536"
  shows "(R + (65535 - y)) mod 65535 = 0 \<longleftrightarrow> k = 0 \<or> k = 65535"
proof -
  have im: "int n mod 65535 = int (n mod 65535)" for n by (simp add: zmod_int)
  have eq: "int (R + (65535 - y)) = (int R - int y) + 65535" using y(1) by simp
  have "(R + (65535 - y)) mod 65535 = 0 \<longleftrightarrow> ((int R - int y) + 65535) mod 65535 = 0"
    unfolding eq [symmetric] im by simp
  also have "\<dots> \<longleftrightarrow> 65535 dvd (int R - int y)" by (simp add: dvd_eq_mod_eq_0)
  also have "\<dots> \<longleftrightarrow> int R mod 65535 = int y mod 65535" by (simp add: mod_eq_dvd_iff)
  also have "int y mod 65535 = int (R + k) mod 65535" unfolding im y(2) ..
  also have "int R mod 65535 = int (R + k) mod 65535 \<longleftrightarrow> 65535 dvd int k" by (simp add: mod_eq_dvd_iff)
  also have "\<dots> \<longleftrightarrow> k mod 65535 = 0" unfolding dvd_eq_mod_eq_0 im by simp
  also have "\<dots> \<longleftrightarrow> k = 0 \<or> k = 65535"
  proof (cases "k < 65535")
    case False
    then have "k = 65535" using k by linarith
    then show ?thesis by simp
  qed simp
  finally show ?thesis .
qed

lemma ip_hdr_fields_simps [simp]:
  "length (ip_hdr_fields iph n ece p) = length p"
  "ld16 (iph + 10) (ip_hdr_fields iph n ece p) = ld16 (iph + 10) p"
  by (simp_all add: ip_hdr_fields_def Let_def mem_simps)

lemma ip_hdr_first_byte:
  assumes "iph < length p"
  shows "ld8 iph (ip_hdr_fields iph n ece p) = 0x45"
proof -
  have "((x AND 0xF0) OR 5) AND 0x0F OR 0x40 = (0x45 :: u8)" for x
    by (rule bit_eqI) (auto simp: bit_simps bit_numeral_rec less_Suc_eq numeral_eq_Suc)
  then show ?thesis using assms by (simp add: ip_hdr_fields_def Let_def mem_simps)
qed

lemma ucast_16_64 [simp]: "ucast (ucast (c :: u16) :: u64) = c"
  by (rule bit_eqI) (simp add: bit_simps)

lemma fold_zero_iff:
  assumes "unat x < 2 ^ 32" "0 < unat x"
  shows "csum_fold_helper x = 0 \<longleftrightarrow> unat x mod 65535 = 0"
proof -
  let ?y = "unat ((csum_fold_step ^^ 4) x)"
  note y = csum_fold_steps [OF assms(1)]
  have "csum_fold_helper x = 0 \<longleftrightarrow> unat (csum_fold_helper x) = 0"
    by (simp add: unsigned_eq_0_iff)
  also have "\<dots> \<longleftrightarrow> ?y = 65535" using y(1) unfolding unat_csum_fold_helper [OF assms(1)] by linarith
  also have "\<dots> \<longleftrightarrow> ?y mod 65535 = 0"
  proof (cases "?y < 65535")
    case True
    then have "?y mod 65535 = ?y" by simp
    then show ?thesis using True y(3) assms(2) by linarith
  next
    case False
    then have "?y = 65535" using y(1) by linarith
    then show ?thesis by simp
  qed
  finally show ?thesis using y(2) by simp
qed

lemma ip_hdr_first_word:
  assumes "iph < length p"
  shows "0 < unat (ld16 iph (ip_hdr_fields iph n ece p))"
proof -
  have "bit (ld16 iph (ip_hdr_fields iph n ece p)) 0"
    using ip_hdr_first_byte [OF assms, of n ece] by (simp add: ld16_def bit_simps)
  then have "ld16 iph (ip_hdr_fields iph n ece p) \<noteq> 0" by (metis bit_0_eq bot_apply bot_bool_def)
  then show ?thesis by (simp add: unsigned_eq_0_iff neq0_conv [symmetric] del: neq0_conv)
qed

section \<open>The word-at-a-time checksum against the reference\<close>

lemma unat_lt8: "unat (x::u8) < 256"
  using unsigned_less [of x] by simp

lemma unat_ld16: "unat (ld16 p m) = unat (ld8 p m) + 256 * unat (ld8 (p + 1) m)"
proof -
  let ?a = "ld8 p m" and ?b = "ld8 (p + 1) m"
  have la: "unat ?a < 256" "unat ?b < 256" by (rule unat_lt8)+
  have ua: "unat (ucast ?a :: u16) = unat ?a" using la by (simp add: unsigned_ucast_eq take_bit_nat_eq_self)
  have ub: "unat (push_bit 8 (ucast ?b) :: u16) = 256 * unat ?b"
    using la by (simp add: unat_word_ariths unsigned_ucast_eq take_bit_nat_eq_self push_bit_eq_mult)
  have "ld16 p m = ucast ?a + push_bit 8 (ucast ?b)"
    unfolding ld16_def by (rule disjunctive_add [symmetric]) (auto simp: bit_simps dest: bit_imp_le_length)
  moreover have "unat (ucast ?a :: u16) + unat (push_bit 8 (ucast ?b) :: u16) < 2 ^ 16"
    using la unfolding ua ub by simp
  ultimately show ?thesis using ua ub unat_add_lem [of "ucast ?a :: u16" "push_bit 8 (ucast ?b)"] by simp
qed

lemma unat_ld32: "unat (ld32 p m) = unat (ld16 p m) + 65536 * unat (ld16 (p + 2) m)"
proof -
  let ?a = "ld16 p m" and ?b = "ld16 (p + 2) m"
  have la: "unat ?a < 65536" "unat ?b < 65536" by (rule unat_lt16)+
  have ua: "unat (ucast ?a :: u32) = unat ?a" using la by (simp add: unsigned_ucast_eq take_bit_nat_eq_self)
  have ub: "unat (push_bit 16 (ucast ?b) :: u32) = 65536 * unat ?b"
    using la by (simp add: unat_word_ariths unsigned_ucast_eq take_bit_nat_eq_self push_bit_eq_mult)
  have "ld32 p m = ucast ?a + push_bit 16 (ucast ?b)"
    unfolding ld32_def by (rule disjunctive_add [symmetric]) (auto simp: bit_simps dest: bit_imp_le_length)
  moreover have "unat (ucast ?a :: u32) + unat (push_bit 16 (ucast ?b) :: u32) < 2 ^ 32"
    using la unfolding ua ub by simp
  ultimately show ?thesis using ua ub unat_add_lem [of "ucast ?a :: u32" "push_bit 16 (ucast ?b)"] by simp
qed

lemma half_sum_append: "even n \<Longrightarrow> half_sum m pos (n + k) = half_sum m pos n + half_sum m (pos + n) k"
  by (induction k) (simp_all add: half_sum_def add.assoc)

lemma half_sum_2: "half_sum m pos 2 = unat (ld16 pos m)"
  by (simp add: half_sum_def numeral_2_eq_2 unat_ld16)

lemma half_sum_4: "half_sum m pos 4 = unat (ld16 pos m) + unat (ld16 (pos + 2) m)"
  using half_sum_append [of 2 m pos 2] by (simp add: half_sum_2)

lemma ld32_mod: "unat (ld32 pos m) mod 65535 = half_sum m pos 4 mod 65535"
proof -
  have "unat (ld32 pos m) = half_sum m pos 4 + 65535 * unat (ld16 (pos + 2) m)"
    by (simp add: unat_ld32 half_sum_4)
  then show ?thesis by simp
qed

lemma carry_mod: "(x + 4294967296 * k) mod 65535 = (x + k) mod (65535 :: nat)"
proof -
  have "x + 4294967296 * k = (x + k) + 65535 * (65537 * k)" by simp
  then show ?thesis by (metis mod_mult_self2)
qed

lemma carry_add:
  fixes r w :: u32
  shows "unat (r + w) + (if w > r + w then 4294967296 else 0) = unat r + unat w"
    and "w > r + w \<Longrightarrow> unat (r + w) < 4294967295"
  using unat_lt32 [of r] unat_lt32 [of w] by (auto simp: seq_nat split: if_splits)

lemma do_csum_words_sum:
  assumes "do_csum_words n m pos r c = (r', c')" "unat r + unat c < 2 ^ 32" "c \<le> 1"
  shows "unat r' + unat c' < 2 ^ 32 \<and> c' \<le> 1
    \<and> (unat r' + unat c') mod 65535 = (unat r + unat c + half_sum m pos (4 * n)) mod 65535"
  using assms
proof (induction n arbitrary: pos r c)
  case 0
  then show ?case by (simp add: half_sum_def)
next
  case (Suc n)
  let ?w = "ld32 pos m" and ?r1 = "r + c"
  let ?c2 = "if ?w > ?r1 + ?w then 1 else 0 :: u32"
  have r1: "unat ?r1 = unat r + unat c" using Suc.prems(2) by (simp add: unat_add_lem [THEN iffD1])
  have c2: "unat (?r1 + ?w) + 4294967296 * unat ?c2 = unat r + unat c + unat ?w"
    using carry_add(1) [of ?r1 ?w] r1 by (simp split: if_splits)
  have "unat (?r1 + ?w) + unat ?c2 < 2 ^ 32"
    using carry_add(2) [where r = ?r1 and w = ?w] unat_lt32 [of "?r1 + ?w"] by (simp split: if_splits)
  then have IH: "unat r' + unat c' < 2 ^ 32 \<and> c' \<le> 1 \<and>
      (unat r' + unat c') mod 65535 = (unat (?r1 + ?w) + unat ?c2 + half_sum m (pos + 4) (4 * n)) mod 65535"
    using Suc.IH [of "pos + 4" "?r1 + ?w" ?c2] Suc.prems(1) by (simp add: Let_def)
  have "(unat (?r1 + ?w) + unat ?c2) mod 65535 = (unat (?r1 + ?w) + 4294967296 * unat ?c2) mod 65535"
    by (rule carry_mod [symmetric])
  also have "\<dots> = (unat r + unat c + half_sum m pos 4) mod 65535"
    unfolding c2 using ld32_mod [of pos m] by (metis mod_add_right_eq)
  finally have "(unat r' + unat c') mod 65535
      = (unat r + unat c + half_sum m pos 4 + half_sum m (pos + 4) (4 * n)) mod 65535"
    using IH by (metis mod_add_left_eq)
  then show ?case using IH half_sum_append [of 4 m pos "4 * n"] by (simp add: add.assoc)
qed

lemma unat_add_small:
  fixes a b :: u32
  assumes "unat a + unat b < 2 ^ 32"
  shows "unat (a + b) = unat a + unat b"
  using assms by (simp add: unat_add_lem [THEN iffD1])

lemma unat_ucast_8_32 [simp]: "unat (ucast (x :: u8) :: u32) = unat x"
  using unat_lt8 [of x] by (simp add: unsigned_ucast_eq take_bit_nat_eq_self)

lemma add_half:
  fixes r :: u32
  assumes "unat r < 2 ^ 24" "unat r mod 65535 = S mod 65535"
  shows "unat (r + ucast (ld16 pos m)) \<le> unat r + 65535"
    "unat (r + ucast (ld16 pos m)) mod 65535 = (S + half_sum m pos 2) mod 65535"
proof -
  have "unat (ld16 pos m) \<le> 65535" using unat_lt16 [of "ld16 pos m"] by simp
  moreover from this have "unat (r + ucast (ld16 pos m)) = unat r + unat (ld16 pos m)"
    using assms by (subst unat_add_small) simp_all
  ultimately show "unat (r + ucast (ld16 pos m)) \<le> unat r + 65535"
    "unat (r + ucast (ld16 pos m)) mod 65535 = (S + half_sum m pos 2) mod 65535"
    using assms(2) unfolding half_sum_2 by (simp, metis mod_add_left_eq)
qed

lemma words_fold:
  assumes "unat r < 2 ^ 24" "do_csum_words n m pos r 0 = (r', c')"
  shows "unat (((r' + c') AND 0xffff) + drop_bit 16 (r' + c')) \<le> 131070"
    "unat (((r' + c') AND 0xffff) + drop_bit 16 (r' + c')) mod 65535 = (unat r + half_sum m pos (4 * n)) mod 65535"
proof -
  have w: "unat r' + unat c' < 2 ^ 32" "(unat r' + unat c') mod 65535 = (unat r + half_sum m pos (4 * n)) mod 65535"
    using do_csum_words_sum [OF assms(2)] assms(1) by simp_all
  have u: "unat (r' + c') = unat r' + unat c'" by (rule unat_add_small [OF w(1)])
  have "unat (r' + c') mod 65536 \<le> 65535" using mod_less_divisor [of 65536 "unat (r' + c')"] by linarith
  moreover have "unat (r' + c') div 65536 \<le> 65535"
    using unat_lt32 [of "r' + c'"] by (simp add: less_mult_imp_div_less less_Suc_eq_le [symmetric])
  ultimately show "unat (((r' + c') AND 0xffff) + drop_bit 16 (r' + c')) \<le> 131070"
    unfolding unat_fold32 by linarith
  show "unat (((r' + c') AND 0xffff) + drop_bit 16 (r' + c')) mod 65535 = (unat r + half_sum m pos (4 * n)) mod 65535"
    unfolding unat_fold32 fold16_mod u w(2) ..
qed

lemma bit_1_nat: "bit (n :: nat) 1 \<longleftrightarrow> odd (n div 2)"
  by (simp add: bit_iff_odd)

lemma half_split:
  fixes len :: nat
  shows "2 * (len div 2) = 4 * (len div 4) + (if bit len 1 then 2 else 0)"
  unfolding bit_1_nat by presburger

lemma half_sum_0 [simp]: "half_sum m pos 0 = 0"
  by (simp add: half_sum_def)

lemma do_csum_halves_sum:
  fixes r :: u32
  assumes "do_csum_halves addr m pos len r = (r', pos')" "unat r \<le> 65280" "2 \<le> len"
  shows "pos' = pos + 2 * (len div 2) \<and> unat r' \<le> 300000
    \<and> unat r' mod 65535 = (unat r + half_sum m pos (2 * (len div 2))) mod 65535"
proof -
  define lead where "lead = (addr AND 2 \<noteq> 0)"
  define r1 where "r1 = (if lead then r + ucast (ld16 pos m) else r)"
  define n1 where "n1 = (if lead then len - 2 else len)"
  define p1 where "p1 = (if lead then pos + 2 else pos)"
  obtain rw cw where w: "do_csum_words (n1 div 4) m p1 r1 0 = (rw, cw)" by fastforce
  define r2 where "r2 = (if n1 \<ge> 4 then ((rw + cw) AND 0xffff) + drop_bit 16 (rw + cw) else r1)"
  have res: "r' = (if bit n1 1 then r2 + ucast (ld16 (p1 + 4 * (n1 div 4)) m) else r2)"
    "pos' = p1 + 4 * (n1 div 4) + (if bit n1 1 then 2 else 0)"
    using assms(1) w
    by (auto simp: do_csum_halves_def Let_def lead_def r1_def n1_def p1_def r2_def split: if_splits)
  have r1: "unat r1 \<le> 130815" "unat r1 mod 65535 = (unat r + half_sum m pos (p1 - pos)) mod 65535"
    using add_half [of r "unat r" pos m] assms(2) by (auto simp: r1_def p1_def half_sum_def)
  have r2: "unat r2 \<le> 131070"
    "unat r2 mod 65535 = (unat r + half_sum m pos (p1 - pos) + half_sum m p1 (4 * (n1 div 4))) mod 65535"
    using words_fold [OF _ w] r1 mod_add_cong [OF r1(2) refl]
    by (auto simp: r2_def half_sum_def) 
  have "unat r' \<le> 300000"
    "unat r' mod 65535 = (unat r + half_sum m pos (p1 - pos) + half_sum m p1 (4 * (n1 div 4) + (if bit n1 1 then 2 else 0))) mod 65535"
    using add_half [OF _ r2(2), of "p1 + 4 * (n1 div 4)" m] r2
    by (auto simp: res(1) half_sum_append add.assoc)
  moreover have len2: "2 * (len div 2) = 2 + 2 * ((len - 2) div 2)" using assms(3) by presburger
  moreover have "half_sum m pos (p1 - pos) + half_sum m p1 (2 * (n1 div 2)) = half_sum m pos (2 * (len div 2))"
    using half_sum_append [of 2 m pos "2 * ((len - 2) div 2)"] len2
    by (cases lead) (simp_all add: p1_def n1_def)
  moreover have "pos' = pos + 2 * (len div 2)"
    using half_split [of n1] len2 unfolding res(2) by (cases lead) (simp_all add: p1_def n1_def)
  ultimately show ?thesis using half_split [of n1] by (simp add: add.assoc)
qed

lemma unat_from32to16:
  "unat (from32to16 x) mod 65535 = unat x mod 65535"
proof -
  let ?f = "\<lambda>x :: u32. (x AND 0xffff) + drop_bit 16 x"
  have d: "unat x div 65536 \<le> 65535"
    using unat_lt32 [of x] by (simp add: less_mult_imp_div_less less_Suc_eq_le [symmetric])
  have m: "unat x mod 65536 \<le> 65535" using mod_less_divisor [of 65536 "unat x"] by linarith
  have "unat (?f x) \<le> 131070" unfolding unat_fold32 using d m by linarith
  then have "unat (?f (?f x)) < 65536" unfolding unat_fold32 [of "?f x"] by (rule fold16_small)
  then have "unat (ucast (?f (?f x)) :: u16) = unat (?f (?f x))"
    by (simp add: unsigned_ucast_eq take_bit_nat_eq_self)
  then show ?thesis by (simp only: from32to16_def Let_def unat_fold32 fold16_mod)
qed

lemma byte_swap_mod:
  fixes y :: u16
  defines "x \<equiv> ucast y :: u32"
  shows "unat ((drop_bit 8 x AND 0xff) OR push_bit 8 (x AND 0xff)) mod 65535 = 256 * unat y mod 65535"
proof -
  have ux: "unat x = unat y" unfolding x_def by simp
  have "(drop_bit 8 x AND 0xff) OR push_bit 8 (x AND 0xff) = drop_bit 8 x + push_bit 8 (take_bit 8 x)"
  proof -
    have "drop_bit 8 x AND 0xff = take_bit 8 (drop_bit 8 x)" by (simp add: take_bit_eq_mask mask_eq_exp_minus_1)
    moreover have "take_bit 8 (drop_bit 8 x) = drop_bit 8 x"
      unfolding x_def by (rule bit_eqI) (auto simp: bit_simps dest: bit_imp_le_length)
    moreover have "x AND 0xff = take_bit 8 x" by (simp add: take_bit_eq_mask mask_eq_exp_minus_1)
    moreover have "drop_bit 8 x OR push_bit 8 (take_bit 8 x) = drop_bit 8 x + push_bit 8 (take_bit 8 x)"
      unfolding x_def by (rule disjunctive_add [symmetric]) (auto simp: bit_simps dest: bit_imp_le_length)
    ultimately show ?thesis by simp
  qed
  moreover have h: "unat (drop_bit 8 x) = unat y div 256"
    unfolding ux [symmetric] by (simp add: unat_drop_bit_eq drop_bit_eq_div unat_div)
  moreover have l: "unat (push_bit 8 (take_bit 8 x)) = 256 * (unat y mod 256)"
  proof -
    have "unat (take_bit 8 x) = unat y mod 256"
      unfolding ux [symmetric] by (simp add: unsigned_take_bit_eq take_bit_eq_mod unat_mod)
    moreover have "unat y mod 256 < 256" by simp
    ultimately show ?thesis by (simp add: push_bit_eq_mult unat_word_ariths del: mod_less_divisor)
  qed
  moreover have "unat y div 256 < 256" using unat_lt16 [of y] by (simp add: less_mult_imp_div_less)
  moreover have "unat y mod 256 < 256" by simp
  ultimately have "unat ((drop_bit 8 x AND 0xff) OR push_bit 8 (x AND 0xff)) = unat y div 256 + 256 * (unat y mod 256)"
    using unat_add_small [of "drop_bit 8 x" "push_bit 8 (take_bit 8 x)"] by simp
  moreover have "256 * unat y = unat y div 256 + 256 * (unat y mod 256) + 65535 * (unat y div 256)"
    using mod_mult_div_eq [of "unat y" 256] by linarith
  ultimately show ?thesis by (metis mod_mult_self2)
qed

lemma weight_mod: "(s + b * 65536) mod 65535 = (s + b) mod (65535 :: nat)"
proof -
  have "s + b * 65536 = (s + b) + 65535 * b" by simp
  then show ?thesis by (metis mod_mult_self2)
qed

lemma half_sum_Suc: "half_sum m pos (Suc n) = half_sum m pos n + unat (ld8 (pos + n) m) * (if even n then 1 else 256)"
  by (simp add: half_sum_def)

lemma half_sum_shift:
  "(unat (ld8 pos m) + 256 * half_sum m (pos + 1) n) mod 65535 = half_sum m pos (Suc n) mod 65535"
proof (induction n)
  case 0
  then show ?case by (simp add: half_sum_def)
next
  case (Suc n)
  let ?b = "unat (ld8 (pos + Suc n) m)" and ?s = "unat (ld8 pos m) + 256 * half_sum m (pos + 1) n"
  have eq: "unat (ld8 pos m) + 256 * half_sum m (pos + 1) (Suc n)
     = ?s + (if even n then ?b * 256 else ?b * 65536)"
    by (simp add: half_sum_Suc)
  have "(?s + (if even n then ?b * 256 else ?b * 65536)) mod 65535
      = (?s + (if even n then ?b * 256 else ?b)) mod 65535"
    by (simp add: weight_mod del: mult_Suc_right)
  also have "\<dots> = (half_sum m pos (Suc n) + (if even n then ?b * 256 else ?b)) mod 65535"
    by (rule mod_add_cong [OF Suc.IH refl])
  also have "half_sum m pos (Suc n) + (if even n then ?b * 256 else ?b) = half_sum m pos (Suc (Suc n))"
    by (simp add: half_sum_Suc [of m pos "Suc n"])
  finally show ?case unfolding eq .
qed

lemma tail_byte:
  fixes r r' :: u32
  assumes le: "unat r \<le> 300000" and r: "unat r mod 65535 = (s + half_sum m p (2 * (n div 2))) mod 65535"
    and r': "r' = (if bit n 0 then r + ucast (ld8 (p + 2 * (n div 2)) m) else r)"
  shows "unat r' mod 65535 = (s + half_sum m p n) mod 65535"
proof (cases "even n")
  case True
  then have "2 * (n div 2) = n" "r' = r" by (simp_all add: r' bit_0)
  then show ?thesis using r by (simp only:)
next
  case False
  then obtain k where k: "n = Suc (2 * k)" by (auto elim: oddE)
  let ?b = "ld8 (p + 2 * k) m"
  have d: "n div 2 = k" using k by simp
  have "unat r' = unat r + unat ?b"
    using False le unat_lt8 [of ?b] unat_add_small [of r "ucast ?b"] by (simp add: r' d bit_0)
  moreover have "(unat r + unat ?b) mod 65535 = (s + half_sum m p (2 * k) + unat ?b) mod 65535"
    using r unfolding d by (intro mod_add_cong) simp_all
  moreover have "half_sum m p n = half_sum m p (2 * k) + unat ?b"
    unfolding k half_sum_Suc by simp
  ultimately show ?thesis by (simp only: add.assoc)
qed

lemma do_csum_sum:
  assumes "0 < len"
  shows "unat (do_csum addr m len) mod 65535 = half_sum m 0 (nat len) mod 65535"
proof -
  define odd1 where "odd1 = (addr AND 1 \<noteq> 0)"
  define r0 :: u32 where "r0 = (if odd1 then push_bit 8 (ucast (ld8 0 m)) else 0)"
  define n where "n = (if odd1 then nat len - 1 else nat len)"
  define p where "p = (if odd1 then 1 else 0 :: nat)"
  obtain r1 p1 where h: "(if n \<ge> 2 then do_csum_halves (addr + of_nat p) m p n r0 else (r0, p)) = (r1, p1)"
    by fastforce
  define r2 where "r2 = (if bit n 0 then r1 + ucast (ld8 p1 m) else r1)"
  have res: "do_csum addr m len = (let x = ucast (from32to16 r2) :: u32
      in if odd1 then (drop_bit 8 x AND 0xff) OR push_bit 8 (x AND 0xff) else x)"
    using assms h unfolding do_csum_def Let_def odd1_def [symmetric] r2_def r0_def n_def p_def
    by (simp split: prod.splits if_splits)
  have b0: "unat r0 = (if odd1 then 256 * unat (ld8 0 m) else 0)" "unat r0 \<le> 65280"
    using unat_lt8 [of "ld8 0 m"] by (auto simp: r0_def push_bit_eq_mult unat_word_ariths)
  have p1: "p1 = p + 2 * (n div 2)" "unat r1 \<le> 300000"
      "unat r1 mod 65535 = (unat r0 + half_sum m p (2 * (n div 2))) mod 65535"
    using do_csum_halves_sum [of "addr + of_nat p" m p n r0 r1 p1] h b0 by (cases "n \<ge> 2"; auto)+
  have "unat r2 mod 65535 = (unat r0 + half_sum m p n) mod 65535"
    by (rule tail_byte [OF p1(2,3)]) (simp only: r2_def p1(1))
  then have r2: "unat (from32to16 r2) mod 65535 = (unat r0 + half_sum m p n) mod 65535"
    by (simp only: unat_from32to16)
  show ?thesis
  proof (cases odd1)
    case False
    then show ?thesis using r2 b0 by (simp add: res p_def n_def)
  next
    case True
    have "unat (do_csum addr m len) mod 65535 = 256 * unat (from32to16 r2) mod 65535"
      using True byte_swap_mod by (simp add: res Let_def)
    also have "\<dots> = 256 * (256 * unat (ld8 0 m) + half_sum m 1 n) mod 65535"
      using True r2 b0 by (intro mod_mult_cong) (simp_all add: p_def)
    also have "256 * (256 * unat (ld8 0 m) + half_sum m 1 n) = 256 * half_sum m 1 n + unat (ld8 0 m) * 65536"
      by simp
    also have "\<dots> mod 65535 = half_sum m 0 (Suc n) mod 65535"
      using half_sum_shift [of 0 m n] unfolding weight_mod by (simp add: add.commute)
    also have "Suc n = nat len" using True assms by (simp add: n_def)
    finally show ?thesis .
  qed
qed

section \<open>Properties\<close>

text \<open>The IPv4 header that \<open>fill_ip_hdr\<close> leaves behind verifies (its half-words, the
  checksum included, fold to all ones) exactly when the checksum field was zero, or all ones,
  before the call; the routine sums over the old contents of that field.\<close>

theorem fill_ip_hdr_checksum:
  assumes "iph + 20 \<le> length p"
  shows "csum_fold_helper (sum_words iph 10 (fill_ip_hdr iph n ece p) 0) = 0
    \<longleftrightarrow> ld16 (iph + 10) p = 0 \<or> ld16 (iph + 10) p = 0xffff"
proof -
  let ?q = "ip_hdr_fields iph n ece p"
  let ?k = "unat (ld16 (iph + 10) p)" and ?T = "\<Sum>i<10. unat (ld16 (iph + 2 * i) ?q)"
  let ?c = "csum_fold_helper (sum_words iph 10 ?q 0)"
  let ?y = "unat ((csum_fold_step ^^ 4) (sum_words iph 10 ?q 0))"
  let ?q' = "fill_ip_hdr iph n ece p"
  have T: "unat (sum_words iph 10 ?q 0) = ?T" "?T \<le> 655350" using unat_sum_words [of 10 iph ?q] by simp_all
  have T32: "unat (sum_words iph 10 ?q 0) < 2 ^ 32" using T by simp
  have c: "unat ?c = 65535 - ?y" by (rule unat_csum_fold_helper [OF T32])
  have q': "?q' = st16 (iph + 10) ?c ?q"
    by (simp add: fill_ip_hdr_def ipv4_csum_inline_def Let_def)
  have "unat (ld16 (iph + 2 * 0) ?q) + unat (ld16 (iph + 2 * 5) ?q) \<le> ?T"
    by (simp add: lessThan_nat_numeral lessThan_Suc)
  moreover have "0 < unat (ld16 iph ?q)" using assms by (intro ip_hdr_first_word) simp
  ultimately have k: "?k < ?T" by simp
  define R where "R = ?T - ?k"
  have S: "unat (sum_words iph 10 ?q' 0) = R + (65535 - ?y)"
    using header_sum_split [of iph ?q ?c] assms k c unat_sum_words [of 10 iph ?q']
    unfolding q' R_def by simp
  have lt: "unat (sum_words iph 10 ?q' 0) < 2 ^ 32" "0 < unat (sum_words iph 10 ?q' 0)"
    using T k unfolding S R_def by simp_all
  have "?y mod 65535 = (R + ?k) mod 65535" using csum_fold_steps(2) [OF T32] T k unfolding R_def by simp
  then have "(R + (65535 - ?y)) mod 65535 = 0 \<longleftrightarrow> ?k = 0 \<or> ?k = 65535"
    using csum_fold_steps(1) [OF T32] unat_lt16 by (intro checksum_arith)
  moreover have "?k = 65535 \<longleftrightarrow> ld16 (iph + 10) p = 0xffff" by (simp add: word_unat_eq_iff)
  ultimately show ?thesis
    unfolding fold_zero_iff [OF lt] S by (simp add: unsigned_eq_0_iff)
qed

theorem fill_ip_hdr_checksum_witness:
  "csum_fold_helper (sum_words 14 10 (fill_ip_hdr 14 100 True (replicate 80 0)) 0) = 0"
  using fill_ip_hdr_checksum [of 14 "replicate 80 0" 100 True]
  by (simp add: ld16_def ld8_def nth_default_def)

text \<open>C29: the word-at-a-time checksum of the slow path, with its alignment prologue, carry
  loop, tail and final byte swap, agrees modulo 65535 with the plain sum of the half-words of
  the buffer, for every address alignment and every length.\<close>

theorem do_csum_is_reference:
  assumes "0 < len"
  shows "unat (do_csum addr m len) mod 65535 = half_sum m 0 (nat len) mod 65535"
  using assms by (rule do_csum_sum)

theorem do_csum_is_reference_witness:
  "unat (do_csum 1 [1, 2, 3, 4, 5, 6, 7] 7) mod 65535 = half_sum [1, 2, 3, 4, 5, 6, 7] 0 7 mod 65535"
  using do_csum_is_reference [of 7 1 "[1, 2, 3, 4, 5, 6, 7]"] by simp

end
