(* ===== verification/Tcp_Headers.thy ===== *)
theory Tcp_Headers
  imports Tcp_State Net_Headers Inet_Checksum
begin

text \<open>
  Building and reading TCP headers: \<open>fill_tcp_hdr\<close> (\<open>eBPF/tcp/tcp.h\<close>),
  \<open>mtp_fill_tcp_hdr\<close> and \<open>parse_pkt_to_event\<close> (\<open>eBPF/tcp/mtp_tcp.h\<close>).  The lemmas
  show which fields survive the trip through a packet and which do not.
\<close>

section \<open>Definitions\<close>

text \<open>
  \<open>TCPI_OPT_TIMESTAMPS\<close> is 1, and the packed option struct has 10 bytes, so
  \<open>sizeof(*ts_opt) / 4\<close> is 2.  The data offset is \<open>5 + TS_OPT_SIZE / 4\<close>.
\<close>

definition put_ts_opt :: "nat \<Rightarrow> u32 \<Rightarrow> u32 \<Rightarrow> bytes \<Rightarrow> bytes" where
  "put_ts_opt ts_opt ts_val ts_ecr p =
    (let p = st8 ts_opt 1 p;
         p = st8 (ts_opt + 1) 2 p;
         p = st32 (ts_opt + 2) (bpf_htonl ts_val) p
     in st32 (ts_opt + 6) (bpf_htonl ts_ecr) p)"

definition fill_tcp_hdr :: "nat \<Rightarrow> bpf_tcp_conn \<Rightarrow> u32 \<Rightarrow> u16 \<Rightarrow> bytes \<Rightarrow> bytes" where
  "fill_tcp_hdr tcph c tgt_ts flags p =
    (let tx_seq = tx_next_seq c; rx_wnd = rx_avail c; ack_seq = rx_next_seq c; ts_ecr = tx_next_ts c;
         ts_opt = tcph + TCP_HLEN
     in if ts_opt + TS_OPT_STRUCT > length p then p
        else
          let p = st32 (tcph + 4) (bpf_htonl tx_seq) p;
              p = st32 (tcph + 8) (bpf_htonl ack_seq) p;
              p = set_tcp_flag tcph 8 flags p;
              p = put_ts_opt ts_opt tgt_ts ts_ecr p;
              p = st16 (tcph + 14) (drop_bit TCP_WND_SCALE (bpf_htons (ucast rx_wnd))) p;
              p = st16 (tcph + 18) 0 p
          in st16 (tcph + 16) 0 p)"

definition mtp_fill_tcp_hdr :: "nat \<Rightarrow> bpf_tcp_conn \<Rightarrow> u16 \<Rightarrow> TCPBP \<Rightarrow> bytes \<Rightarrow> bytes" where
  "mtp_fill_tcp_hdr tcph c flags bp p =
    (let tx_seq = bp_seq_num bp; rx_wnd = bp_rwnd_size bp; ack_seq = bp_ack_seq bp; ts_ecr = tx_next_ts c;
         ts_opt = tcph + TCP_HLEN
     in if ts_opt + TS_OPT_STRUCT > length p then p
        else
          let p = st32 (tcph + 4) (bpf_htonl tx_seq) p;
              p = st32 (tcph + 8) (bpf_htonl ack_seq) p;
              p = set_tcp_flag tcph 8 flags p;
              p = put_tcp_flag ACK (bp_is_ack bp) tcph p;
              p = put_ts_opt ts_opt (bp_desired_tx_ts bp) ts_ecr p;
              p = st16 (tcph + 14) (drop_bit TCP_WND_SCALE (bpf_htons rx_wnd)) p;
              p = st16 (tcph + 18) 0 p
          in st16 (tcph + 16) 0 p)"

definition parse_pkt_to_event :: "net_event \<Rightarrow> nat \<Rightarrow> nat \<Rightarrow> nat \<Rightarrow> bytes \<Rightarrow> net_event" where
  "parse_pkt_to_event ev tcph iph ts_opt p =
    ev\<lparr>ev_minor_type := (if tcp_flag ACK tcph p then 1 else 0),
       ev_ack_seq := bpf_ntohl (ld32 (tcph + 8) p),
       ev_rwnd_size := ucast (bpf_ntohs (ld16 (tcph + 14) p)),
       ev_seq_num := bpf_ntohl (ld32 (tcph + 4) p),
       ev_data_len := ucast (bpf_ntohs (ld16 (iph + 2) p)) - 52,
       ev_ecn_mark := tcp_flag ECE tcph p,
       ev_ts_ecr := bpf_ntohl (ld32 (ts_opt + 6) p),
       ev_ts_val := bpf_ntohl (ld32 (ts_opt + 2) p)\<rparr>"

section \<open>Lemmas\<close>

lemma put_bit_simps [simp]:
  "n < 8 \<Longrightarrow> bit (put_bit n b w) n = b"
  "n \<noteq> k \<Longrightarrow> bit (put_bit n b w) k = bit w k"
  by (auto simp: put_bit_def bit_simps)

lemma tcp_flag_put [mem_simps]:
  "tcph + 13 < length p \<Longrightarrow> n < 8 \<Longrightarrow> tcp_flag n tcph (put_tcp_flag n b tcph p) = b"
  "tcph + 13 < length p \<Longrightarrow> n \<noteq> k \<Longrightarrow> tcp_flag k tcph (put_tcp_flag n b tcph p) = tcp_flag k tcph p"
  by (simp_all add: tcp_flag_def put_tcp_flag_def mem_simps)

lemma length_put_flag [simp]:
  "length (put_tcp_flag n b tcph p) = length p"
  "length (set_tcp_flag tcph len flags p) = length p"
  "length (put_ts_opt ts x y p) = length p"
  by (simp_all add: put_tcp_flag_def set_tcp_flag_def put_ts_opt_def Let_def)

lemma length_fill [simp]:
  "length (fill_tcp_hdr tcph c ts flags p) = length p"
  "length (mtp_fill_tcp_hdr tcph c flags bp p) = length p"
  "length (fill_ip_hdr iph n ece p) = length p"
  by (simp_all add: fill_tcp_hdr_def mtp_fill_tcp_hdr_def fill_ip_hdr_def Let_def)

lemma ld32_put_flag [mem_simps]:
  "q + 4 \<le> tcph + 13 \<or> tcph + 14 \<le> q \<Longrightarrow> ld32 q (put_tcp_flag n b tcph p) = ld32 q p"
  by (auto simp: put_tcp_flag_def mem_simps)

lemma ld32_set_flag [mem_simps]:
  "q + 4 \<le> tcph + 12 \<or> tcph + 14 \<le> q \<Longrightarrow> ld32 q (set_tcp_flag tcph len flags p) = ld32 q p"
  by (auto simp: set_tcp_flag_def Let_def mem_simps)

lemma tcp_flag_st_other [mem_simps]:
  "tcph + 14 \<le> q \<or> q + 4 \<le> tcph + 13 \<Longrightarrow> tcp_flag n tcph (st32 q v p) = tcp_flag n tcph p"
  "tcph + 14 \<le> q \<or> q + 2 \<le> tcph + 13 \<Longrightarrow> tcp_flag n tcph (st16 q w p) = tcp_flag n tcph p"
  "tcph + 13 \<noteq> q \<Longrightarrow> tcp_flag n tcph (st8 q x p) = tcp_flag n tcph p"
  by (auto simp: tcp_flag_def mem_simps)

lemma ip_fields_below:
  assumes "iph + 20 \<le> q"
  shows "ld32 q (fill_ip_hdr iph n ece p) = ld32 q p"
    "ld16 q (fill_ip_hdr iph n ece p) = ld16 q p"
    "ld8 q (fill_ip_hdr iph n ece p) = ld8 q p"
  using assms by (simp_all add: fill_ip_hdr_def ip_hdr_fields_def Let_def mem_simps)

lemma ip_tot_len:
  assumes "iph + 20 \<le> length p"
  shows "ld16 (iph + 2) (fill_ip_hdr iph n ece p) = bpf_htons (ucast (52 + n))"
  using assms by (simp add: fill_ip_hdr_def ip_hdr_fields_def Let_def mem_simps)

lemma ucast_payload_len:
  fixes n :: u32
  assumes "n \<le> 65483"
  shows "ucast (ucast (52 + n) :: u16) - 52 = n"
proof -
  have u: "unat (52 + n) = 52 + unat n" using assms by (simp add: seq_nat)
  moreover have "unat n \<le> 65483" using assms by (simp add: word_le_nat_alt)
  ultimately have "unat (ucast (ucast (52 + n) :: u16) :: u32) = unat (52 + n)"
    by (simp add: unsigned_ucast_eq unsigned_take_bit_eq take_bit_nat_eq_self)
  then have "ucast (ucast (52 + n) :: u16) = 52 + n" by (simp only: word_unat_eq_iff)
  then show ?thesis by simp
qed

lemma mtp_header_fields:
  assumes "iph + 20 \<le> tcph" "tcph + 30 \<le> length p" "n \<le> 65483"
  shows "let q = fill_ip_hdr iph n ece (mtp_fill_tcp_hdr tcph c flags bp p);
             ev' = parse_pkt_to_event ev tcph iph (tcph + 20) q
    in ev_seq_num ev' = bp_seq_num bp \<and> ev_ack_seq ev' = bp_ack_seq bp
      \<and> ev_minor_type ev' = (if bp_is_ack bp then NET_EVENT_ACK else NET_EVENT_DATA)
      \<and> ev_ts_val ev' = bp_desired_tx_ts bp \<and> ev_ts_ecr ev' = tx_next_ts c \<and> ev_data_len ev' = n"
proof -
  let ?q = "fill_ip_hdr iph n ece (mtp_fill_tcp_hdr tcph c flags bp p)"
  have "ucast (bpf_ntohs (ld16 (iph + 2) ?q)) - 52 = n"
    using assms ucast_payload_len [of n] by (subst ip_tot_len) simp_all
  moreover have "tcp_flag ACK tcph ?q = bp_is_ack bp"
    using assms(1,2)
    by (simp add: tcp_flag_def ip_fields_below)
      (simp add: tcp_flag_def [symmetric] mtp_fill_tcp_hdr_def put_ts_opt_def Let_def mem_simps)
  ultimately show ?thesis
    using assms(1,2)
    by (simp add: parse_pkt_to_event_def Let_def)
      (simp add: ip_fields_below mtp_fill_tcp_hdr_def put_ts_opt_def Let_def mem_simps)
qed

section \<open>Properties\<close>

text \<open>C25: a data segment built by the transmit path and parsed by the receive path of a
  peer gives back the sequence number, the acknowledgement number, the acknowledgement flag,
  both timestamps and the payload length, for every header blueprint.\<close>

theorem mtp_header_roundtrip:
  assumes "iph + 20 \<le> tcph" "tcph + 30 \<le> length p" "n \<le> 65483"
  shows "let q = fill_ip_hdr iph n ece (mtp_fill_tcp_hdr tcph c flags bp p);
             ev' = parse_pkt_to_event ev tcph iph (tcph + 20) q
    in ev_seq_num ev' = bp_seq_num bp \<and> ev_ack_seq ev' = bp_ack_seq bp
      \<and> ev_minor_type ev' = (if bp_is_ack bp then NET_EVENT_ACK else NET_EVENT_DATA)
      \<and> ev_ts_val ev' = bp_desired_tx_ts bp \<and> ev_ts_ecr ev' = tx_next_ts c \<and> ev_data_len ev' = n"
  using assms by (rule mtp_header_fields)

theorem mtp_header_roundtrip_witness:
  "\<forall>ev. ev_seq_num (parse_pkt_to_event ev 34 14 54
     (fill_ip_hdr 14 100 True (mtp_fill_tcp_hdr 34 zero_conn 0 (zero_bp\<lparr>bp_seq_num := 77\<rparr>) (replicate 200 0)))) = 77"
proof
  fix ev
  show "ev_seq_num (parse_pkt_to_event ev 34 14 54
     (fill_ip_hdr 14 100 True (mtp_fill_tcp_hdr 34 zero_conn 0 (zero_bp\<lparr>bp_seq_num := 77\<rparr>) (replicate 200 0)))) = 77"
    using mtp_header_roundtrip [of 14 34 "replicate 200 0" 100 True zero_conn 0 "zero_bp\<lparr>bp_seq_num := 77\<rparr>" ev]
    by (simp add: Let_def)
qed

text \<open>The window field of a data segment is shifted after the byte swap, so a receiver
  with 7 free bytes announces, in the scaling the peer applies, a window of 458752 bytes.\<close>

theorem data_segment_window_overadvertised:
  "let c = zero_conn\<lparr>rx_avail := 7\<rparr>;
       p = fill_tcp_hdr 34 c 0 0 (replicate 66 0);
       ev = parse_pkt_to_event ev 34 14 54 p
   in push_bit TCP_WND_SCALE (ev_rwnd_size ev) = 458752"
  by (simp add: fill_tcp_hdr_def Let_def mem_simps parse_pkt_to_event_def zero_conn_def bswap16_def)

end
