(* ===== verification/Timing_Wheel.thy ===== *)
theory Timing_Wheel
  imports Tcp_State Net_Headers
begin

text \<open>
  Pacing of the TCP transmit path: the release time of a packet
  (\<open>cc_get_desired_tx_ts\<close> of \<open>eBPF/tcp/tcp.h\<close>) and the per-CPU timing wheel
  (\<open>eBPF/tcp/pacing.h\<close>).

  The buckets of the wheel are a packet queue map of the kernel, code that is
  not part of the sources.  Its two operations are the parameter \<open>pkt_queue_ops\<close> and
  \<open>pkt_queue_ok\<close> states what the code relies on: each bucket is a FIFO list of
  packets and a dequeue from a non-empty bucket returns its head.  The redirect
  verdict appends the packet to the chosen bucket.
\<close>

section \<open>Definitions\<close>

abbreviation (input) SLOT_WIDTH_NS :: u64 where "SLOT_WIDTH_NS \<equiv> 500"
abbreviation (input) MAX_BUCKETS :: u64 where "MAX_BUCKETS \<equiv> 50000"

record ('q, 'x) pkt_queue_ops =
  pkt_queue_empty :: "'q \<Rightarrow> u32 \<Rightarrow> bool"
  pkt_queue_dequeue :: "'q \<Rightarrow> u32 \<Rightarrow> 'x option \<times> 'q"

text \<open>A division by a zero rate yields zero, as the BPF instruction set defines it.\<close>

definition cc_get_desired_tx_ts :: "bpf_cc \<Rightarrow> u64 \<Rightarrow> u32 \<Rightarrow> u64 \<times> bpf_cc" where
  "cc_get_desired_tx_ts cc ref_ts payload_len =
    (let ns_delta = 1000000000 * ucast payload_len div ucast (cc_rate cc);
         desired_tx_ts = cc_prev_desired_tx_ts cc + ns_delta;
         desired_tx_ts = c_max ref_ts desired_tx_ts
     in (desired_tx_ts, cc\<lparr>cc_prev_desired_tx_ts := desired_tx_ts\<rparr>))"

text \<open>The result outside the CPU range is \<open>XDP_DROP\<close>, numerically 1.\<close>

definition tw_insert :: "u32 \<Rightarrow> u64 \<Rightarrow> u64 \<Rightarrow> tcp_cpu \<Rightarrow> u32 \<times> tcp_cpu" where
  "tw_insert cpu ts ktime u =
    (if cpu \<ge> MAX_CPU then (1, u)
     else
       let ts = ts div SLOT_WIDTH_NS;
           u = (if front_timestamp u = 0 then u\<lparr>front_timestamp := ktime div SLOT_WIDTH_NS\<rparr> else u);
           ts = (if ts \<le> front_timestamp u then front_timestamp u
                 else if ts > front_timestamp u + MAX_BUCKETS - 1 then front_timestamp u + MAX_BUCKETS - 1
                 else ts);
           target_idx = ucast (ts mod MAX_BUCKETS)
       in (target_idx, u\<lparr>nr_pkts_in_tw := nr_pkts_in_tw u + 1\<rparr>))"

text \<open>
  The scan of \<open>tw_can_extract\<close> and \<open>tw_extract\<close> over empty buckets: \<open>n\<close> is the
  number of iterations left before \<open>ctrl_exit\<close> reaches 16, \<open>now\<close> is in slots.  The
  result is the new front and whether the scan stopped at a non-empty bucket.
\<close>

fun tw_scan :: "nat \<Rightarrow> ('q, 'x) pkt_queue_ops \<Rightarrow> 'q \<Rightarrow> u64 \<Rightarrow> u64 \<Rightarrow> u64 \<times> bool" where
  "tw_scan 0 pq tw now front = (front, False)"
| "tw_scan (Suc n) pq tw now front =
    (if now \<ge> front then
       (if pkt_queue_empty pq tw (ucast (front mod MAX_BUCKETS)) then tw_scan n pq tw now (front + 1)
        else (front, True))
     else (front, False))"

definition tw_can_extract :: "('q, 'x) pkt_queue_ops \<Rightarrow> 'q \<Rightarrow> u64 \<Rightarrow> tcp_cpu \<Rightarrow> bool \<times> tcp_cpu" where
  "tw_can_extract pq tw now u =
    (let now = now div SLOT_WIDTH_NS;
         (front, found) = tw_scan 16 pq tw now (front_timestamp u);
         u = u\<lparr>front_timestamp := front\<rparr>
     in (if found then True else now \<ge> front, u))"

definition tw_extract ::
  "('q, 'x) pkt_queue_ops \<Rightarrow> 'q \<Rightarrow> u64 \<Rightarrow> bool \<Rightarrow> tcp_cpu \<Rightarrow> 'x option \<times> bool \<times> 'q \<times> tcp_cpu"
where
  "tw_extract pq tw now cont u =
    (let now = now div SLOT_WIDTH_NS;
         (front, found) = tw_scan 16 pq tw now (front_timestamp u);
         u = u\<lparr>front_timestamp := front\<rparr>
     in if found then
          let (xdpf, tw') = pkt_queue_dequeue pq tw (ucast (front mod MAX_BUCKETS))
          in (xdpf, cont, tw', u)
        else (None, now \<ge> front, tw, u))"

text \<open>\<open>timer_started\<close> counts the calls of \<open>bpf_timer_start\<close>; the map lookup cannot fail for a valid CPU.\<close>

definition kick_tw :: "u32 \<Rightarrow> tcp_cpu \<Rightarrow> tcp_cpu" where
  "kick_tw current_cpu u =
    (if current_cpu \<ge> MAX_CPU then u
     else if has_kick u \<noteq> 0 then u
     else
       let u = u\<lparr>has_kick := 1\<rparr>;
           u = (if \<not> twt_ready u then u\<lparr>twt_ready := True\<rparr> else u)
       in u\<lparr>timer_started := timer_started u + 1\<rparr>)"

text \<open>
  The body of the timer callback for the packets of one batch: \<open>fuel\<close> is what is
  left of \<open>TW_BATCH_SIZE\<close>.  A frame is the byte list of the packet; \<open>dynptr_ok\<close> and
  \<open>send_ok\<close> tell whether the kernel functions \<open>bpf_dynptr_from_xdp_frame\<close> and
  \<open>bpf_packet_send\<close> succeed on it.  The timestamp option sits behind the three
  fixed-size headers, at offset 54.
\<close>

fun tw_batch ::
  "nat \<Rightarrow> ('q, bytes) pkt_queue_ops \<Rightarrow> (bytes \<Rightarrow> bool) \<Rightarrow> (bytes \<Rightarrow> bool) \<Rightarrow> u64 \<Rightarrow> bool \<Rightarrow> 'q \<Rightarrow> tcp_cpu
   \<Rightarrow> bytes list \<times> 'q \<times> tcp_cpu"
where
  "tw_batch 0 pq dynptr_ok send_ok now cont tw u = ([], tw, u)"
| "tw_batch (Suc fuel) pq dynptr_ok send_ok now cont tw u =
    (case tw_extract pq tw now cont u of
       (None, cont, tw, u) \<Rightarrow>
         (if \<not> cont then ([], tw, u) else tw_batch fuel pq dynptr_ok send_ok now cont tw u)
     | (Some xdpf, cont, tw, u) \<Rightarrow>
         (if \<not> dynptr_ok xdpf then ([], tw, u)
          else if 54 + TS_OPT_STRUCT > length xdpf then ([], tw, u)
          else
            let xdpf = st32 56 (bpf_htonl (ucast now)) xdpf
            in if \<not> send_ok xdpf then ([], tw, u)
               else
                 let (sent, tw, u) = tw_batch fuel pq dynptr_ok send_ok now cont tw
                                       (u\<lparr>nr_pkts_in_tw := nr_pkts_in_tw u - 1\<rparr>)
                 in (xdpf # sent, tw, u)))"

text \<open>
  The result is the frames handed to the driver, whether they were flushed, the wheel and
  the CPU.  The lookup of the CPU's wheel in the outer map may fail.
\<close>

definition tw_cb ::
  "u32 \<Rightarrow> ('q, bytes) pkt_queue_ops \<Rightarrow> (bytes \<Rightarrow> bool) \<Rightarrow> (bytes \<Rightarrow> bool) \<Rightarrow> u64 \<Rightarrow> 'q option \<Rightarrow> tcp_cpu
   \<Rightarrow> bytes list \<times> bool \<times> 'q option \<times> tcp_cpu"
where
  "tw_cb cpu pq dynptr_ok send_ok now tw_map u =
    (if cpu \<ge> MAX_CPU then ([], False, tw_map, u)
     else case tw_map of
         None \<Rightarrow> ([], False, None, u)
       | Some tw \<Rightarrow>
           let old_v = nr_pkts_in_tw u;
               u = u\<lparr>has_kick := 0\<rparr>;
               (sent, tw, u) = tw_batch 32 pq dynptr_ok send_ok now False tw u;
               flushed = (nr_pkts_in_tw u \<noteq> old_v)
           in (sent, flushed, Some tw, if nr_pkts_in_tw u \<noteq> 0 then kick_tw cpu u else u))"

section \<open>The packet queue contract\<close>

text \<open>
  \<open>bucket q i\<close> is the list of packets in bucket \<open>i\<close> of the kernel map \<open>q\<close>, and
  \<open>pq_append\<close> what the redirect verdict does to it.
\<close>

definition pkt_queue_ok ::
  "('q, 'x) pkt_queue_ops \<Rightarrow> ('q \<Rightarrow> u32 \<Rightarrow> 'x list) \<Rightarrow> ('q \<Rightarrow> u32 \<Rightarrow> 'x \<Rightarrow> 'q) \<Rightarrow> bool"
where
  "pkt_queue_ok pq bucket pq_append \<longleftrightarrow>
    (\<forall>q i. pkt_queue_empty pq q i \<longleftrightarrow> bucket q i = []) \<and>
    (\<forall>q i x xs. bucket q i = x # xs \<longrightarrow>
       (\<exists>q'. pkt_queue_dequeue pq q i = (Some x, q') \<and> bucket q' = (bucket q)(i := xs))) \<and>
    (\<forall>q i x. bucket (pq_append q i x) = (bucket q)(i := bucket q i @ [x]))"

text \<open>The contract is met by buckets kept as lists.\<close>

definition list_pkt_queue :: "(u32 \<Rightarrow> 'x list, 'x) pkt_queue_ops" where
  "list_pkt_queue = \<lparr> pkt_queue_empty = (\<lambda>q i. q i = []),
     pkt_queue_dequeue = (\<lambda>q i. case q i of [] \<Rightarrow> (None, q) | x # xs \<Rightarrow> (Some x, q(i := xs))) \<rparr>"

definition list_pkt_append :: "(u32 \<Rightarrow> 'x list) \<Rightarrow> u32 \<Rightarrow> 'x \<Rightarrow> (u32 \<Rightarrow> 'x list)" where
  "list_pkt_append q i x = q(i := q i @ [x])"

section \<open>The wheel invariant\<close>

text \<open>
  \<open>slot x\<close> is the absolute slot a packet was scheduled for.  Every packet in the wheel is
  in the bucket of its slot, and the slot is less than one revolution ahead of the front.
\<close>

definition wheel_inv :: "('q \<Rightarrow> u32 \<Rightarrow> 'x list) \<Rightarrow> ('x \<Rightarrow> nat) \<Rightarrow> 'q \<Rightarrow> u64 \<Rightarrow> bool" where
  "wheel_inv bucket slot q front \<longleftrightarrow>
    (\<forall>i. \<forall>x \<in> set (bucket q i). unat i = slot x mod 50000 \<and> unat front \<le> slot x \<and> slot x < unat front + 50000)"

text \<open>The slot that an insertion chooses, as a natural number: clamped to one revolution.\<close>

definition clamp_slot :: "nat \<Rightarrow> nat \<Rightarrow> nat" where
  "clamp_slot front s = (if s \<le> front then front else if s > front + 49999 then front + 49999 else s)"

definition wheel_front :: "u64 \<Rightarrow> tcp_cpu \<Rightarrow> u64" where
  "wheel_front ktime u = (if front_timestamp u = 0 then ktime div SLOT_WIDTH_NS else front_timestamp u)"

text \<open>Release times for a sequence of packets, each given by the reference time and its length.\<close>

fun paced_ts :: "bpf_cc \<Rightarrow> (u64 \<times> u32) list \<Rightarrow> u64 list" where
  "paced_ts cc [] = []"
| "paced_ts cc ((ref_ts, len) # ps) =
    (let (t, cc') = cc_get_desired_tx_ts cc ref_ts len in t # paced_ts cc' ps)"

definition ns_delta :: "u32 \<Rightarrow> u32 \<Rightarrow> nat" where
  "ns_delta bps len = (10 ^ 9 * unat len) div unat bps"

section \<open>The wheel as a transition system\<close>

text \<open>
  A step either schedules a packet (\<open>tw_insert\<close> followed by the append of the redirect
  verdict) or runs \<open>tw_extract\<close>.  The clock is in nanoseconds since boot and is assumed to
  have passed the first slot when a packet is scheduled.
\<close>

inductive wheel_step ::
  "('q, 'x) pkt_queue_ops \<Rightarrow> ('q \<Rightarrow> u32 \<Rightarrow> 'x \<Rightarrow> 'q) \<Rightarrow> ('x \<Rightarrow> nat) \<Rightarrow> u32 \<Rightarrow> 'q \<times> tcp_cpu \<Rightarrow> 'q \<times> tcp_cpu \<Rightarrow> bool"
  for pq app slot cpu
where
  wheel_insert: "cpu < MAX_CPU \<Longrightarrow> 500 \<le> ktime \<Longrightarrow> tw_insert cpu ts ktime u = (idx, u')
    \<Longrightarrow> slot x = clamp_slot (unat (wheel_front ktime u)) (unat ts div 500)
    \<Longrightarrow> wheel_step pq app slot cpu (q, u) (app q idx x, u')"
| wheel_extract: "tw_extract pq q now cont u = (r, cont', q', u')
    \<Longrightarrow> wheel_step pq app slot cpu (q, u) (q', u')"

inductive wheel_reach ::
  "('q, 'x) pkt_queue_ops \<Rightarrow> ('q \<Rightarrow> u32 \<Rightarrow> 'x \<Rightarrow> 'q) \<Rightarrow> ('x \<Rightarrow> nat) \<Rightarrow> u32 \<Rightarrow> 'q \<Rightarrow> 'q \<times> tcp_cpu \<Rightarrow> bool"
  for pq app slot cpu q0
where
  init: "wheel_reach pq app slot cpu q0 (q0, init_cpu)"
| step: "wheel_reach pq app slot cpu q0 s \<Longrightarrow> wheel_step pq app slot cpu s s'
    \<Longrightarrow> wheel_reach pq app slot cpu q0 s'"

definition wheel_ok :: "('q \<Rightarrow> u32 \<Rightarrow> 'x list) \<Rightarrow> ('x \<Rightarrow> nat) \<Rightarrow> 'q \<times> tcp_cpu \<Rightarrow> bool" where
  "wheel_ok bucket slot s \<longleftrightarrow>
    wheel_inv bucket slot (fst s) (front_timestamp (snd s))
    \<and> (front_timestamp (snd s) = 0 \<longrightarrow> (\<forall>i. bucket (fst s) i = []))
    \<and> unat (front_timestamp (snd s)) \<le> 2 ^ 56"

section \<open>Slots and buckets\<close>

inductive_cases wheel_stepE: "wheel_step pq app slot cpu (q, u) s'"

lemma unat_bucket_idx: "unat (ucast (x mod MAX_BUCKETS) :: u32) = unat x mod 50000"
proof -
  have "unat (x mod 50000) = unat x mod 50000" by (simp add: unat_mod)
  moreover have "unat x mod 50000 < 50000" by simp
  ultimately show ?thesis
    by (simp add: unsigned_ucast_eq take_bit_nat_eq_self del: mod_less_divisor)
qed

lemma tw_insert_slot:
  assumes "cpu < MAX_CPU" "unat (wheel_front ktime u) + 50000 < 2 ^ 64"
    "tw_insert cpu ts ktime u = (idx, u')"
  shows "unat idx = clamp_slot (unat (wheel_front ktime u)) (unat ts div 500) mod 50000"
    "front_timestamp u' = wheel_front ktime u" "nr_pkts_in_tw u' = nr_pkts_in_tw u + 1"
proof -
  let ?f = "wheel_front ktime u" and ?s = "ts div 500"
  define t where "t = (if ?s \<le> ?f then ?f else if ?s > ?f + 50000 - 1 then ?f + 50000 - 1 else ?s)"
  have idx: "idx = ucast (t mod 50000)" and u': "front_timestamp u' = ?f" "nr_pkts_in_tw u' = nr_pkts_in_tw u + 1"
    using assms(1,3) by (auto simp: tw_insert_def Let_def wheel_front_def t_def not_le split: if_splits)
  have "?f + 50000 - 1 = 49999 + ?f" by simp
  moreover have "unat (49999 + ?f) = unat ?f + 49999"
    using assms(2) unat_add_lem [of 49999 ?f] by simp
  moreover have "unat ?s = unat ts div 500" by (simp add: unat_div)
  ultimately have "unat t = clamp_slot (unat ?f) (unat ts div 500)"
    unfolding t_def clamp_slot_def by (simp add: word_le_nat_alt word_less_nat_alt)
  then show "unat idx = clamp_slot (unat ?f) (unat ts div 500) mod 50000"
    unfolding idx unat_bucket_idx by simp
  show "front_timestamp u' = ?f" "nr_pkts_in_tw u' = nr_pkts_in_tw u + 1" using u' by simp_all
qed

lemma tw_scan_hit:
  "0 < n \<Longrightarrow> front \<le> now \<Longrightarrow> \<not> pkt_queue_empty pq q (ucast (front mod MAX_BUCKETS))
    \<Longrightarrow> tw_scan n pq q now front = (front, True)"
  by (cases n) auto

lemma tw_scan_ahead: "now < front \<Longrightarrow> tw_scan n pq q now front = (front, False)"
  by (cases n) auto

lemma pkt_queue_okD:
  assumes "pkt_queue_ok pq bucket app"
  shows "pkt_queue_empty pq q i \<longleftrightarrow> bucket q i = []"
    "bucket q i = x # xs \<Longrightarrow> \<exists>q'. pkt_queue_dequeue pq q i = (Some x, q') \<and> bucket q' = (bucket q)(i := xs)"
    "bucket (app q i x) = (bucket q)(i := bucket q i @ [x])"
  using assms by (auto simp: pkt_queue_ok_def)

lemma wheel_inv_advance:
  assumes inv: "wheel_inv bucket slot q front" and empty: "bucket q (ucast (front mod MAX_BUCKETS)) = []"
    and lt: "unat front < 2 ^ 63"
  shows "wheel_inv bucket slot q (front + 1)" and "unat (front + 1) = unat front + 1"
proof -
  show u: "unat (front + 1) = unat front + 1" using unat_add_lem [of front 1] lt by simp
  have "slot x \<noteq> unat front" if "x \<in> set (bucket q i)" for i x
  proof
    assume "slot x = unat front"
    then have "unat i = unat (ucast (front mod MAX_BUCKETS) :: u32)"
      using inv that unfolding unat_bucket_idx wheel_inv_def by simp
    then have "i = ucast (front mod MAX_BUCKETS)" by (simp only: word_unat_eq_iff)
    then show False using that empty by simp
  qed
  then show "wheel_inv bucket slot q (front + 1)"
    using inv unfolding wheel_inv_def u by (fastforce simp: le_less Suc_le_eq)
qed

lemma tw_scan_inv:
  assumes "pkt_queue_ok pq bucket app" "tw_scan n pq q now front = (front', found)"
    "wheel_inv bucket slot q front" "unat now < 2 ^ 56" "unat front \<le> 2 ^ 56"
  shows "wheel_inv bucket slot q front' \<and> unat front' \<le> 2 ^ 56 \<and> unat front \<le> unat front'
    \<and> (found \<longrightarrow> front' \<le> now \<and> bucket q (ucast (front' mod MAX_BUCKETS)) \<noteq> [])
    \<and> (\<not> found \<longrightarrow> now < front' \<or> unat front' = unat front + n)"
  using assms(2-5)
proof (induction n arbitrary: front)
  case 0
  then show ?case by simp
next
  case (Suc n)
  note ok = pkt_queue_okD(1) [OF assms(1)]
  show ?case
  proof (cases "now \<ge> front \<and> bucket q (ucast (front mod MAX_BUCKETS)) = []")
    case True
    have f: "wheel_inv bucket slot q (front + 1)" "unat (front + 1) = unat front + 1"
      using wheel_inv_advance [OF Suc.prems(2)] True Suc.prems(4) by simp_all
    moreover have "unat (front + 1) \<le> 2 ^ 56" using True Suc.prems f by (simp add: word_le_nat_alt)
    moreover have "tw_scan n pq q now (front + 1) = (front', found)" using True Suc.prems(1) ok by simp
    ultimately show ?thesis using Suc.IH [of "front + 1"] Suc.prems(3) by auto
  next
    case False
    then show ?thesis using Suc.prems ok by (auto simp: not_le split: if_splits)
  qed
qed

lemma same_slot:
  fixes a b :: nat
  assumes "a mod 50000 = b mod 50000" "a \<le> b" "b < a + 50000"
  shows "b = a"
proof -
  have "50000 dvd b - a" using assms by (simp add: mod_eq_dvd_iff_nat [symmetric])
  moreover have "b - a < 50000" using assms by simp
  ultimately show ?thesis using assms(2) nat_dvd_not_less by fastforce
qed

lemma unat_slot: "unat (now div SLOT_WIDTH_NS) = unat now div 500" "unat now div 500 < 2 ^ 56"
  for now :: u64
  using unat_lt64 [of now] by (simp_all add: unat_div less_mult_imp_div_less)

text \<open>What a call of \<open>tw_extract\<close> on a well-formed wheel does: it finds the earliest packet or moves the front.\<close>

lemma tw_extract_cases:
  assumes ok: "pkt_queue_ok pq bucket app" and wh: "wheel_ok bucket slot (q, u)"
    and ex: "tw_extract pq q now cont u = (r, cont', q', u')"
  defines "f \<equiv> front_timestamp u'"
  defines "i \<equiv> ucast (f mod MAX_BUCKETS) :: u32"
  shows "wheel_inv bucket slot q f \<and> unat f \<le> 2 ^ 56 \<and> (f = 0 \<longrightarrow> (\<forall>i. bucket q i = []))
    \<and> ((\<exists>x xs. bucket q i = x # xs \<and> r = Some x \<and> bucket q' = (bucket q)(i := xs) \<and> f \<le> now div SLOT_WIDTH_NS)
       \<or> (r = None \<and> q' = q \<and> cont' = (now div SLOT_WIDTH_NS \<ge> f)))"
proof -
  obtain g found where scan: "tw_scan 16 pq q (now div SLOT_WIDTH_NS) (front_timestamp u) = (g, found)"
    by fastforce
  have f: "f = g"
    using ex scan by (auto simp: f_def tw_extract_def Let_def split: if_splits prod.splits)
  have inv: "wheel_inv bucket slot q f" "unat f \<le> 2 ^ 56" "unat (front_timestamp u) \<le> unat f"
    "found \<Longrightarrow> f \<le> now div SLOT_WIDTH_NS \<and> bucket q i \<noteq> []"
    using tw_scan_inv [OF ok scan, of slot] wh unat_slot [of now] by (auto simp: wheel_ok_def f i_def)
  have "f = 0 \<longrightarrow> (\<forall>i. bucket q i = [])"
    using inv(3) wh by (auto simp: wheel_ok_def unsigned_eq_0_iff)
  moreover have "\<exists>x xs. bucket q i = x # xs \<and> r = Some x \<and> bucket q' = (bucket q)(i := xs)" if fnd: found
  proof -
    obtain x xs where b: "bucket q i = x # xs" using inv(4) fnd by (cases "bucket q i") auto
    then show ?thesis using pkt_queue_okD(2) [OF ok b] ex scan fnd
      by (auto simp: tw_extract_def Let_def i_def f split: prod.splits)
  qed
  moreover have "r = None \<and> q' = q \<and> cont' = (now div SLOT_WIDTH_NS \<ge> f)" if "\<not> found"
    using ex scan that by (auto simp: tw_extract_def Let_def f)
  ultimately show ?thesis using inv by (cases found) auto
qed

lemma tw_extract_wheel_ok:
  assumes "pkt_queue_ok pq bucket app" "wheel_ok bucket slot (q, u)"
    "tw_extract pq q now cont u = (r, cont', q', u')"
  shows "wheel_ok bucket slot (q', u')"
proof -
  note c = tw_extract_cases [OF assms]
  have sub: "set (bucket q' i) \<subseteq> set (bucket q i)" for i using c by (auto simp: fun_upd_apply split: if_splits)
  then have "wheel_inv bucket slot q' (front_timestamp u')" using c unfolding wheel_inv_def by blast
  moreover have "front_timestamp u' = 0 \<longrightarrow> (\<forall>i. bucket q' i = [])" using c sub by fastforce
  ultimately show ?thesis using c by (simp add: wheel_ok_def)
qed

lemma tw_extract_earliest:
  assumes "pkt_queue_ok pq bucket app" "wheel_ok bucket slot (q, u)"
    "tw_extract pq q now cont u = (Some x, cont', q', u')"
  shows "slot x \<le> unat now div 500 \<and> (\<forall>i. \<forall>y \<in> set (bucket q i). slot x \<le> slot y)
    \<and> (\<exists>i. bucket q i = x # bucket q' i \<and> (\<forall>j. j \<noteq> i \<longrightarrow> bucket q' j = bucket q j))"
proof -
  let ?f = "front_timestamp u'" and ?i = "ucast (front_timestamp u' mod MAX_BUCKETS) :: u32"
  obtain xs where h: "wheel_inv bucket slot q ?f" "bucket q ?i = x # xs" "bucket q' = (bucket q)(?i := xs)"
    "?f \<le> now div SLOT_WIDTH_NS"
    using tw_extract_cases [OF assms] by auto
  have "unat ?i = slot x mod 50000 \<and> unat ?f \<le> slot x \<and> slot x < unat ?f + 50000"
    using h(1,2) unfolding wheel_inv_def by (metis list.set_intros(1))
  then have "slot x = unat ?f" unfolding unat_bucket_idx by (metis same_slot)
  moreover have "unat ?f \<le> unat now div 500" using h(4) unat_slot(1) [of now] by (simp add: word_le_nat_alt)
  moreover have "unat ?f \<le> slot y" if "y \<in> set (bucket q j)" for y j
    using h(1) that unfolding wheel_inv_def by blast
  ultimately show ?thesis using h(2,3) by (auto intro!: exI [of _ ?i])
qed

lemma tw_extract_none_due:
  assumes "pkt_queue_ok pq bucket app" "wheel_ok bucket slot (q, u)"
    "tw_extract pq q now cont u = (None, False, q', u')" "y \<in> set (bucket q i)"
  shows "unat now div 500 < slot y"
proof -
  have "wheel_inv bucket slot q (front_timestamp u')" "now div SLOT_WIDTH_NS < front_timestamp u'"
    using tw_extract_cases [OF assms(1-3)] by auto
  then show ?thesis
    using assms(4) unat_slot(1) [of now] unfolding wheel_inv_def word_less_nat_alt by fastforce
qed

lemma wheel_insert_ok:
  assumes ok: "pkt_queue_ok pq bucket app" and wh: "wheel_ok bucket slot (q, u)"
    and "cpu < MAX_CPU" "500 \<le> ktime" and ins: "tw_insert cpu ts ktime u = (idx, u')"
    and x: "slot x = clamp_slot (unat (wheel_front ktime u)) (unat ts div 500)"
  shows "wheel_ok bucket slot (app q idx x, u')"
proof -
  let ?f = "wheel_front ktime u"
  have le: "unat ?f \<le> 2 ^ 56"
    using wh unat_slot [of ktime] by (auto simp: wheel_front_def wheel_ok_def)
  have "?f \<noteq> 0"
    using assms(4) unat_slot(1) [of ktime] by (auto simp: wheel_front_def word_le_nat_alt word_unat_eq_iff)
  moreover have "wheel_inv bucket slot q ?f"
    using wh by (auto simp: wheel_front_def wheel_ok_def wheel_inv_def)
  moreover have "unat idx = slot x mod 50000" "front_timestamp u' = ?f"
    using tw_insert_slot [OF assms(3) _ ins] le x by simp_all
  moreover have "unat ?f \<le> slot x" "slot x < unat ?f + 50000" by (auto simp: x clamp_slot_def)
  ultimately show ?thesis
    using pkt_queue_okD(3) [OF ok] le by (auto simp: wheel_ok_def wheel_inv_def)
qed

lemma wheel_reach_ok:
  assumes "wheel_reach pq app slot cpu q0 s" "pkt_queue_ok pq bucket app" "\<And>i. bucket q0 i = []"
  shows "wheel_ok bucket slot s"
  using assms(1)
proof induction
  case init
  then show ?case using assms(3) by (simp add: wheel_ok_def wheel_inv_def init_cpu_def)
next
  case (step s s')
  then show ?case
    by (cases s) (auto elim!: wheel_stepE intro: wheel_insert_ok [OF assms(2)] tw_extract_wheel_ok [OF assms(2)])
qed

lemma list_pkt_queue_ok: "pkt_queue_ok list_pkt_queue (\<lambda>q. q) list_pkt_append"
  by (simp add: pkt_queue_ok_def list_pkt_queue_def list_pkt_append_def)

section \<open>Release times\<close>

lemma unat_ns_delta:
  fixes len bps :: u32
  shows "unat (1000000000 * ucast len div ucast bps :: u64) = ns_delta bps len"
proof -
  have l: "unat (ucast len :: u64) = unat len" "unat (ucast bps :: u64) = unat bps"
    using unat_lt32 [of len] unat_lt32 [of bps] by (simp_all add: unsigned_ucast_eq take_bit_nat_eq_self)
  have "unat (1000000000 * ucast len :: u64) = 10 ^ 9 * unat len"
    using unat_lt32 [of len] l by (simp add: unat_word_ariths)
  then show ?thesis unfolding ns_delta_def by (simp add: unat_div l)
qed

lemma cc_get_desired_tx_ts_eq:
  assumes "unat (cc_prev_desired_tx_ts cc) + ns_delta (cc_rate cc) len < 2 ^ 64"
    "cc_get_desired_tx_ts cc ref_ts len = (t, cc')"
  shows "unat t = max (unat ref_ts) (unat (cc_prev_desired_tx_ts cc) + ns_delta (cc_rate cc) len)"
    "cc' = cc\<lparr>cc_prev_desired_tx_ts := t\<rparr>"
proof -
  let ?d = "1000000000 * ucast len div ucast (cc_rate cc) :: u64"
  have "unat (cc_prev_desired_tx_ts cc + ?d) = unat (cc_prev_desired_tx_ts cc) + ns_delta (cc_rate cc) len"
    using assms(1) unat_add_lem [of "cc_prev_desired_tx_ts cc" ?d] by (simp add: unat_ns_delta)
  then show "unat t = max (unat ref_ts) (unat (cc_prev_desired_tx_ts cc) + ns_delta (cc_rate cc) len)"
    using assms(2) by (auto simp: cc_get_desired_tx_ts_def Let_def max_def word_le_nat_alt)
  show "cc' = cc\<lparr>cc_prev_desired_tx_ts := t\<rparr>"
    using assms(2) by (auto simp: cc_get_desired_tx_ts_def Let_def)
qed

abbreviation delta_sum :: "bpf_cc \<Rightarrow> (u64 \<times> u32) list \<Rightarrow> nat" where
  "delta_sum cc ps \<equiv> (\<Sum>p\<leftarrow>ps. ns_delta (cc_rate cc) (snd p))"

lemma paced_ts_from_start:
  assumes "unat (cc_prev_desired_tx_ts cc) \<le> M" "\<forall>p \<in> set ps. unat (fst p) \<le> M"
    "M + delta_sum cc ps < 2 ^ 64" "j < length ps"
  shows "unat (cc_prev_desired_tx_ts cc) + delta_sum cc (take (Suc j) ps) \<le> unat (paced_ts cc ps ! j)
    \<and> unat (fst (ps ! j)) \<le> unat (paced_ts cc ps ! j) \<and> length (paced_ts cc ps) = length ps"
  using assms
proof (induction ps arbitrary: cc M j)
  case Nil
  then show ?case by simp
next
  case (Cons p ps)
  obtain ref len where p: "p = (ref, len)" by fastforce
  obtain t cc' where t: "cc_get_desired_tx_ts cc ref len = (t, cc')" by fastforce
  let ?d = "ns_delta (cc_rate cc) len"
  have eq: "unat t = max (unat ref) (unat (cc_prev_desired_tx_ts cc) + ?d)" "cc' = cc\<lparr>cc_prev_desired_tx_ts := t\<rparr>"
    using cc_get_desired_tx_ts_eq [OF _ t] Cons.prems(1,3) p by simp_all
  have IH: "unat t + delta_sum cc (take (Suc k) ps) \<le> unat (paced_ts cc' ps ! k)
    \<and> unat (fst (ps ! k)) \<le> unat (paced_ts cc' ps ! k) \<and> length (paced_ts cc' ps) = length ps"
    if "k < length ps" for k
    using Cons.IH [of cc' "M + ?d" k] Cons.prems(1,2,3) p eq that by fastforce
  have len: "length (paced_ts cc' ps) = length ps" using IH by (cases ps) auto
  have ge: "unat ref \<le> unat t" "unat (cc_prev_desired_tx_ts cc) + ?d \<le> unat t" using eq(1) by simp_all
  show ?case
  proof (cases j)
    case 0
    then show ?thesis using ge len p t by simp
  next
    case (Suc k)
    then show ?thesis using IH [of k] ge len p t Cons.prems(4) by simp
  qed
qed

lemma paced_ts_gap:
  assumes "unat (cc_prev_desired_tx_ts cc) \<le> M" "\<forall>p \<in> set ps. unat (fst p) \<le> M"
    "M + delta_sum cc ps < 2 ^ 64" "i < j" "j < length ps"
  shows "unat (paced_ts cc ps ! i) + delta_sum cc (take (j - i) (drop (Suc i) ps)) \<le> unat (paced_ts cc ps ! j)"
  using assms
proof (induction ps arbitrary: cc M i j)
  case Nil
  then show ?case by simp
next
  case (Cons p ps)
  obtain ref len where p: "p = (ref, len)" by fastforce
  obtain t cc' where t: "cc_get_desired_tx_ts cc ref len = (t, cc')" by fastforce
  let ?d = "ns_delta (cc_rate cc) len"
  have eq: "unat t = max (unat ref) (unat (cc_prev_desired_tx_ts cc) + ?d)" "cc' = cc\<lparr>cc_prev_desired_tx_ts := t\<rparr>"
    using cc_get_desired_tx_ts_eq [OF _ t] Cons.prems(1,3) p by simp_all
  obtain k where k: "j = Suc k" "k < length ps" using Cons.prems(4,5) by (cases j) auto
  have tail: "unat (cc_prev_desired_tx_ts cc') \<le> M + ?d" "\<forall>p \<in> set ps. unat (fst p) \<le> M + ?d"
    "M + ?d + delta_sum cc' ps < 2 ^ 64"
    using Cons.prems(1-3) p eq by (auto simp: add.assoc)
  show ?case
  proof (cases i)
    case 0
    then show ?thesis using paced_ts_from_start [OF tail k(2)] eq(2) k p t by simp
  next
    case (Suc i')
    then show ?thesis using Cons.IH [OF tail, of i' k] Cons.prems(4) eq(2) k p t by simp
  qed
qed

section \<open>The timer callback\<close>

lemma tw_extract_cpu:
  assumes "tw_extract pq tw now cont u = (r, cont', tw', u')"
  shows "nr_pkts_in_tw u' = nr_pkts_in_tw u" "has_kick u' = has_kick u"
  using assms by (auto simp: tw_extract_def Let_def split: if_splits prod.splits)

lemma tw_batch_idle:
  "tw_extract pq tw now cont u = (None, False, tw', u') \<Longrightarrow> 0 < fuel
    \<Longrightarrow> tw_batch fuel pq dynptr_ok send_ok now cont tw u = ([], tw', u')"
  by (cases fuel) auto

lemma tw_batch_sent:
  assumes "tw_batch fuel pq dynptr_ok send_ok now cont tw u = (sent, tw', u')"
  shows "length sent \<le> fuel \<and> nr_pkts_in_tw u' = nr_pkts_in_tw u - of_nat (length sent)
    \<and> has_kick u' = has_kick u \<and> (\<forall>f \<in> set sent. ld32 56 f = bpf_htonl (ucast now))"
  using assms
proof (induction fuel arbitrary: cont tw u sent tw' u')
  case 0
  then show ?case by simp
next
  case (Suc fuel)
  obtain r c1 tw1 u1 where e: "tw_extract pq tw now cont u = (r, c1, tw1, u1)" by (metis prod_cases4)
  note k = tw_extract_cpu [OF e]
  show ?case
  proof (cases r)
    case None
    then show ?thesis using Suc.prems Suc.IH [of c1 tw1 u1] e k by (fastforce split: if_splits)
  next
    case (Some x)
    let ?x = "st32 56 (bpf_htonl (ucast now)) x"
    show ?thesis
    proof (cases "dynptr_ok x \<and> 64 \<le> length x \<and> send_ok ?x")
      case True
      obtain s2 tw2 u2 where r: "tw_batch fuel pq dynptr_ok send_ok now c1 tw1 (u1\<lparr>nr_pkts_in_tw := nr_pkts_in_tw u1 - 1\<rparr>)
          = (s2, tw2, u2)" by (metis prod_cases3)
      then have "sent = ?x # s2" "u' = u2" using True Some e Suc.prems by (auto simp: Let_def)
      then show ?thesis using Suc.IH [OF r] k True by (simp add: mem_simps)
    next
      case False
      then have "sent = []" "u' = u1" using Some e Suc.prems by (auto simp: Let_def split: if_splits prod.splits)
      then show ?thesis using k by simp
    qed
  qed
qed

section \<open>Properties\<close>

text \<open>C23: in every state that schedules and extractions can reach from an empty wheel, the
  packet that \<open>tw_extract\<close> returns is due (its slot is not after the current time), no packet
  in the wheel has an earlier slot, and exactly this packet leaves the wheel.\<close>

theorem wheel_extracts_earliest_due:
  assumes "wheel_reach pq app slot cpu q0 (q, u)" "pkt_queue_ok pq bucket app" "\<forall>i. bucket q0 i = []"
    and "tw_extract pq q now cont u = (Some x, cont', q', u')"
  shows "slot x \<le> unat now div 500 \<and> (\<forall>i. \<forall>y \<in> set (bucket q i). slot x \<le> slot y)
    \<and> (\<exists>i. bucket q i = x # bucket q' i \<and> (\<forall>j. j \<noteq> i \<longrightarrow> bucket q' j = bucket q j))"
  using assms wheel_reach_ok [OF assms(1,2)] by (intro tw_extract_earliest) auto

lemma wheel_reach_example:
  "wheel_reach list_pkt_queue list_pkt_append (\<lambda>_. 2) 0 (\<lambda>_. [])
    ((\<lambda>_. [])(2 := [7 :: nat]), init_cpu\<lparr>front_timestamp := 2, nr_pkts_in_tw := 1\<rparr>)"
proof (rule wheel_reach.step [OF wheel_reach.init])
  have "wheel_step list_pkt_queue list_pkt_append (\<lambda>_. 2) 0 ((\<lambda>_. []), init_cpu)
      (list_pkt_append (\<lambda>_. []) 2 (7 :: nat), init_cpu\<lparr>front_timestamp := 2, nr_pkts_in_tw := 1\<rparr>)"
    by (rule wheel_step.wheel_insert [of _ 1000 1200])
      (simp_all add: tw_insert_def init_cpu_def Let_def wheel_front_def clamp_slot_def)
  then show "wheel_step list_pkt_queue list_pkt_append (\<lambda>_. 2) 0 ((\<lambda>_. []), init_cpu)
      ((\<lambda>_. [])(2 := [7 :: nat]), init_cpu\<lparr>front_timestamp := 2, nr_pkts_in_tw := 1\<rparr>)"
    by (simp add: list_pkt_append_def)
qed

theorem wheel_extracts_earliest_due_witness:
  "fst (tw_extract list_pkt_queue ((\<lambda>_. [])(2 := [7 :: nat])) 1500 False
      (init_cpu\<lparr>front_timestamp := 2, nr_pkts_in_tw := 1\<rparr>)) = Some 7 \<and> (2 :: nat) \<le> 1500 div 500"
  using wheel_extracts_earliest_due
    [OF wheel_reach_example list_pkt_queue_ok, of 1500 False 7 False "(\<lambda>_. [])"
      "init_cpu\<lparr>front_timestamp := 2, nr_pkts_in_tw := 1\<rparr>"]
  by (simp add: tw_extract_def list_pkt_queue_def Let_def tw_scan_hit)

text \<open>C27: when \<open>tw_extract\<close> reports that there is nothing to send and no reason to call it
  again, every packet left in the wheel is scheduled for a later slot.\<close>

theorem wheel_leaves_no_due_packet:
  assumes "wheel_reach pq app slot cpu q0 (q, u)" "pkt_queue_ok pq bucket app" "\<forall>i. bucket q0 i = []"
    and "tw_extract pq q now cont u = (None, False, q', u')"
  shows "bucket q' = bucket q \<and> (\<forall>i. \<forall>y \<in> set (bucket q i). unat now div 500 < slot y)"
  using assms wheel_reach_ok [OF assms(1,2)] tw_extract_none_due [OF assms(2) _ assms(4)]
    tw_extract_cases [OF assms(2) _ assms(4)] by auto

theorem wheel_leaves_no_due_packet_witness:
  "fst (tw_extract list_pkt_queue ((\<lambda>_. [])(2 := [7 :: nat])) 900 False
      (init_cpu\<lparr>front_timestamp := 2, nr_pkts_in_tw := 1\<rparr>)) = None \<and> (900 :: nat) div 500 < 2"
proof -
  let ?q = "((\<lambda>_. [])(2 := [7 :: nat]))" and ?u = "init_cpu\<lparr>front_timestamp := 2, nr_pkts_in_tw := 1\<rparr>"
  have x: "tw_extract list_pkt_queue ?q 900 False ?u = (None, False, ?q, ?u)"
    by (simp add: tw_extract_def list_pkt_queue_def Let_def tw_scan_ahead word_le_nat_alt)
  have "(\<lambda>_ :: nat. 2) 7 > (unat (900 :: u64) div 500 :: nat)"
    using wheel_leaves_no_due_packet [OF wheel_reach_example list_pkt_queue_ok _ x] by fastforce
  then show ?thesis using x by simp
qed



text \<open>A run of the timer callback sends at most 32 frames, writes the current time into
  the timestamp option of each, takes exactly the sent frames off the packet count, flushes
  when it sent something, and is armed again exactly when the count is not zero.\<close>

theorem tw_cb_accounting:
  assumes "cpu < MAX_CPU" "tw_cb cpu pq dynptr_ok send_ok now (Some tw) u = (sent, flushed, tw', u')"
  shows "length sent \<le> 32 \<and> nr_pkts_in_tw u' = nr_pkts_in_tw u - of_nat (length sent)
    \<and> (\<forall>f \<in> set sent. ld32 56 f = bpf_htonl (ucast now))
    \<and> (flushed \<longleftrightarrow> sent \<noteq> []) \<and> (has_kick u' \<noteq> 0 \<longleftrightarrow> nr_pkts_in_tw u' \<noteq> 0)"
proof -
  obtain tw1 u1 where b: "tw_batch 32 pq dynptr_ok send_ok now False tw (u\<lparr>has_kick := 0\<rparr>) = (sent, tw1, u1)"
    and f: "flushed = (nr_pkts_in_tw u1 \<noteq> nr_pkts_in_tw u)"
    and u': "u' = (if nr_pkts_in_tw u1 \<noteq> 0 then kick_tw cpu u1 else u1)"
    using assms by (auto simp: tw_cb_def Let_def not_le split: prod.splits if_splits)
  have s: "length sent \<le> 32" "nr_pkts_in_tw u1 = nr_pkts_in_tw u - of_nat (length sent)" "has_kick u1 = 0"
    "\<forall>f \<in> set sent. ld32 56 f = bpf_htonl (ucast now)"
    using tw_batch_sent [OF b] by simp_all
  have "of_nat (length sent) = (0 :: u32) \<longleftrightarrow> sent = []"
    using s(1) by (simp add: word_of_nat_eq_0_iff) (auto dest: dvd_imp_le)
  then have "flushed \<longleftrightarrow> sent \<noteq> []" using f s(2) by (metis diff_eq_eq add_cancel_right_right)
  moreover have "\<not> MAX_CPU \<le> cpu" using assms(1) by (simp add: not_le)
  ultimately show ?thesis using s u' by (simp add: kick_tw_def Let_def)
qed

theorem tw_cb_accounting_witness:
  "let r = tw_cb 0 list_pkt_queue (\<lambda>_. True) (\<lambda>_. True) 900
             (Some (\<lambda>_. [])) (init_cpu\<lparr>front_timestamp := 2, nr_pkts_in_tw := 1\<rparr>)
   in length (fst r) \<le> 32 \<and> has_kick (snd (snd (snd r))) \<noteq> 0"
proof -
  have "tw_batch 32 list_pkt_queue (\<lambda>_. True) (\<lambda>_. True) 900 False (\<lambda>_. [])
      (init_cpu\<lparr>front_timestamp := 2, nr_pkts_in_tw := 1, has_kick := 0\<rparr>)
    = ([], \<lambda>_. [], init_cpu\<lparr>front_timestamp := 2, nr_pkts_in_tw := 1, has_kick := 0\<rparr>)"
    by (rule tw_batch_idle) (simp_all add: tw_extract_def tw_scan_ahead Let_def word_le_nat_alt)
  then show ?thesis
    using tw_cb_accounting [of 0 list_pkt_queue "\<lambda>_. True" "\<lambda>_. True" 900 "\<lambda>_. []"
      "init_cpu\<lparr>front_timestamp := 2, nr_pkts_in_tw := 1\<rparr>" "[]" False "Some (\<lambda>_. [])"
      "init_cpu\<lparr>front_timestamp := 2, nr_pkts_in_tw := 1, has_kick := 1, twt_ready := True, timer_started := 1\<rparr>"]
    by (simp add: tw_cb_def kick_tw_def Let_def init_cpu_def)
qed

end
