(* ===== verification/Tcp_Mtp.thy ===== *)
theory Tcp_Mtp
  imports Seq_Window Ack_Ring Tcp_Headers Timing_Wheel
begin

text \<open>
  The event processors of the TCP transport (\<open>eBPF/tcp/mtp_tcp.h\<close>): \<open>send_ep\<close> for
  application data, \<open>ack_timeout_xdp_ep\<close> for timeouts, \<open>fast_retr_rec_ep\<close> and
  \<open>ack_net_ep\<close> for acknowledgements, and the chain \<open>verify_trim_data_ep\<close>,
  \<open>detect_ooo_data_ep\<close>, \<open>flush_ooo_data_ep\<close>, \<open>data_net_ep\<close>, \<open>send_ack\<close> for data.

  The receive processors share their arguments, which form the record
  \<open>ep_state\<close>.  The code leaves the intermediate output uninitialised on the
  stack; its initial contents are an argument.  Two code paths dereference a null
  pointer; they yield the error value \<open>Null_deref\<close>.
\<close>

section \<open>Definitions\<close>

datatype error = Null_deref

record ep_state =
  ep_ev :: net_event
  ep_c :: bpf_tcp_conn
  ep_out :: interm_out
  ep_meta :: meta_info
  ep_cc :: bpf_cc
  ep_cpu :: tcp_cpu

subsection \<open>Wrappers\<close>

text \<open>Advancing and rewinding a position in the circular transmit buffer.\<close>

definition pos_forward :: "bpf_tcp_conn \<Rightarrow> u32 \<Rightarrow> u32" where
  "pos_forward c n =
    (let pos = tx_next_pos c + n in if pos \<ge> tx_buf_size c then pos - tx_buf_size c else pos)"

definition pos_back :: "bpf_tcp_conn \<Rightarrow> u32 \<Rightarrow> u32" where
  "pos_back c n =
    (if tx_next_pos c \<ge> n then tx_next_pos c - n else tx_buf_size c - (n - tx_next_pos c))"

text \<open>
  \<open>hdrs\<close> holds the pointers to the TCP and the IP header, \<open>None\<close> when the caller
  passes null pointers.
\<close>

definition mtp_pkt_gen_wrapper ::
  "bool \<Rightarrow> TCPBP \<Rightarrow> bpf_tcp_conn \<Rightarrow> (nat \<times> nat) option \<Rightarrow> bytes \<Rightarrow> u32 \<Rightarrow> u32 \<Rightarrow> u8 \<Rightarrow> meta_info
   \<Rightarrow> error + bpf_tcp_conn \<times> bytes \<times> meta_info"
where
  "mtp_pkt_gen_wrapper seg_unseg bp c hdrs p data_size seq_num ev_type data_meta =
    (if seg_unseg = SEG_DATA \<or> buf_curr_seq c < seq_num then
       let c = c\<lparr>buf_curr_seq := buf_curr_seq c + data_size, tx_next_pos := pos_forward c data_size\<rparr>
       in case hdrs of
            None \<Rightarrow> Inl Null_deref
          | Some (tcph, iph) \<Rightarrow>
              Inr (c, fill_ip_hdr iph data_size (ecn_enable c \<noteq> 0) (mtp_fill_tcp_hdr tcph c 0 bp p), data_meta)
     else
       let go_back_bytes = buf_curr_seq c - seq_num;
           c = c\<lparr>buf_curr_seq := buf_curr_seq c - go_back_bytes, tx_next_pos := pos_back c go_back_bytes\<rparr>;
           data_meta = upd_rx (\<lambda>r. r\<lparr>rx_ack_bytes := tx_next_pos c, rx_xsk_budget_avail := xsk_budget_avail c,
             rx_rx_pos := POISON_32, rx_poff := POISON_16, rx_plen := POISON_16\<rparr>) data_meta;
           data_meta =
             (if ev_type = TIMER_EVENT then
                upd_rx (\<lambda>r. r\<lparr>rx_qid := POISON_32, rx_conn := opaque_connection c,
                  rx_ack_bytes := rx_ack_bytes r OR RECOVERY_MASK, rx_ooo_bump := POISON_32\<rparr>) data_meta
              else if ev_type = NET_EVENT then
                upd_rx (\<lambda>r. r\<lparr>rx_ack_bytes := rx_ack_bytes r OR RECOVERY_MASK\<rparr>) data_meta
              else data_meta)
       in Inr (c, p, data_meta))"

definition mtp_pkt_gen_for_xdp_gen :: "TCPBP \<Rightarrow> bpf_tcp_conn \<Rightarrow> tcp_cpu \<Rightarrow> error + bpf_tcp_conn \<times> tcp_cpu" where
  "mtp_pkt_gen_for_xdp_gen bp c u =
    (let prod = ack_prod u; cons = ack_cons u
     in if cons = (prod + 1) AND (NAPI_BATCH_SIZE - 1) then Inl Null_deref
        else case ack_lookup u prod of
            None \<Rightarrow> Inr (c, u)
          | Some ack \<Rightarrow>
              let ack = ack\<lparr>ak_local_ip := local_ip c, ak_remote_ip := remote_ip c,
                    ak_local_port := bp_src_port bp, ak_remote_port := bp_dest_port bp,
                    ak_seq := bp_seq_num bp, ak_ack := bp_ack_seq bp, ak_rxwnd := ucast (bp_rwnd_size bp),
                    ak_is_ack := (if bp_is_ack bp then 1 else 0),
                    ak_ts_val := bp_desired_tx_ts bp, ak_ts_ecr := tx_next_ts c\<rparr>
              in Inr (c\<lparr>tx_next_ts := 0\<rparr>,
                      u\<lparr>ack_map := (ack_map u)[unat prod := ack],
                        ack_prod := (ack_prod u + 1) AND (NAPI_BATCH_SIZE - 1)\<rparr>))"

definition mtp_tx_data_flush :: "u32 \<Rightarrow> ep_state \<Rightarrow> ep_state" where
  "mtp_tx_data_flush rmlen s =
    (if rmlen > 0 \<or> xsk_budget_avail (ep_c s) \<noteq> 0 then
       s\<lparr>ep_out := (ep_out s)\<lparr>io_drop := False\<rparr>,
         ep_meta := upd_rx (\<lambda>r. r\<lparr>rx_ack_bytes := rmlen, rx_xsk_budget_avail := xsk_budget_avail (ep_c s),
           rx_rx_pos := POISON_32, rx_poff := POISON_16, rx_plen := POISON_16\<rparr>) (ep_meta s)\<rparr>
     else s)"

definition mtp_add_data_seg_wrapper :: "u32 \<Rightarrow> u32 \<Rightarrow> ep_state \<Rightarrow> ep_state" where
  "mtp_add_data_seg_wrapper data_len offset s =
    (if data_len \<noteq> 0 \<or> xsk_budget_avail (ep_c s) \<noteq> 0 then
       let s = s\<lparr>ep_out := (ep_out s)\<lparr>io_drop := False\<rparr>,
                 ep_meta := upd_rx (\<lambda>r. r\<lparr>rx_rx_pos := offset,
                   rx_xsk_budget_avail := xsk_budget_avail (ep_c s)\<rparr>) (ep_meta s)\<rparr>
       in if data_len = 0 then
            s\<lparr>ep_meta := upd_rx (\<lambda>r. r\<lparr>rx_rx_pos := POISON_32, rx_poff := POISON_16,
              rx_plen := POISON_16\<rparr>) (ep_meta s)\<rparr>
          else s
     else s)"

subsection \<open>Events\<close>

text \<open>The event struct is on the stack of the caller; \<open>ev\<close> is what it holds before the call.\<close>

definition parse_req_to_app_event :: "app_timer_event \<Rightarrow> meta_info \<Rightarrow> app_timer_event" where
  "parse_req_to_app_event ev data_meta = ev\<lparr>at_type := APP_EVENT, at_data_size := tx_plen (meta_tx data_meta)\<rparr>"

definition parse_req_to_timer_event :: "app_timer_event \<Rightarrow> meta_info \<Rightarrow> app_timer_event" where
  "parse_req_to_timer_event ev data_meta = ev\<lparr>at_type := TIMER_EVENT\<rparr>"

subsection \<open>Transmit processors\<close>

definition send_bp :: "bpf_tcp_conn \<Rightarrow> u64 \<Rightarrow> TCPBP" where
  "send_bp c desired_tx_ts = \<lparr> bp_src_port = local_port c, bp_dest_port = remote_port c,
     bp_seq_num = tx_next_seq c, bp_ack_seq = rx_next_seq c, bp_is_ack = False,
     bp_rwnd_size = ucast (rx_avail c), bp_desired_tx_ts = ucast desired_tx_ts \<rparr>"

definition send_ep ::
  "app_timer_event \<Rightarrow> bpf_tcp_conn \<Rightarrow> bpf_cc \<Rightarrow> (nat \<times> nat) option \<Rightarrow> bytes \<Rightarrow> meta_info
   \<Rightarrow> error + bpf_tcp_conn \<times> bpf_cc \<times> bytes \<times> meta_info"
where
  "send_ep ev c cc hdrs p data_meta =
    (let c = c\<lparr>data_end := data_end c + at_data_size ev\<rparr>;
         ns_delta = 1000000000 * ucast (at_data_size ev) div ucast (cc_rate cc);
         desired_tx_ts = cc_prev_desired_tx_ts cc + ns_delta;
         desired_tx_ts = c_max (ucast (at_timestamp ev)) desired_tx_ts;
         cc = cc\<lparr>cc_prev_desired_tx_ts := desired_tx_ts\<rparr>;
         bp = send_bp c desired_tx_ts
     in case mtp_pkt_gen_wrapper SEG_DATA bp c hdrs p (at_data_size ev) 0 0 data_meta of
          Inl e \<Rightarrow> Inl e
        | Inr (c, p, data_meta) \<Rightarrow>
            let c = c\<lparr>tx_next_seq := tx_next_seq c + at_data_size ev\<rparr>;
                cc = cc\<lparr>cc_txp := (if tx_next_seq c \<noteq> send_una c then 1 else 0)\<rparr>
            in Inr (c, cc, p, data_meta))"

text \<open>What a timeout and a third duplicate acknowledgement have in common.\<close>

definition cut_rate :: "bpf_cc \<Rightarrow> bpf_cc" where
  "cut_rate cc =
    (let cc = (if cc_cnt_tx_drops cc = 0 then cc\<lparr>cc_rate := drop_bit 1 (cc_rate cc)\<rparr> else cc)
     in cc\<lparr>cc_cnt_tx_drops := cc_cnt_tx_drops cc + 1\<rparr>)"

definition go_back :: "u32 \<Rightarrow> bpf_tcp_conn \<Rightarrow> bpf_tcp_conn" where
  "go_back n c = c\<lparr>tx_next_seq := tx_next_seq c - n, rx_remote_avail := rx_remote_avail c + n,
     data_end := data_end c - n\<rparr>"

definition ack_timeout_xdp_ep ::
  "bpf_tcp_conn \<Rightarrow> bpf_cc \<Rightarrow> bytes \<Rightarrow> meta_info \<Rightarrow> error + xdp_action \<times> bpf_tcp_conn \<times> bpf_cc \<times> meta_info"
where
  "ack_timeout_xdp_ep c cc p data_meta =
    (if tx_next_seq c = send_una c then Inr (XDP_DROP, c, cc, data_meta)
     else
       let go_back_bytes = tx_next_seq c - send_una c;
           c = go_back go_back_bytes (c\<lparr>rx_dupack_cnt := 0\<rparr>);
           cc = cut_rate (cc\<lparr>cc_txp := 0\<rparr>)
       in case mtp_pkt_gen_wrapper UNSEG_DATA zero_bp c None p 0 (send_una c) TIMER_EVENT data_meta of
            Inl e \<Rightarrow> Inl e
          | Inr (c, p, data_meta) \<Rightarrow> Inr (XDP_PASS, c, cc, data_meta))"

subsection \<open>Acknowledgement processors\<close>

definition fast_retr_rec_ep :: "ep_state \<Rightarrow> ep_state" where
  "fast_retr_rec_ep s =
    (let ev = ep_ev s; c = ep_c s; cc = ep_cc s; int_out = (ep_out s)\<lparr>io_drop := True\<rparr>;
         exp_ack_first = send_una c; exp_ack_last = tx_next_seq c
     in if (if exp_ack_first \<le> exp_ack_last
            then ev_ack_seq ev < exp_ack_first \<or> ev_ack_seq ev > exp_ack_last
            else exp_ack_first > ev_ack_seq ev \<and> ev_ack_seq ev > exp_ack_last)
        then s\<lparr>ep_out := int_out\<rparr>
        else
          let num_acked = ev_ack_seq ev - exp_ack_first;
              int_out = int_out\<lparr>io_num_acked_bytes := num_acked, io_drop := False\<rparr>;
              cc = cc\<lparr>cc_cnt_rx_ack_bytes := cc_cnt_rx_ack_bytes cc + num_acked\<rparr>;
              cc = (if ev_ecn_mark ev then cc\<lparr>cc_cnt_rx_ecn_bytes := cc_cnt_rx_ecn_bytes cc + num_acked\<rparr> else cc);
              cc = cc\<lparr>cc_txp := (if tx_next_seq c \<noteq> send_una c then 1 else 0)\<rparr>;
              int_out = int_out\<lparr>io_change_cwnd := True\<rparr>
          in if num_acked \<noteq> 0 then
               s\<lparr>ep_c := c\<lparr>rx_dupack_cnt := 0\<rparr>, ep_cc := cc, ep_out := int_out\<rparr>
             else if rx_remote_avail c = push_bit TCP_WND_SCALE (ev_rwnd_size ev) then
               let c = c\<lparr>rx_dupack_cnt := rx_dupack_cnt c + 1\<rparr>
               in if rx_dupack_cnt c = 3 then
                    s\<lparr>ep_c := go_back (tx_next_seq c - send_una c) c, ep_cc := cut_rate (cc\<lparr>cc_txp := 0\<rparr>),
                      ep_out := int_out\<lparr>io_change_cwnd := False\<rparr>\<rparr>
                  else s\<lparr>ep_c := c, ep_cc := cc, ep_out := int_out\<rparr>
             else s\<lparr>ep_c := c, ep_cc := cc, ep_out := int_out\<rparr>)"

text \<open>
  The round-trip time sample in microseconds.  The product is a 32-bit
  multiplication, the quotient a 64-bit division, the subtraction wraps at 32 bits.
\<close>

definition rtt_sample :: "u32 \<Rightarrow> u32 \<Rightarrow> u32 \<Rightarrow> u32" where
  "rtt_sample now ts_ecr acked =
    (now - ts_ecr) div 1000 - ucast ((ucast (acked * 1000000) :: u64) div LINK_BANDWIDTH)"

definition update_rtt :: "u32 \<Rightarrow> bpf_cc \<Rightarrow> bpf_cc" where
  "update_rtt rtt cc =
    (if rtt < TCP_MAX_RTT then
       cc\<lparr>cc_rtt_est := (if cc_rtt_est cc \<noteq> 0 then (cc_rtt_est cc * 7 + rtt) div 8 else rtt)\<rparr>
     else cc)"

definition ack_net_ep :: "u64 \<Rightarrow> bytes \<Rightarrow> ep_state \<Rightarrow> error + ep_state" where
  "ack_net_ep ktime p s =
    (let ev = ep_ev s; c = ep_c s
     in if rx_dupack_cnt c = 3 then
          let c = c\<lparr>rx_dupack_cnt := 0\<rparr>
          in case mtp_pkt_gen_wrapper UNSEG_DATA zero_bp c None p 0 (send_una c) NET_EVENT (ep_meta s) of
               Inl e \<Rightarrow> Inl e
             | Inr (c, p, data_meta) \<Rightarrow>
                 Inr (s\<lparr>ep_out := (ep_out s)\<lparr>io_drop := False\<rparr>, ep_c := c, ep_meta := data_meta\<rparr>)
        else
          let acked = io_num_acked_bytes (ep_out s);
              wnd = push_bit TCP_WND_SCALE (ev_rwnd_size ev);
              s = (if \<not> io_drop (ep_out s) then
                     let c = (if acked \<noteq> 0 \<or> rx_remote_avail c < wnd then c\<lparr>rx_remote_avail := wnd\<rparr> else c);
                         cc = (if ev_ts_ecr ev \<noteq> 0 \<and> acked \<noteq> 0
                               then update_rtt (rtt_sample (ucast ktime) (ev_ts_ecr ev) acked) (ep_cc s)
                               else ep_cc s)
                     in s\<lparr>ep_c := c, ep_cc := cc\<rparr>
                   else s);
              s = (if acked > 0 then s\<lparr>ep_c := (ep_c s)\<lparr>send_una := ev_ack_seq ev\<rparr>\<rparr> else s)
          in Inr (mtp_tx_data_flush acked s))"

subsection \<open>Data processors\<close>

text \<open>
  The window test and the trims in \<open>verify_trim_data_ep\<close> and \<open>flush_ooo_data_ep\<close>
  are, line for line, the body of \<open>tcp_valid_rxseq_ooo\<close>; the payload starts behind
  66 bytes of headers.
\<close>

definition verify_trim_data_ep :: "ep_state \<Rightarrow> ep_state" where
  "verify_trim_data_ep s =
    (let ev = ep_ev s;
         int_out = (ep_out s)\<lparr>io_skip_data_eps := False, io_drop := True, io_trigger_ack := True\<rparr>
     in case tcp_valid_rxseq_ooo (ep_c s) (ev_seq_num ev) (ev_data_len ev) of
          None \<Rightarrow> s\<lparr>ep_out := int_out\<lparr>io_skip_data_eps := True, io_trigger_ack := False\<rparr>\<rparr>
        | Some (trim_start, trim_end) \<Rightarrow>
            let payload_off = 66 + trim_start;
                data_len = trim_payload (ev_data_len ev) trim_start trim_end
            in s\<lparr>ep_out := int_out,
                 ep_meta := upd_rx (\<lambda>r. r\<lparr>rx_poff := ucast payload_off, rx_plen := ucast data_len\<rparr>) (ep_meta s),
                 ep_ev := ev\<lparr>ev_data_len := data_len, ev_seq_num := ev_seq_num ev + trim_start\<rparr>\<rparr>)"

definition detect_ooo_data_ep :: "ep_state \<Rightarrow> ep_state" where
  "detect_ooo_data_ep s =
    (let ev = ep_ev s; c = ep_c s
     in if io_skip_data_eps (ep_out s) then s
        else if ev_seq_num ev \<noteq> rx_next_seq c then
          let skip = s\<lparr>ep_out := (ep_out s)\<lparr>io_skip_data_eps := True\<rparr>\<rparr>
          in if ev_data_len ev = 0 then skip
             else if rx_ooo_len c = 0 then
               skip\<lparr>ep_c := c\<lparr>rx_ooo_start := ev_seq_num ev, rx_ooo_len := ev_data_len ev\<rparr>\<rparr>
             else if ev_seq_num ev + ev_data_len ev = rx_ooo_start c then
               skip\<lparr>ep_c := c\<lparr>rx_ooo_start := ev_seq_num ev, rx_ooo_len := rx_ooo_len c + ev_data_len ev\<rparr>\<rparr>
             else if rx_ooo_start c + rx_ooo_len c = ev_seq_num ev then
               skip\<lparr>ep_c := c\<lparr>rx_ooo_len := rx_ooo_len c + ev_data_len ev\<rparr>\<rparr>
             else
               skip\<lparr>ep_ev := ev\<lparr>ev_data_len := 0\<rparr>,
                    ep_meta := upd_rx (\<lambda>r. r\<lparr>rx_plen := POISON_16\<rparr>) (ep_meta s)\<rparr>
        else s)"

text \<open>The part of \<open>flush_ooo_data_ep\<close> that merges the stored interval after new payload arrived.\<close>

definition flush_interval :: "ep_state \<Rightarrow> ep_state" where
  "flush_interval s =
    (let c = ep_c s
     in if rx_ooo_len c = 0 then s
        else case tcp_valid_rxseq_ooo c (rx_ooo_start c) (rx_ooo_len c) of
            None \<Rightarrow> s\<lparr>ep_out := (ep_out s)\<lparr>io_trigger_ack := False\<rparr>\<rparr>
          | Some (trim_start, trim_end) \<Rightarrow>
              let c = c\<lparr>rx_ooo_start := rx_ooo_start c + trim_start,
                        rx_ooo_len := rx_ooo_len c - (trim_start + trim_end)\<rparr>
              in if rx_ooo_len c \<noteq> 0 \<and> rx_ooo_start c = rx_next_seq c then
                   s\<lparr>ep_c := c\<lparr>rx_avail := rx_avail c - rx_ooo_len c, rx_next_seq := rx_next_seq c + rx_ooo_len c,
                              rx_ooo_len := 0\<rparr>\<rparr>
                 else s\<lparr>ep_c := c\<rparr>)"

definition flush_ooo_data_ep :: "ep_state \<Rightarrow> ep_state" where
  "flush_ooo_data_ep s =
    (let ev = ep_ev s; c = ep_c s; wnd = push_bit TCP_WND_SCALE (ev_rwnd_size ev);
         c = (if rx_remote_avail c < wnd then c\<lparr>rx_remote_avail := wnd\<rparr> else c);
         c = (if ev_data_len ev \<noteq> 0 \<and> tx_next_ts c = 0 then c\<lparr>tx_next_ts := ev_ts_val ev\<rparr> else c)
     in if ev_data_len ev \<noteq> 0 then
          flush_interval (s\<lparr>ep_c := c\<lparr>rx_avail := rx_avail c - ev_data_len ev,
                                      rx_next_seq := rx_next_seq c + ev_data_len ev\<rparr>\<rparr>)
        else s\<lparr>ep_c := c\<rparr>)"

definition data_net_ep :: "ep_state \<Rightarrow> ep_state" where
  "data_net_ep s =
    mtp_add_data_seg_wrapper (ev_data_len (ep_ev s)) (ev_seq_num (ep_ev s) - recv_init_seq (ep_c s)) s"

definition ack_bp :: "net_event \<Rightarrow> bpf_tcp_conn \<Rightarrow> TCPBP" where
  "ack_bp ev c = \<lparr> bp_src_port = local_port c, bp_dest_port = remote_port c, bp_seq_num = tx_next_seq c,
     bp_ack_seq = rx_next_seq c, bp_is_ack = True, bp_rwnd_size = ucast (rx_avail c),
     bp_desired_tx_ts = ev_timestamp ev \<rparr>"

definition send_ack :: "ep_state \<Rightarrow> error + ep_state" where
  "send_ack s =
    (if \<not> io_trigger_ack (ep_out s) then Inr s
     else case mtp_pkt_gen_for_xdp_gen (ack_bp (ep_ev s) (ep_c s)) (ep_c s) (ep_cpu s) of
         Inl e \<Rightarrow> Inl e
       | Inr (c, u) \<Rightarrow> Inr (s\<lparr>ep_c := c, ep_cpu := u\<rparr>))"

subsection \<open>Dispatch\<close>

text \<open>
  \<open>tcp_rx_process\<close> in the configuration with \<open>MTP_ON\<close>: the chain for
  acknowledgements and the chain for data.  \<open>ktime\<close> is the clock reading for the
  event, \<open>ktime2\<close> the one for the round-trip sample.
\<close>

definition rx_now :: "u64 \<Rightarrow> tcp_cpu \<Rightarrow> u32" where
  "rx_now ktime u = (if rx_cached_ts u = 0 then ucast ktime else ucast (rx_cached_ts u))"

definition data_chain :: "ep_state \<Rightarrow> error + ep_state" where
  "data_chain s = send_ack (data_net_ep (flush_ooo_data_ep (detect_ooo_data_ep (verify_trim_data_ep s))))"

definition ack_chain :: "u64 \<Rightarrow> bytes \<Rightarrow> ep_state \<Rightarrow> error + ep_state" where
  "ack_chain ktime2 p s =
    ack_net_ep ktime2 p (fast_retr_rec_ep (s\<lparr>ep_cc := (ep_cc s)\<lparr>cc_cnt_rx_acks := cc_cnt_rx_acks (ep_cc s) + 1\<rparr>\<rparr>))"

definition rx_dispatch :: "u64 \<Rightarrow> u64 \<Rightarrow> bytes \<Rightarrow> ep_state \<Rightarrow> error + xdp_action \<times> ep_state" where
  "rx_dispatch ktime ktime2 p s =
    (let s = s\<lparr>ep_ev := (ep_ev s)\<lparr>ev_timestamp := rx_now ktime (ep_cpu s)\<rparr>\<rparr>;
         done = (\<lambda>r. case r of Inl e \<Rightarrow> Inl e
                  | Inr s \<Rightarrow> Inr (if io_drop (ep_out s) then XDP_DROP else XDP_REDIRECT, s))
     in if ev_minor_type (ep_ev s) = NET_EVENT_ACK then done (ack_chain ktime2 p s)
        else if ev_minor_type (ep_ev s) = NET_EVENT_DATA then done (data_chain s)
        else Inr (XDP_DROP, s))"

end
