(* ===== verification/Tcp_Sender.thy ===== *)
theory Tcp_Sender
  imports Tcp_Mtp
begin

text \<open>
  Correctness of the sending half of a connection.  The event processors keep a
  circular transmit buffer, of which user space owns the contents: they tell it
  how far to advance (acknowledged bytes) and where to start again after a loss
  (\<open>go_back_pos\<close>).  The specification is a go-back-N sender over the positions
  of the oldest unacknowledged byte; the processors refine it in every
  interleaving of transmissions, acknowledgements and timeouts.
\<close>

section \<open>Specification\<close>

text \<open>Bytes sent and not acknowledged, and the buffer position of the oldest of them.\<close>

definition inflight :: "bpf_tcp_conn \<Rightarrow> u32" where
  "inflight c = tx_next_seq c - send_una c"

definition una_pos :: "bpf_tcp_conn \<Rightarrow> nat" where
  "una_pos c = (unat (tx_next_pos c) + unat (tx_buf_size c) - unat (inflight c)) mod unat (tx_buf_size c)"

definition snd_wf :: "bpf_tcp_conn \<Rightarrow> bool" where
  "snd_wf c \<longleftrightarrow> tx_buf_size c \<le> 0x80000000 \<and> tx_next_pos c < tx_buf_size c
    \<and> buf_curr_seq c = tx_next_seq c \<and> inflight c \<le> tx_buf_size c \<and> rx_dupack_cnt c < 3"

text \<open>
  A step of the sender, labelled with the number of bytes it acknowledges: a
  transmission of at most the free buffer space, an acknowledgement of in-flight
  bytes or a duplicate, a timeout.
\<close>

inductive snd_step :: "bpf_tcp_conn \<times> bpf_cc \<Rightarrow> nat \<Rightarrow> bpf_tcp_conn \<times> bpf_cc \<Rightarrow> bool" where
  snd_send: "send_ep ev c cc hdrs p m = Inr (c', cc', p', m')
    \<Longrightarrow> unat (inflight c) + unat (at_data_size ev) \<le> unat (tx_buf_size c)
    \<Longrightarrow> snd_step (c, cc) 0 (c', cc')"
| snd_ack: "ack_chain ktime p s = Inr s' \<Longrightarrow> ep_c s = c \<Longrightarrow> ep_cc s = cc
    \<Longrightarrow> ev_ack_seq (ep_ev s) - send_una c \<le> inflight c
    \<Longrightarrow> snd_step (c, cc) (unat (ev_ack_seq (ep_ev s) - send_una c)) (ep_c s', ep_cc s')"
| snd_timeout: "ack_timeout_xdp_ep c cc p m = Inr (act, c', cc', m') \<Longrightarrow> snd_step (c, cc) 0 (c', cc')"

text \<open>Runs of the sender, with the total number of acknowledged bytes.\<close>

inductive snd_run :: "bpf_tcp_conn \<times> bpf_cc \<Rightarrow> nat \<Rightarrow> bpf_tcp_conn \<times> bpf_cc \<Rightarrow> bool" for s0 where
  snd_start: "snd_run s0 0 s0"
| snd_next: "snd_run s0 n s \<Longrightarrow> snd_step s k s' \<Longrightarrow> snd_run s0 (n + k) s'"

inductive_cases snd_stepE: "snd_step (c, cc) k s'"

section \<open>Positions in the circular buffer\<close>

lemma unat_pos_forward:
  assumes "tx_next_pos c < tx_buf_size c" "n \<le> tx_buf_size c" "tx_buf_size c \<le> 0x80000000"
  shows "unat (pos_forward c n) = (unat (tx_next_pos c) + unat n) mod unat (tx_buf_size c)"
proof -
  let ?s = "unat (tx_buf_size c)" and ?p = "unat (tx_next_pos c)" and ?n = "unat n"
  have b: "?p < ?s" "?n \<le> ?s" "?s \<le> 2147483648" using assms by (simp_all add: word_less_nat_alt word_le_nat_alt)
  have u: "unat (tx_next_pos c + n) = ?p + ?n" using b unat_add_lem [of "tx_next_pos c" n] by simp
  show ?thesis
  proof (cases "?p + ?n < ?s")
    case True
    then show ?thesis using u by (simp add: pos_forward_def Let_def word_le_nat_alt)
  next
    case False
    then have "unat (pos_forward c n) = ?p + ?n - ?s"
      using u by (simp add: pos_forward_def Let_def word_le_nat_alt unat_sub)
    moreover have "(?p + ?n) mod ?s = ?p + ?n - ?s" using False b by (simp add: le_mod_geq)
    ultimately show ?thesis by simp
  qed
qed

lemma unat_pos_back:
  assumes "tx_next_pos c < tx_buf_size c" "n \<le> tx_buf_size c"
  shows "unat (pos_back c n) = (unat (tx_next_pos c) + unat (tx_buf_size c) - unat n) mod unat (tx_buf_size c)"
proof -
  let ?s = "unat (tx_buf_size c)" and ?p = "unat (tx_next_pos c)" and ?n = "unat n"
  have b: "?p < ?s" "?n \<le> ?s" using assms by (simp_all add: word_less_nat_alt word_le_nat_alt)
  show ?thesis
  proof (cases "?n \<le> ?p")
    case True
    then have "unat (pos_back c n) = ?p - ?n" by (simp add: pos_back_def word_le_nat_alt unat_sub)
    moreover have "(?p + ?s - ?n) mod ?s = ?p - ?n" using True b by (simp add: le_mod_geq)
    ultimately show ?thesis by simp
  next
    case False
    then have "unat (n - tx_next_pos c) = ?n - ?p" by (simp add: word_le_nat_alt unat_sub)
    then have "unat (pos_back c n) = ?s - (?n - ?p)"
      using False b by (simp add: pos_back_def word_le_nat_alt unat_sub)
    then show ?thesis using False b by simp
  qed
qed

lemma ring_pos_send:
  fixes p s k n :: nat
  assumes "p < s" "k + n \<le> s"
  shows "((p + n) mod s + s - (k + n)) mod s = (p + s - k) mod s"
proof (cases "p + n < s")
  case False
  then have "(p + n) mod s = p + n - s" using assms by (simp add: le_mod_geq)
  moreover have "(p + s - k) mod s = p - k" using False assms by (simp add: le_mod_geq)
  ultimately show ?thesis using False assms by simp
qed (use assms in simp)

lemma ring_pos_ack:
  fixes p s k n :: nat
  assumes "p < s" "n \<le> k" "k \<le> s"
  shows "(p + s - (k - n)) mod s = ((p + s - k) mod s + n) mod s"
  using assms by (simp add: mod_add_left_eq)

section \<open>Effect of the processors on the send state\<close>

lemma rewind_effect:
  assumes "mtp_pkt_gen_wrapper UNSEG_DATA bp c None p n (send_una c) t m = Inr (c', p', m')"
  shows "\<not> buf_curr_seq c < send_una c"
    "c' = c\<lparr>buf_curr_seq := send_una c, tx_next_pos := pos_back c (buf_curr_seq c - send_una c)\<rparr>"
  using assms by (auto simp: mtp_pkt_gen_wrapper_def Let_def split: if_splits)

lemma send_ep_effect:
  assumes "send_ep ev c cc hdrs p m = Inr (c', cc', p', m')"
  shows "c' = c\<lparr>data_end := data_end c + at_data_size ev, buf_curr_seq := buf_curr_seq c + at_data_size ev,
    tx_next_pos := pos_forward c (at_data_size ev), tx_next_seq := tx_next_seq c + at_data_size ev\<rparr>"
  using assms
  by (auto simp: send_ep_def mtp_pkt_gen_wrapper_def Let_def pos_forward_def split: option.splits prod.splits)

lemma timeout_effect:
  assumes "ack_timeout_xdp_ep c cc p m = Inr (act, c', cc', m')"
  shows "(act = XDP_DROP \<and> c' = c \<and> cc' = cc \<and> m' = m \<and> inflight c = 0)
    \<or> (act = XDP_PASS \<and> inflight c \<noteq> 0 \<and> \<not> buf_curr_seq c < send_una c
       \<and> tx_next_seq c' = send_una c \<and> send_una c' = send_una c \<and> tx_buf_size c' = tx_buf_size c
       \<and> rx_dupack_cnt c' = 0 \<and> buf_curr_seq c' = send_una c \<and> tx_next_pos c' = pos_back c (buf_curr_seq c - send_una c))"
proof (cases "tx_next_seq c = send_una c")
  case True
  then show ?thesis using assms by (simp add: ack_timeout_xdp_ep_def inflight_def)
next
  case False
  let ?c = "go_back (tx_next_seq c - send_una c) (c\<lparr>rx_dupack_cnt := 0\<rparr>)"
  have "send_una ?c = send_una c" by (simp add: go_back_def)
  moreover obtain p' where "mtp_pkt_gen_wrapper UNSEG_DATA zero_bp ?c None p 0 (send_una ?c) TIMER_EVENT m = Inr (c', p', m')"
    and "act = XDP_PASS"
    using assms False by (auto simp: ack_timeout_xdp_ep_def Let_def go_back_def split: sum.splits)
  ultimately show ?thesis
    using False rewind_effect [of zero_bp ?c p 0 TIMER_EVENT m c' p' m']
    by (simp add: go_back_def inflight_def pos_back_def)
qed

lemma fast_retr_effect:
  assumes "ev_ack_seq (ep_ev s) - send_una (ep_c s) \<le> inflight (ep_c s)" "rx_dupack_cnt (ep_c s) < 3"
  defines "n \<equiv> ev_ack_seq (ep_ev s) - send_una (ep_c s)"
  defines "c \<equiv> ep_c s" and "s' \<equiv> fast_retr_rec_ep s"
  shows "ep_ev s' = ep_ev s \<and> ep_meta s' = ep_meta s
    \<and> io_num_acked_bytes (ep_out s') = n \<and> \<not> io_drop (ep_out s')
    \<and> (n \<noteq> 0 \<longrightarrow> rx_dupack_cnt (ep_c s') = 0)
    \<and> ((rx_dupack_cnt (ep_c s') < 3 \<and> (\<exists>d. ep_c s' = c\<lparr>rx_dupack_cnt := d\<rparr>))
       \<or> (n = 0 \<and> rx_dupack_cnt (ep_c s') = 3 \<and> ep_c s' = go_back (inflight c) (c\<lparr>rx_dupack_cnt := 3\<rparr>)))"
proof -
  have valid: "(if send_una c \<le> tx_next_seq c then ev_ack_seq (ep_ev s) < send_una c \<or> ev_ack_seq (ep_ev s) > tx_next_seq c
      else send_una c > ev_ack_seq (ep_ev s) \<and> ev_ack_seq (ep_ev s) > tx_next_seq c) = False"
    using assms(1) unfolding ack_range_bool c_def inflight_def by simp
  have d: "rx_dupack_cnt c + 1 \<noteq> 3 \<Longrightarrow> rx_dupack_cnt c + 1 < 3"
    using assms(2) unfolding c_def by (simp add: seq_nat word_unat_eq_iff split: if_splits)
  consider (new) "n \<noteq> 0" | (wnd) "n = 0" "rx_remote_avail c \<noteq> push_bit 3 (ev_rwnd_size (ep_ev s))"
    | (dup) "n = 0" "rx_remote_avail c = push_bit 3 (ev_rwnd_size (ep_ev s))" "rx_dupack_cnt c + 1 \<noteq> 3"
    | (third) "n = 0" "rx_remote_avail c = push_bit 3 (ev_rwnd_size (ep_ev s))" "rx_dupack_cnt c + 1 = 3" by blast
  then show ?thesis
  proof cases
    case new
    then show ?thesis unfolding s'_def fast_retr_rec_ep_def Let_def c_def [symmetric] n_def [symmetric] valid if_False
      by (auto simp: n_def c_def)
  next
    case wnd
    then show ?thesis using assms(2) unfolding s'_def fast_retr_rec_ep_def Let_def c_def [symmetric] valid if_False
      by (auto simp: n_def c_def intro: exI [of _ "rx_dupack_cnt (ep_c s)"])
  next
    case dup
    then show ?thesis using d unfolding s'_def fast_retr_rec_ep_def Let_def c_def [symmetric] valid if_False
      by (auto simp: n_def c_def)
  next
    case third
    then show ?thesis unfolding s'_def fast_retr_rec_ep_def Let_def c_def [symmetric] valid if_False
      by (simp add: n_def c_def go_back_def inflight_def)
  qed
qed

lemma fast_retr_cases:
  assumes "ev_ack_seq (ep_ev s) - send_una (ep_c s) \<le> inflight (ep_c s)" "rx_dupack_cnt (ep_c s) < 3"
  obtains (other) d where "ep_c (fast_retr_rec_ep s) = (ep_c s)\<lparr>rx_dupack_cnt := d\<rparr>" "d < 3"
    | (third) "ep_c (fast_retr_rec_ep s) = go_back (inflight (ep_c s)) ((ep_c s)\<lparr>rx_dupack_cnt := 3\<rparr>)"
      "ev_ack_seq (ep_ev s) = send_una (ep_c s)"
proof -
  define f where "f = fast_retr_rec_ep s"
  have "(rx_dupack_cnt (ep_c f) < 3 \<and> (\<exists>d. ep_c f = (ep_c s)\<lparr>rx_dupack_cnt := d\<rparr>))
    \<or> (ev_ack_seq (ep_ev s) - send_una (ep_c s) = 0 \<and> ep_c f = go_back (inflight (ep_c s)) ((ep_c s)\<lparr>rx_dupack_cnt := 3\<rparr>))"
    using fast_retr_effect [OF assms] unfolding f_def by blast
  then show thesis
  proof (elim disjE conjE exE)
    fix d
    assume "rx_dupack_cnt (ep_c f) < 3" "ep_c f = (ep_c s)\<lparr>rx_dupack_cnt := d\<rparr>"
    then show thesis using other unfolding f_def by simp
  next
    assume "ev_ack_seq (ep_ev s) - send_una (ep_c s) = 0"
      "ep_c f = go_back (inflight (ep_c s)) ((ep_c s)\<lparr>rx_dupack_cnt := 3\<rparr>)"
    then show thesis using third unfolding f_def by simp
  qed
qed

lemma ack_net_effect:
  assumes "ack_net_ep kt p s = Inr s'" "rx_dupack_cnt (ep_c s) \<noteq> 3"
  shows "\<exists>w. ep_c s' = (ep_c s)\<lparr>rx_remote_avail := w,
    send_una := (if io_num_acked_bytes (ep_out s) \<noteq> 0 then ev_ack_seq (ep_ev s) else send_una (ep_c s))\<rparr>"
proof -
  let ?w = "rx_remote_avail (ep_c s')"
  have "ep_c s' = (ep_c s)\<lparr>rx_remote_avail := ?w,
      send_una := (if io_num_acked_bytes (ep_out s) \<noteq> 0 then ev_ack_seq (ep_ev s) else send_una (ep_c s))\<rparr>"
    using assms by (auto simp: ack_net_ep_def mtp_tx_data_flush_def Let_def word_gt_0 split: if_splits)
  then show ?thesis by blast
qed

lemma ack_net_new:
  assumes "rx_dupack_cnt (ep_c s) = 0" "io_num_acked_bytes (ep_out s) \<noteq> 0" "\<not> io_drop (ep_out s)" "length (ep_meta s) = 32"
  shows "\<exists>s'. ack_net_ep kt p s = Inr s' \<and> \<not> io_drop (ep_out s')
    \<and> rx_ack_bytes (meta_rx (ep_meta s')) = io_num_acked_bytes (ep_out s)
    \<and> ep_c s' = (ep_c s)\<lparr>rx_remote_avail := push_bit TCP_WND_SCALE (ev_rwnd_size (ep_ev s)), send_una := ev_ack_seq (ep_ev s)\<rparr>"
  using assms by (simp add: ack_net_ep_def mtp_tx_data_flush_def Let_def word_gt_0)

lemma ack_net_third_dup:
  assumes "ack_net_ep kt p s = Inr s'" "rx_dupack_cnt (ep_c s) = 3"
  shows "\<not> buf_curr_seq (ep_c s) < send_una (ep_c s)"
    "ep_c s' = (ep_c s)\<lparr>rx_dupack_cnt := 0, buf_curr_seq := send_una (ep_c s),
      tx_next_pos := pos_back (ep_c s) (buf_curr_seq (ep_c s) - send_una (ep_c s))\<rparr>"
proof -
  let ?c = "(ep_c s)\<lparr>rx_dupack_cnt := 0\<rparr>"
  obtain p' m' where w: "mtp_pkt_gen_wrapper UNSEG_DATA zero_bp ?c None p 0 (send_una ?c) NET_EVENT (ep_meta s) = Inr (ep_c s', p', m')"
    using assms by (auto simp: ack_net_ep_def Let_def split: sum.splits)
  show "\<not> buf_curr_seq (ep_c s) < send_una (ep_c s)" using rewind_effect(1) [OF w] by simp
  show "ep_c s' = (ep_c s)\<lparr>rx_dupack_cnt := 0, buf_curr_seq := send_una (ep_c s),
      tx_next_pos := pos_back (ep_c s) (buf_curr_seq (ep_c s) - send_una (ep_c s))\<rparr>"
    using rewind_effect(2) [OF w] by (simp add: pos_back_def)
qed

text \<open>An acknowledgement either moves the left edge of the flight or rewinds to it.\<close>

lemma ack_chain_effect:
  assumes "ack_chain kt p s = Inr s'" "rx_dupack_cnt (ep_c s) < 3"
    "ev_ack_seq (ep_ev s) - send_una (ep_c s) \<le> inflight (ep_c s)"
  defines "c \<equiv> ep_c s" and "c' \<equiv> ep_c s'"
  shows "tx_buf_size c' = tx_buf_size c \<and> send_una c' = ev_ack_seq (ep_ev s) \<and> rx_dupack_cnt c' < 3
    \<and> ((tx_next_seq c' = tx_next_seq c \<and> tx_next_pos c' = tx_next_pos c \<and> buf_curr_seq c' = buf_curr_seq c)
       \<or> (ev_ack_seq (ep_ev s) = send_una c \<and> tx_next_seq c' = send_una c \<and> buf_curr_seq c' = send_una c
          \<and> tx_next_pos c' = pos_back c (buf_curr_seq c - send_una c)))"
proof -
  let ?s = "s\<lparr>ep_cc := (ep_cc s)\<lparr>cc_cnt_rx_acks := cc_cnt_rx_acks (ep_cc s) + 1\<rparr>\<rparr>"
  let ?f = "fast_retr_rec_ep ?s"
  have n: "ack_net_ep kt p ?f = Inr s'" using assms(1) by (simp add: ack_chain_def)
  have t: "ep_ev ?s = ep_ev s" "ep_c ?s = c" by (simp_all add: c_def)
  have le: "ev_ack_seq (ep_ev ?s) - send_una (ep_c ?s) \<le> inflight (ep_c ?s)" "rx_dupack_cnt (ep_c ?s) < 3"
    using assms(2,3) by simp_all
  have f: "ep_ev ?f = ep_ev s" "io_num_acked_bytes (ep_out ?f) = ev_ack_seq (ep_ev s) - send_una c"
    using fast_retr_effect [OF le] unfolding t by blast+
  from le show ?thesis
  proof (cases rule: fast_retr_cases)
    case third
    have "rx_dupack_cnt (ep_c ?f) = 3" unfolding third by (simp add: go_back_def)
    from ack_net_third_dup [OF n this] show ?thesis using third(2)
      unfolding third(1) t by (simp add: c'_def go_back_def inflight_def pos_back_def)
  next
    case (other d)
    have "rx_dupack_cnt (ep_c ?f) \<noteq> 3" using other(2) unfolding other(1) by auto
    from ack_net_effect [OF n this]
    obtain w where "ep_c s' = c\<lparr>rx_dupack_cnt := d, rx_remote_avail := w, send_una := ev_ack_seq (ep_ev s)\<rparr>"
      unfolding other(1) f t by (cases "ev_ack_seq (ep_ev s) = send_una c") auto
    then show ?thesis using other(2) by (simp add: c'_def)
  qed
qed

section \<open>Refinement of the go-back-N sender\<close>

lemma send_keeps:
  assumes "snd_wf c" "send_ep ev c cc hdrs p m = Inr (c', cc', p', m')"
    "unat (inflight c) + unat (at_data_size ev) \<le> unat (tx_buf_size c)"
  shows "snd_wf c' \<and> tx_buf_size c' = tx_buf_size c \<and> una_pos c' = una_pos c"
proof -
  let ?n = "at_data_size ev"
  have wf: "tx_next_pos c < tx_buf_size c" "tx_buf_size c \<le> 0x80000000" using assms(1) by (simp_all add: snd_wf_def)
  have n: "?n \<le> tx_buf_size c" using assms(3) by (simp add: word_le_nat_alt)
  have s: "unat (tx_buf_size c) \<le> 2147483648" "0 < unat (tx_buf_size c)"
    using wf by (simp_all add: word_le_nat_alt word_less_nat_alt)
  have c': "tx_buf_size c' = tx_buf_size c" "tx_next_pos c' = pos_forward c ?n" "inflight c' = inflight c + ?n"
    "buf_curr_seq c' = buf_curr_seq c + ?n" "tx_next_seq c' = tx_next_seq c + ?n" "rx_dupack_cnt c' = rx_dupack_cnt c"
    by (simp_all add: send_ep_effect [OF assms(2)] inflight_def)
  have k: "unat (inflight c + ?n) = unat (inflight c) + unat ?n"
    using assms(3) s unat_add_lem [of "inflight c" ?n] by simp
  have "unat (pos_forward c ?n) < unat (tx_buf_size c)"
    using unat_pos_forward [OF wf(1) n wf(2)] s by simp
  then have "snd_wf c'" using assms(1,3) c' k by (simp add: snd_wf_def word_less_nat_alt word_le_nat_alt)
  moreover have "una_pos c' = una_pos c"
    using ring_pos_send [of "unat (tx_next_pos c)" "unat (tx_buf_size c)" "unat (inflight c)" "unat ?n"] wf assms(3)
    unfolding una_pos_def c' k unat_pos_forward [OF wf(1) n wf(2)] by (simp add: word_less_nat_alt)
  ultimately show ?thesis using c' by simp
qed

lemma rewind_keeps:
  assumes "snd_wf c" "tx_next_seq c' = send_una c" "send_una c' = send_una c" "tx_buf_size c' = tx_buf_size c"
    "rx_dupack_cnt c' < 3" "buf_curr_seq c' = send_una c" "tx_next_pos c' = pos_back c (buf_curr_seq c - send_una c)"
  shows "snd_wf c' \<and> una_pos c' = una_pos c \<and> unat (tx_next_pos c') = una_pos c"
proof -
  have wf: "tx_next_pos c < tx_buf_size c" "buf_curr_seq c - send_una c = inflight c" "inflight c \<le> tx_buf_size c"
    using assms(1) by (simp_all add: snd_wf_def inflight_def)
  have p: "unat (tx_next_pos c') = una_pos c"
    using unat_pos_back [OF wf(1,3)] unfolding assms(7) wf(2) una_pos_def .
  have s: "0 < unat (tx_buf_size c)" using wf(1) by (simp add: word_less_nat_alt)
  then have "una_pos c < unat (tx_buf_size c)" by (simp add: una_pos_def)
  moreover have "inflight c' = 0" using assms by (simp add: inflight_def)
  ultimately show ?thesis
    using assms p by (simp add: snd_wf_def word_less_nat_alt una_pos_def [of c'])
qed

lemma ack_keeps:
  assumes "snd_wf c" "tx_next_seq c' = tx_next_seq c" "tx_next_pos c' = tx_next_pos c"
    "tx_buf_size c' = tx_buf_size c" "buf_curr_seq c' = buf_curr_seq c" "rx_dupack_cnt c' < 3"
    "send_una c' - send_una c \<le> inflight c"
  shows "snd_wf c' \<and> una_pos c' = (una_pos c + unat (send_una c' - send_una c)) mod unat (tx_buf_size c)"
proof -
  let ?n = "send_una c' - send_una c"
  have i: "inflight c' = inflight c - ?n" using assms(2) by (simp add: inflight_def)
  have n: "unat ?n \<le> unat (inflight c)" using assms(7) by (simp add: word_le_nat_alt)
  have k: "unat (inflight c') = unat (inflight c) - unat ?n" unfolding i by (rule unat_sub [OF assms(7)])
  have b: "unat (tx_next_pos c) < unat (tx_buf_size c)" "unat (inflight c) \<le> unat (tx_buf_size c)"
    using assms(1) by (simp_all add: snd_wf_def word_less_nat_alt word_le_nat_alt)
  have "snd_wf c'" using assms b k by (simp add: snd_wf_def word_le_nat_alt)
  then show ?thesis using ring_pos_ack [OF b(1) n b(2)] assms(3,4) by (simp add: una_pos_def k)
qed

lemma snd_step_keeps:
  assumes "snd_step (c, cc) k (c', cc')" "snd_wf c"
  shows "snd_wf c' \<and> tx_buf_size c' = tx_buf_size c
    \<and> una_pos c' = (una_pos c + k) mod unat (tx_buf_size c)"
proof -
  have s: "una_pos c mod unat (tx_buf_size c) = una_pos c" by (simp add: una_pos_def)
  from assms(1) show ?thesis
  proof (rule snd_stepE)
    fix ev hdrs p m c1 cc1 p' m'
    assume "k = 0" "(c', cc') = (c1, cc1)" "send_ep ev c cc hdrs p m = Inr (c1, cc1, p', m')"
      "unat (inflight c) + unat (at_data_size ev) \<le> unat (tx_buf_size c)"
    then show ?thesis using send_keeps [OF assms(2)] s by auto
  next
    fix kt p t t'
    assume a: "k = unat (ev_ack_seq (ep_ev t) - send_una c)" "(c', cc') = (ep_c t', ep_cc t')"
      "ack_chain kt p t = Inr t'" "ep_c t = c" "ev_ack_seq (ep_ev t) - send_una c \<le> inflight c"
    have "rx_dupack_cnt c < 3" using assms(2) by (simp add: snd_wf_def)
    with a ack_chain_effect [of kt p t t'] show ?thesis
      using ack_keeps [OF assms(2), of c'] rewind_keeps [OF assms(2), of c'] s by auto
  next
    fix p m act c1 cc1 m'
    assume "k = 0" "(c', cc') = (c1, cc1)" "ack_timeout_xdp_ep c cc p m = Inr (act, c1, cc1, m')"
    then show ?thesis
      using timeout_effect [of c cc p m act c1 cc1 m'] rewind_keeps [OF assms(2), of c1] assms(2) s by auto
  qed
qed

lemma snd_run_keeps:
  assumes "snd_run s0 n s" "snd_wf (fst s0)"
  shows "snd_wf (fst s) \<and> tx_buf_size (fst s) = tx_buf_size (fst s0)
    \<and> una_pos (fst s) = (una_pos (fst s0) + n) mod unat (tx_buf_size (fst s0))"
  using assms(1)
proof induction
  case snd_start
  then show ?case using assms(2) by (simp add: una_pos_def)
next
  case (snd_next n s k s')
  then show ?case
    using snd_step_keeps [of "fst s" "snd s" k "fst s'" "snd s'"] by (simp add: mod_add_left_eq add.assoc)
qed

section \<open>What user space is told\<close>

lemma recovery_mask:
  fixes x :: u32
  assumes "x < 0x80000000"
  shows "(x OR RECOVERY_MASK) AND 0x7fffffff = x"
proof -
  have "take_bit 31 x = x" using assms by (simp add: word_unat_eq_iff unsigned_take_bit_eq take_bit_nat_eq_self word_less_nat_alt)
  moreover have "take_bit 31 (0x80000000 :: u32) = 0" by simp
  moreover have "(x OR 0x80000000) AND 0x7fffffff = take_bit 31 (x OR 0x80000000)"
    by (simp add: take_bit_eq_mask mask_eq_exp_minus_1)
  ultimately show ?thesis by (simp only: take_bit_or or.right_neutral)
qed

lemma rewind_meta:
  assumes "mtp_pkt_gen_wrapper UNSEG_DATA bp c None p n (send_una c) t m = Inr (c', p', m')"
    "length m = 32" "t = TIMER_EVENT \<or> t = NET_EVENT"
  shows "rx_go_back_pos (meta_rx m') = tx_next_pos c' OR RECOVERY_MASK"
    "rx_xsk_budget_avail (meta_rx m') = rx_remote_avail c" "rx_plen (meta_rx m') = POISON_16"
  using assms by (auto simp: mtp_pkt_gen_wrapper_def xsk_budget_avail_def Let_def split: if_splits)

lemma snd_wf_una_pos:
  assumes "snd_wf c"
  shows "una_pos c < unat (tx_buf_size c)" "una_pos c < 2 ^ 31"
proof -
  have "0 < unat (tx_buf_size c)" "unat (tx_buf_size c) \<le> 2147483648"
    using assms by (auto simp: snd_wf_def word_less_nat_alt word_le_nat_alt)
  moreover from this(1) show "una_pos c < unat (tx_buf_size c)" by (simp add: una_pos_def)
  ultimately show "una_pos c < 2 ^ 31" by simp
qed

section \<open>Properties\<close>





text \<open>C34: the choice between segmentation and retransmission compares sequence numbers as plain
  integers; when the bytes in flight cross the wrap-around, a timeout takes the segmentation
  branch, whose header pointers are null.\<close>

theorem timeout_across_wrap_faults:
  assumes "snd_wf c" "tx_next_seq c < send_una c"
  shows "ack_timeout_xdp_ep c cc p m = Inl Null_deref"
  using assms by (auto simp: ack_timeout_xdp_ep_def mtp_pkt_gen_wrapper_def go_back_def snd_wf_def Let_def)

theorem timeout_across_wrap_faults_witness:
  "let c = zero_conn\<lparr>tx_buf_size := 1000, tx_next_seq := 5, buf_curr_seq := 5, send_una := 0xfffffffa\<rparr>
   in inflight c = 11 \<and> ack_timeout_xdp_ep c zero_cc [] (replicate 32 0) = Inl Null_deref"
  using timeout_across_wrap_faults [of "zero_conn\<lparr>tx_buf_size := 1000, tx_next_seq := 5, buf_curr_seq := 5,
      send_una := 0xfffffffa\<rparr>" zero_cc "[]" "replicate 32 0"]
  by (simp add: snd_wf_def zero_conn_def inflight_def)

text \<open>C32: an acknowledgement of new in-flight bytes is delivered to user space with exactly the
  number of newly acknowledged bytes, takes those bytes off the flight, installs the peer's scaled
  window and resets the duplicate count.\<close>

theorem new_ack_reported:
  assumes "rx_dupack_cnt (ep_c s) < 3" "length (ep_meta s) = 32"
    and "ev_ack_seq (ep_ev s) - send_una (ep_c s) \<le> inflight (ep_c s)" "ev_ack_seq (ep_ev s) \<noteq> send_una (ep_c s)"
  shows "\<exists>s'. ack_chain ktime p s = Inr s' \<and> \<not> io_drop (ep_out s')
    \<and> rx_ack_bytes (meta_rx (ep_meta s')) = ev_ack_seq (ep_ev s) - send_una (ep_c s)
    \<and> unat (inflight (ep_c s')) + unat (ev_ack_seq (ep_ev s) - send_una (ep_c s)) = unat (inflight (ep_c s))
    \<and> rx_remote_avail (ep_c s') = push_bit TCP_WND_SCALE (ev_rwnd_size (ep_ev s)) \<and> rx_dupack_cnt (ep_c s') = 0"
proof -
  let ?n = "ev_ack_seq (ep_ev s) - send_una (ep_c s)"
  let ?t = "s\<lparr>ep_cc := (ep_cc s)\<lparr>cc_cnt_rx_acks := cc_cnt_rx_acks (ep_cc s) + 1\<rparr>\<rparr>"
  define f where "f = fast_retr_rec_ep ?t"
  have n0: "?n \<noteq> 0" "0 < ?n" using assms(4) by (simp_all add: word_gt_0)
  have t: "ep_ev ?t = ep_ev s" "ep_c ?t = ep_c s" "ep_meta ?t = ep_meta s" by simp_all
  note fe = fast_retr_effect [of ?t, unfolded t, folded f_def, OF assms(3,1)]
  have d0: "rx_dupack_cnt (ep_c f) = 0"
    and f: "ep_ev f = ep_ev s" "ep_meta f = ep_meta s" "io_num_acked_bytes (ep_out f) = ?n" "\<not> io_drop (ep_out f)"
    using fe n0(1) by blast+
  obtain d where "ep_c f = (ep_c s)\<lparr>rx_dupack_cnt := d\<rparr>" using fe n0(1) by blast
  with d0 have c: "ep_c f = (ep_c s)\<lparr>rx_dupack_cnt := 0\<rparr>" by simp
  have "length (ep_meta f) = 32" "io_num_acked_bytes (ep_out f) \<noteq> 0" using f assms(2) n0(1) by simp_all
  from ack_net_new [OF d0 this(2) f(4) this(1)]
  obtain s' where s': "ack_net_ep ktime p f = Inr s'" "\<not> io_drop (ep_out s')" "rx_ack_bytes (meta_rx (ep_meta s')) = ?n"
    "ep_c s' = (ep_c s)\<lparr>rx_dupack_cnt := 0, rx_remote_avail := push_bit TCP_WND_SCALE (ev_rwnd_size (ep_ev s)), send_una := ev_ack_seq (ep_ev s)\<rparr>"
    unfolding c f by blast
  have a: "ack_chain ktime p s = Inr s'" unfolding ack_chain_def f_def [symmetric] by (rule s'(1))
  have "inflight (ep_c s') = inflight (ep_c s) - ?n" unfolding s'(4) by (simp add: inflight_def)
  then have "unat (inflight (ep_c s')) + unat ?n = unat (inflight (ep_c s))"
    using unat_sub [OF assms(3)] assms(3) by (simp add: word_le_nat_alt)
  moreover have "rx_remote_avail (ep_c s') = push_bit TCP_WND_SCALE (ev_rwnd_size (ep_ev s))" "rx_dupack_cnt (ep_c s') = 0"
    unfolding s'(4) by simp_all
  ultimately show ?thesis using a s'(2,3) by blast
qed

theorem new_ack_reported_witness:
  "\<forall>s. \<exists>s'. ack_chain 0 [] (s\<lparr>ep_c := zero_conn\<lparr>tx_next_seq := 9, send_una := 2\<rparr>, ep_meta := replicate 32 0,
      ep_ev := (ep_ev s)\<lparr>ev_ack_seq := 7\<rparr>\<rparr>) = Inr s' \<and> rx_ack_bytes (meta_rx (ep_meta s')) = 5"
proof
  fix s
  show "\<exists>s'. ack_chain 0 [] (s\<lparr>ep_c := zero_conn\<lparr>tx_next_seq := 9, send_una := 2\<rparr>, ep_meta := replicate 32 0,
      ep_ev := (ep_ev s)\<lparr>ev_ack_seq := 7\<rparr>\<rparr>) = Inr s' \<and> rx_ack_bytes (meta_rx (ep_meta s')) = 5"
    using new_ack_reported [of "s\<lparr>ep_c := zero_conn\<lparr>tx_next_seq := 9, send_una := 2\<rparr>, ep_meta := replicate 32 0,
      ep_ev := (ep_ev s)\<lparr>ev_ack_seq := 7\<rparr>\<rparr>" 0 "[]"]
    by (auto simp: zero_conn_def inflight_def)
qed

end
