(* ===== verification/Tcp_Receiver.thy ===== *)
theory Tcp_Receiver
  imports Tcp_Mtp
begin

text \<open>
  Correctness of the receive side of the event processors (\<open>eBPF/tcp/mtp_tcp.h\<close>):
  what a data segment does to the receive window and to user space, what is queued
  for acknowledgement, and three behaviours of the chains on segments and
  acknowledgements that a peer may send and that the code does not handle.
\<close>

section \<open>Definitions\<close>

text \<open>The sequence number behind the last byte the peer may send.\<close>

definition right_edge :: "bpf_tcp_conn \<Rightarrow> u32" where
  "right_edge c = rx_next_seq c + rx_avail c"

text \<open>The acknowledgement that the data chain queues for a connection.\<close>

definition acks_conn :: "bpf_tcp_ack \<Rightarrow> bpf_tcp_conn \<Rightarrow> bool" where
  "acks_conn a c \<longleftrightarrow> ak_local_ip a = local_ip c \<and> ak_remote_ip a = remote_ip c \<and> ak_local_port a = local_port c
     \<and> ak_remote_port a = remote_port c \<and> ak_seq a = tx_next_seq c \<and> ak_ack a = rx_next_seq c"

section \<open>The right edge of the window\<close>

lemma verify_trim_c [simp]: "ep_c (verify_trim_data_ep s) = ep_c s"
  by (simp add: verify_trim_data_ep_def Let_def split: option.split prod.split)

lemma verify_trim_cpu [simp]: "ep_cpu (verify_trim_data_ep s) = ep_cpu s"
  by (simp add: verify_trim_data_ep_def Let_def split: option.split prod.split)

lemma detect_ooo_edge [simp]:
  "right_edge (ep_c (detect_ooo_data_ep s)) = right_edge (ep_c s)" "ep_cpu (detect_ooo_data_ep s) = ep_cpu s"
  by (simp_all add: detect_ooo_data_ep_def right_edge_def Let_def)

lemma flush_interval_edge [simp]:
  "right_edge (ep_c (flush_interval s)) = right_edge (ep_c s)" "ep_cpu (flush_interval s) = ep_cpu s"
  by (simp_all add: flush_interval_def right_edge_def Let_def split: option.split prod.split)

lemma flush_ooo_edge [simp]:
  "right_edge (ep_c (flush_ooo_data_ep s)) = right_edge (ep_c s)" "ep_cpu (flush_ooo_data_ep s) = ep_cpu s"
  by (simp_all add: flush_ooo_data_ep_def Let_def) (simp_all add: right_edge_def)

lemma data_net_c [simp]: "ep_c (data_net_ep s) = ep_c s" "ep_cpu (data_net_ep s) = ep_cpu s"
  "ep_ev (data_net_ep s) = ep_ev s" "io_trigger_ack (ep_out (data_net_ep s)) = io_trigger_ack (ep_out s)"
  by (simp_all add: data_net_ep_def mtp_add_data_seg_wrapper_def Let_def)

lemma send_ack_effect:
  assumes "send_ack s = Inr s'"
  shows "\<exists>t. ep_c s' = (ep_c s)\<lparr>tx_next_ts := t\<rparr>" "ep_meta s' = ep_meta s" "ep_out s' = ep_out s"
proof -
  have "ep_c s' = (ep_c s)\<lparr>tx_next_ts := tx_next_ts (ep_c s')\<rparr> \<and> ep_meta s' = ep_meta s \<and> ep_out s' = ep_out s"
    using assms by (auto simp: send_ack_def mtp_pkt_gen_for_xdp_gen_def Let_def split: if_splits sum.splits option.splits)
  then show "\<exists>t. ep_c s' = (ep_c s)\<lparr>tx_next_ts := t\<rparr>" "ep_meta s' = ep_meta s" "ep_out s' = ep_out s" by blast+
qed

lemma data_chain_edge:
  assumes "data_chain s = Inr s'"
  shows "right_edge (ep_c s') = right_edge (ep_c s)"
proof -
  let ?t = "data_net_ep (flush_ooo_data_ep (detect_ooo_data_ep (verify_trim_data_ep s)))"
  have "send_ack ?t = Inr s'" using assms by (simp add: data_chain_def)
  then obtain t where "ep_c s' = (ep_c ?t)\<lparr>tx_next_ts := t\<rparr>" using send_ack_effect(1) by blast
  then have "right_edge (ep_c s') = right_edge (ep_c ?t)" by (simp only: right_edge_def) simp
  then show ?thesis by simp
qed

section \<open>Queueing the acknowledgement\<close>

lemma send_ack_queues:
  assumes "ack_ring_wf (ep_cpu s)" "ack_ring_count (ep_cpu s) < 63" "io_trigger_ack (ep_out s)"
  shows "\<exists>s' a. send_ack s = Inr s' \<and> ep_c s' = (ep_c s)\<lparr>tx_next_ts := 0\<rparr> \<and> ack_ring_wf (ep_cpu s')
    \<and> ack_ring_list (ep_cpu s') = ack_ring_list (ep_cpu s) @ [a] \<and> acks_conn a (ep_c s)
    \<and> ak_ts_val a = ev_timestamp (ep_ev s) \<and> ak_ts_ecr a = tx_next_ts (ep_c s)
    \<and> ep_meta s' = ep_meta s \<and> ep_out s' = ep_out s"
proof -
  let ?u = "ep_cpu s" and ?c = "ep_c s" and ?bp = "ack_bp (ep_ev s) (ep_c s)"
  let ?a = "(ack_map ?u ! unat (ack_prod ?u))\<lparr>ak_local_ip := local_ip ?c, ak_remote_ip := remote_ip ?c,
      ak_local_port := bp_src_port ?bp, ak_remote_port := bp_dest_port ?bp,
      ak_seq := bp_seq_num ?bp, ak_ack := bp_ack_seq ?bp, ak_rxwnd := ucast (bp_rwnd_size ?bp),
      ak_is_ack := (if bp_is_ack ?bp then 1 else 0), ak_ts_val := bp_desired_tx_ts ?bp, ak_ts_ecr := tx_next_ts ?c\<rparr>"
  let ?u' = "?u\<lparr>ack_map := (ack_map ?u)[unat (ack_prod ?u) := ?a], ack_prod := (ack_prod ?u + 1) AND (NAPI_BATCH_SIZE - 1)\<rparr>"
  have nf: "ack_cons ?u \<noteq> (ack_prod ?u + 1) AND (NAPI_BATCH_SIZE - 1)"
    using ack_ring_full_iff [OF assms(1)] assms(2) by simp
  then have g: "mtp_pkt_gen_for_xdp_gen ?bp ?c ?u = Inr (?c\<lparr>tx_next_ts := 0\<rparr>, ?u')"
    using assms(1) by (simp add: mtp_pkt_gen_for_xdp_gen_def Let_def)
  have r: "ack_ring_wf ?u' \<and> ack_ring_list ?u' = ack_ring_list ?u @ [?a]"
    using assms(1,2) by (intro ring_append) simp_all
  have "send_ack s = Inr (s\<lparr>ep_c := ?c\<lparr>tx_next_ts := 0\<rparr>, ep_cpu := ?u'\<rparr>)"
    using assms(3) unfolding send_ack_def g by simp
  moreover have "acks_conn ?a ?c" "ak_ts_val ?a = ev_timestamp (ep_ev s)" "ak_ts_ecr ?a = tx_next_ts ?c"
    by (simp_all add: acks_conn_def ack_bp_def)
  ultimately show ?thesis using r
    by (intro exI [of _ "s\<lparr>ep_c := ?c\<lparr>tx_next_ts := 0\<rparr>, ep_cpu := ?u'\<rparr>"] exI [of _ ?a]) simp
qed

section \<open>The chain on an in-order segment\<close>

lemma verify_trim_accept:
  assumes "tcp_valid_rxseq_ooo (ep_c s) (ev_seq_num (ep_ev s)) (ev_data_len (ep_ev s)) = Some (ts, te)"
  shows "verify_trim_data_ep s = s\<lparr>ep_out := (ep_out s)\<lparr>io_skip_data_eps := False, io_drop := True, io_trigger_ack := True\<rparr>,
    ep_meta := upd_rx (\<lambda>r. r\<lparr>rx_poff := ucast (66 + ts), rx_plen := ucast (trim_payload (ev_data_len (ep_ev s)) ts te)\<rparr>) (ep_meta s),
    ep_ev := (ep_ev s)\<lparr>ev_data_len := trim_payload (ev_data_len (ep_ev s)) ts te, ev_seq_num := ev_seq_num (ep_ev s) + ts\<rparr>\<rparr>"
  using assms by (simp add: verify_trim_data_ep_def Let_def)

text \<open>The connection that payload of \<open>n\<close> bytes at the left edge leaves behind.\<close>

lemma in_order_front:
  assumes "tcp_valid_rxseq_ooo (ep_c s) (ev_seq_num (ep_ev s)) (ev_data_len (ep_ev s)) = Some (ts, te)"
    and "ev_seq_num (ep_ev s) + ts = rx_next_seq (ep_c s)"
    and "trim_payload (ev_data_len (ep_ev s)) ts te = n" "n \<noteq> 0" "length (ep_meta s) = 32"
  defines "t \<equiv> flush_ooo_data_ep (detect_ooo_data_ep (verify_trim_data_ep s))"
  shows "\<exists>w ts'. t = flush_interval (verify_trim_data_ep s\<lparr>ep_c := (ep_c s)\<lparr>rx_remote_avail := w, tx_next_ts := ts',
      rx_avail := rx_avail (ep_c s) - n, rx_next_seq := rx_next_seq (ep_c s) + n\<rparr>\<rparr>)"
    "ep_ev t = ep_ev (verify_trim_data_ep s)" "ep_meta t = ep_meta (verify_trim_data_ep s)"
proof -
  note v = verify_trim_accept [OF assms(1), unfolded assms(2,3)]
  have d: "detect_ooo_data_ep (verify_trim_data_ep s) = verify_trim_data_ep s"
    unfolding v by (simp add: detect_ooo_data_ep_def)
  let ?v = "verify_trim_data_ep s"
  define c1 where "c1 = (if rx_remote_avail (ep_c s) < push_bit TCP_WND_SCALE (ev_rwnd_size (ep_ev s))
    then (ep_c s)\<lparr>rx_remote_avail := push_bit TCP_WND_SCALE (ev_rwnd_size (ep_ev s))\<rparr> else ep_c s)"
  define c2 where "c2 = (if tx_next_ts c1 = 0 then c1\<lparr>tx_next_ts := ev_ts_val (ep_ev s)\<rparr> else c1)"
  have t: "t = flush_interval (?v\<lparr>ep_c := c2\<lparr>rx_avail := rx_avail c2 - n, rx_next_seq := rx_next_seq c2 + n\<rparr>\<rparr>)"
    unfolding t_def d unfolding flush_ooo_data_ep_def v using assms(4) by (simp add: c1_def c2_def Let_def)
  have "c2\<lparr>rx_avail := rx_avail c2 - n, rx_next_seq := rx_next_seq c2 + n\<rparr> =
      (ep_c s)\<lparr>rx_remote_avail := rx_remote_avail c2, tx_next_ts := tx_next_ts c2,
      rx_avail := rx_avail (ep_c s) - n, rx_next_seq := rx_next_seq (ep_c s) + n\<rparr>"
    by (simp add: c2_def c1_def)
  with t show "\<exists>w ts'. t = flush_interval (verify_trim_data_ep s\<lparr>ep_c := (ep_c s)\<lparr>rx_remote_avail := w, tx_next_ts := ts',
      rx_avail := rx_avail (ep_c s) - n, rx_next_seq := rx_next_seq (ep_c s) + n\<rparr>\<rparr>)" by metis
  show "ep_ev t = ep_ev ?v" "ep_meta t = ep_meta ?v"
    unfolding t by (simp_all add: flush_interval_def Let_def split: option.split prod.split)
qed


lemma flush_interval_none: "rx_ooo_len (ep_c s) = 0 \<Longrightarrow> flush_interval s = s"
  by (simp add: flush_interval_def Let_def)

lemma flush_interval_merge:
  assumes "rx_ooo_len (ep_c s) = m" "m \<noteq> 0" "rx_ooo_start (ep_c s) = rx_next_seq (ep_c s)" "m \<le> rx_avail (ep_c s)"
  shows "flush_interval s = s\<lparr>ep_c := (ep_c s)\<lparr>rx_ooo_start := rx_next_seq (ep_c s), rx_avail := rx_avail (ep_c s) - m,
    rx_next_seq := rx_next_seq (ep_c s) + m, rx_ooo_len := 0\<rparr>\<rparr>"
proof -
  have "0 < m" using assms(2) by (simp add: word_gt_0)
  then have "0 < rx_avail (ep_c s)" using assms(4) by (rule order.strict_trans2)
  then have "tcp_valid_rxseq_ooo (ep_c s) (rx_ooo_start (ep_c s)) (rx_ooo_len (ep_c s)) = Some (0, 0)"
    using assms \<open>0 < m\<close> by (simp add: rxseq_ooo_distance)
  then show ?thesis using assms by (simp add: flush_interval_def Let_def)
qed

text \<open>What the last two processors do with payload that is still there.\<close>

lemma data_chain_finish:
  assumes "t = flush_ooo_data_ep (detect_ooo_data_ep (verify_trim_data_ep s))"
    and "io_trigger_ack (ep_out t)" "ev_data_len (ep_ev t) \<noteq> 0" "length (ep_meta t) = 32"
    and "ack_ring_wf (ep_cpu s)" "ack_ring_count (ep_cpu s) < 63"
  shows "\<exists>s' a. data_chain s = Inr s' \<and> ep_c s' = (ep_c t)\<lparr>tx_next_ts := 0\<rparr> \<and> \<not> io_drop (ep_out s')
    \<and> rx_rx_pos (meta_rx (ep_meta s')) = ev_seq_num (ep_ev t) - recv_init_seq (ep_c t)
    \<and> rx_poff (meta_rx (ep_meta s')) = rx_poff (meta_rx (ep_meta t))
    \<and> rx_plen (meta_rx (ep_meta s')) = rx_plen (meta_rx (ep_meta t))
    \<and> ack_ring_list (ep_cpu s') = ack_ring_list (ep_cpu s) @ [a] \<and> acks_conn a (ep_c t)"
proof -
  have cpu: "ep_cpu t = ep_cpu s" by (simp add: assms(1))
  have m: "\<not> io_drop (ep_out (data_net_ep t))"
    "meta_rx (ep_meta (data_net_ep t)) = (meta_rx (ep_meta t))\<lparr>rx_rx_pos := ev_seq_num (ep_ev t) - recv_init_seq (ep_c t),
       rx_xsk_budget_avail := xsk_budget_avail (ep_c t)\<rparr>"
    using assms(3,4) by (simp_all add: data_net_ep_def mtp_add_data_seg_wrapper_def Let_def)
  have "ack_ring_wf (ep_cpu (data_net_ep t))" "ack_ring_count (ep_cpu (data_net_ep t)) < 63" "io_trigger_ack (ep_out (data_net_ep t))"
    using assms(2,5,6) cpu by simp_all
  from send_ack_queues [OF this] obtain s' a where
    "send_ack (data_net_ep t) = Inr s'" "ep_c s' = (ep_c t)\<lparr>tx_next_ts := 0\<rparr>"
    "ack_ring_list (ep_cpu s') = ack_ring_list (ep_cpu s) @ [a]" "acks_conn a (ep_c t)"
    "ep_meta s' = ep_meta (data_net_ep t)" "ep_out s' = ep_out (data_net_ep t)"
    unfolding data_net_c cpu by blast
  moreover from this(1) have "data_chain s = Inr s'" by (simp add: data_chain_def assms(1))
  ultimately show ?thesis using m by (intro exI [of _ s'] exI [of _ a]) simp
qed

lemma in_order_delivery:
  assumes "tcp_valid_rxseq_ooo (ep_c s) (ev_seq_num (ep_ev s)) (ev_data_len (ep_ev s)) = Some (ts, te)"
    and "ev_seq_num (ep_ev s) + ts = rx_next_seq (ep_c s)"
    and "trim_payload (ev_data_len (ep_ev s)) ts te = n" "n \<noteq> 0" "length (ep_meta s) = 32"
    and "ack_ring_wf (ep_cpu s)" "ack_ring_count (ep_cpu s) < 63"
    and "m = rx_ooo_len (ep_c s)" and "m \<noteq> 0 \<longrightarrow> rx_ooo_start (ep_c s) = rx_next_seq (ep_c s) + n \<and> m \<le> rx_avail (ep_c s) - n"
  shows "\<exists>s' a. data_chain s = Inr s' \<and> rx_next_seq (ep_c s') = rx_next_seq (ep_c s) + n + m
    \<and> rx_avail (ep_c s') = rx_avail (ep_c s) - n - m \<and> rx_ooo_len (ep_c s') = 0 \<and> \<not> io_drop (ep_out s')
    \<and> rx_rx_pos (meta_rx (ep_meta s')) = rx_next_seq (ep_c s) - recv_init_seq (ep_c s)
    \<and> rx_poff (meta_rx (ep_meta s')) = ucast (66 + ts) \<and> rx_plen (meta_rx (ep_meta s')) = ucast n
    \<and> ack_ring_list (ep_cpu s') = ack_ring_list (ep_cpu s) @ [a] \<and> ak_ack a = rx_next_seq (ep_c s) + n + m"
proof -
  define t where "t = flush_ooo_data_ep (detect_ooo_data_ep (verify_trim_data_ep s))"
  note v = verify_trim_accept [OF assms(1), unfolded assms(2,3)]
  obtain w tsn where c: "t = flush_interval (verify_trim_data_ep s\<lparr>ep_c := (ep_c s)\<lparr>rx_remote_avail := w,
      tx_next_ts := tsn, rx_avail := rx_avail (ep_c s) - n, rx_next_seq := rx_next_seq (ep_c s) + n\<rparr>\<rparr>)"
    and e: "ep_ev t = ep_ev (verify_trim_data_ep s)" "ep_meta t = ep_meta (verify_trim_data_ep s)"
    using in_order_front [OF assms(1-5)] unfolding t_def by blast
  let ?f = "verify_trim_data_ep s\<lparr>ep_c := (ep_c s)\<lparr>rx_remote_avail := w,
      tx_next_ts := tsn, rx_avail := rx_avail (ep_c s) - n, rx_next_seq := rx_next_seq (ep_c s) + n\<rparr>\<rparr>"
  have f: "rx_next_seq (ep_c t) = rx_next_seq (ep_c s) + n + m \<and> rx_avail (ep_c t) = rx_avail (ep_c s) - n - m
      \<and> rx_ooo_len (ep_c t) = 0 \<and> recv_init_seq (ep_c t) = recv_init_seq (ep_c s) \<and> io_trigger_ack (ep_out t)"
  proof (cases "rx_ooo_len (ep_c s) = 0")
    case True
    then have "flush_interval ?f = ?f" by (intro flush_interval_none) simp
    then show ?thesis unfolding c using assms(8) True by (simp add: v)
  next
    case False
    then have "flush_interval ?f = ?f\<lparr>ep_c := (ep_c ?f)\<lparr>rx_ooo_start := rx_next_seq (ep_c ?f), rx_avail := rx_avail (ep_c ?f) - m,
        rx_next_seq := rx_next_seq (ep_c ?f) + m, rx_ooo_len := 0\<rparr>\<rparr>"
      using assms(8,9) by (intro flush_interval_merge) simp_all
    then show ?thesis unfolding c by (simp add: v)
  qed
  have "ev_data_len (ep_ev t) \<noteq> 0" "length (ep_meta t) = 32" "ev_seq_num (ep_ev t) = rx_next_seq (ep_c s)"
    "rx_poff (meta_rx (ep_meta t)) = ucast (66 + ts)" "rx_plen (meta_rx (ep_meta t)) = ucast n"
    unfolding e v using assms(4,5) by simp_all
  with data_chain_finish [OF t_def _ this(1,2) assms(6,7)] f show ?thesis
    by (auto simp: acks_conn_def)
qed

section \<open>Properties\<close>

text \<open>C5: a segment whose part inside the window starts at the next expected byte is delivered:
  user space is told the offset of the first new byte in the stream, in the packet, and the
  number of new bytes; the left edge of the window moves past them, the window shrinks by as
  much, and an acknowledgement of exactly the bytes received so far is queued behind the pending
  ones.  A stored out-of-order interval that starts right behind the segment is consumed with it.\<close>

theorem in_order_segment_delivered:
  assumes "tcp_valid_rxseq_ooo (ep_c s) (ev_seq_num (ep_ev s)) (ev_data_len (ep_ev s)) = Some (ts, te)"
    and "ev_seq_num (ep_ev s) + ts = rx_next_seq (ep_c s)"
    and "trim_payload (ev_data_len (ep_ev s)) ts te = n" "n \<noteq> 0" "length (ep_meta s) = 32"
    and "ack_ring_wf (ep_cpu s)" "ack_ring_count (ep_cpu s) < 63" "m = rx_ooo_len (ep_c s)"
    and "m \<noteq> 0 \<Longrightarrow> rx_ooo_start (ep_c s) = rx_next_seq (ep_c s) + n \<and> m \<le> rx_avail (ep_c s) - n"
  shows "\<exists>s' a. data_chain s = Inr s' \<and> rx_next_seq (ep_c s') = rx_next_seq (ep_c s) + n + m
    \<and> rx_avail (ep_c s') = rx_avail (ep_c s) - n - m \<and> rx_ooo_len (ep_c s') = 0 \<and> \<not> io_drop (ep_out s')
    \<and> rx_rx_pos (meta_rx (ep_meta s')) = rx_next_seq (ep_c s) - recv_init_seq (ep_c s)
    \<and> rx_poff (meta_rx (ep_meta s')) = ucast (66 + ts) \<and> rx_plen (meta_rx (ep_meta s')) = ucast n
    \<and> ack_ring_list (ep_cpu s') = ack_ring_list (ep_cpu s) @ [a] \<and> ak_ack a = rx_next_seq (ep_c s) + n + m"
  using in_order_delivery [OF assms(1-7), of m] assms(8,9) by simp

theorem in_order_segment_delivered_witness:
  "\<forall>s. \<exists>s' a. data_chain (s\<lparr>ep_c := zero_conn\<lparr>rx_avail := 100, rx_next_seq := 5, rx_ooo_start := 15, rx_ooo_len := 20\<rparr>,
      ep_ev := (ep_ev s)\<lparr>ev_seq_num := 3, ev_data_len := 12\<rparr>, ep_meta := replicate 32 0, ep_cpu := init_cpu\<rparr>) = Inr s'
    \<and> rx_next_seq (ep_c s') = 35 \<and> ack_ring_list (ep_cpu s') = ack_ring_list init_cpu @ [a] \<and> ak_ack a = 35"
proof
  fix s :: ep_state
  let ?s = "s\<lparr>ep_c := zero_conn\<lparr>rx_avail := 100, rx_next_seq := 5, rx_ooo_start := 15, rx_ooo_len := 20\<rparr>,
      ep_ev := (ep_ev s)\<lparr>ev_seq_num := 3, ev_data_len := 12\<rparr>, ep_meta := replicate 32 0, ep_cpu := init_cpu\<rparr>"
  have "tcp_valid_rxseq_ooo (ep_c ?s) (ev_seq_num (ep_ev ?s)) (ev_data_len (ep_ev ?s)) = Some (2, 0)"
    by (simp add: rxseq_ooo_distance)
  from in_order_segment_delivered [OF this, of 10 20]
  show "\<exists>s' a. data_chain ?s = Inr s' \<and> rx_next_seq (ep_c s') = 35
      \<and> ack_ring_list (ep_cpu s') = ack_ring_list init_cpu @ [a] \<and> ak_ack a = 35"
    by (auto simp: trim_payload_def ack_ring_count_def init_cpu_def ack_ring_wf_def)
qed

text \<open>C40: a segment that lies ahead of the next expected byte is stored as an out-of-order
  interval and nevertheless moves the left edge of the window by its length, so the queued
  acknowledgement covers bytes that were never received.\<close>

theorem out_of_order_segment_acknowledged:
  assumes "rx_ooo_len (ep_c s) = 0" "ev_data_len (ep_ev s) = n" "n \<noteq> 0" "n < ev_seq_num (ep_ev s) - rx_next_seq (ep_c s)"
    and "unat (ev_seq_num (ep_ev s) - rx_next_seq (ep_c s)) + unat n \<le> unat (rx_avail (ep_c s))"
    and "length (ep_meta s) = 32" "ack_ring_wf (ep_cpu s)" "ack_ring_count (ep_cpu s) < 63"
  shows "\<exists>s' a. data_chain s = Inr s' \<and> rx_next_seq (ep_c s') = rx_next_seq (ep_c s) + n
    \<and> rx_ooo_start (ep_c s') = ev_seq_num (ep_ev s) \<and> rx_ooo_len (ep_c s') = n
    \<and> ack_ring_list (ep_cpu s') = ack_ring_list (ep_cpu s) @ [a] \<and> ak_ack a = rx_next_seq (ep_c s) + n"
proof -
  let ?d = "ev_seq_num (ep_ev s) - rx_next_seq (ep_c s)" and ?A = "rx_avail (ep_c s)"
  have d: "?d < ?A" "0 < ?d + n" "?d + n \<le> ?A" "unat (?d - n) = unat ?d - unat n" "unat (?A - n) = unat ?A - unat n" "?d \<noteq> 0"
    using assms(3,4,5) unat_lt32 [of ?d] unat_lt32 [of n] unat_lt32 [of ?A]
    by (auto simp: seq_nat word_unat_eq_iff split: if_splits)
  then have acc: "tcp_valid_rxseq_ooo (ep_c s) (ev_seq_num (ep_ev s)) (ev_data_len (ep_ev s)) = Some (0, 0)"
    using assms(2) by (simp add: rxseq_ooo_distance)
  note v = verify_trim_accept [OF acc]
  have ne: "ev_seq_num (ep_ev s) \<noteq> rx_next_seq (ep_c s)" using d(6) by auto
  define t where "t = flush_ooo_data_ep (detect_ooo_data_ep (verify_trim_data_ep s))"
  have shift: "ev_seq_num (ep_ev s) - (rx_next_seq (ep_c s) + n) = ?d - n" by simp
  have d2: "?d - n < ?A - n" "0 < ?d - n + n" "?d - n + n \<le> ?A - n"
    using assms(3,4,5) d(4-6) unat_lt32 [of ?d] by (auto simp: word_less_nat_alt word_le_nat_alt word_gt_0 word_unat_eq_iff)
  have valid: "tcp_valid_rxseq_ooo c (ev_seq_num (ep_ev s)) n = Some (0, 0)"
    if "rx_next_seq c = rx_next_seq (ep_c s) + n" "rx_avail c = ?A - n" for c
    unfolding rxseq_ooo_distance that shift Let_def using d2 by simp
  have ne2: "ev_seq_num (ep_ev s) \<noteq> rx_next_seq (ep_c s) + n" using assms(4) by auto
  have "rx_next_seq (ep_c t) = rx_next_seq (ep_c s) + n \<and> rx_ooo_start (ep_c t) = ev_seq_num (ep_ev s)
      \<and> rx_ooo_len (ep_c t) = n \<and> io_trigger_ack (ep_out t) \<and> ev_data_len (ep_ev t) = n \<and> length (ep_meta t) = 32"
    unfolding t_def v using assms(1,2,3,6) ne ne2
    by (simp add: detect_ooo_data_ep_def flush_ooo_data_ep_def flush_interval_def Let_def trim_payload_def valid)
  with data_chain_finish [OF t_def _ _ _ assms(7,8)] assms(3) show ?thesis
    by (auto simp: acks_conn_def)
qed

theorem out_of_order_segment_acknowledged_witness:
  "\<forall>s. \<exists>s' a. data_chain (s\<lparr>ep_c := zero_conn\<lparr>rx_avail := 100\<rparr>, ep_ev := (ep_ev s)\<lparr>ev_seq_num := 50, ev_data_len := 10\<rparr>,
      ep_meta := replicate 32 0, ep_cpu := init_cpu\<rparr>) = Inr s'
    \<and> ack_ring_list (ep_cpu s') = ack_ring_list init_cpu @ [a] \<and> ak_ack a = 10"
proof
  fix s :: ep_state
  show "\<exists>s' a. data_chain (s\<lparr>ep_c := zero_conn\<lparr>rx_avail := 100\<rparr>, ep_ev := (ep_ev s)\<lparr>ev_seq_num := 50, ev_data_len := 10\<rparr>,
      ep_meta := replicate 32 0, ep_cpu := init_cpu\<rparr>) = Inr s'
    \<and> ack_ring_list (ep_cpu s') = ack_ring_list init_cpu @ [a] \<and> ak_ack a = 10"
    using out_of_order_segment_acknowledged [of "s\<lparr>ep_c := zero_conn\<lparr>rx_avail := 100\<rparr>,
      ep_ev := (ep_ev s)\<lparr>ev_seq_num := 50, ev_data_len := 10\<rparr>, ep_meta := replicate 32 0, ep_cpu := init_cpu\<rparr>" 10]
    by (auto simp: zero_conn_def ack_ring_count_def init_cpu_def ack_ring_wf_def)
qed

text \<open>An acknowledgement of bytes that were never sent is not discarded: the number of
  acknowledged bytes is then the uninitialised intermediate output, and when that word is not
  zero the oldest unacknowledged byte jumps to the bogus acknowledgement number and user space
  is told to release that many bytes.\<close>

theorem invalid_ack_uses_stack_garbage:
  assumes "\<not> ev_ack_seq (ep_ev s) - send_una (ep_c s) \<le> tx_next_seq (ep_c s) - send_una (ep_c s)"
    and "rx_dupack_cnt (ep_c s) \<noteq> 3" "io_num_acked_bytes (ep_out s) \<noteq> 0" "length (ep_meta s) = 32"
  shows "\<exists>s'. ack_chain ktime p s = Inr s' \<and> send_una (ep_c s') = ev_ack_seq (ep_ev s)
    \<and> rx_ack_bytes (meta_rx (ep_meta s')) = io_num_acked_bytes (ep_out s) \<and> \<not> io_drop (ep_out s')"
proof -
  have v: "(if send_una (ep_c s) \<le> tx_next_seq (ep_c s)
        then ev_ack_seq (ep_ev s) < send_una (ep_c s) \<or> ev_ack_seq (ep_ev s) > tx_next_seq (ep_c s)
        else send_una (ep_c s) > ev_ack_seq (ep_ev s) \<and> ev_ack_seq (ep_ev s) > tx_next_seq (ep_c s)) = True"
    using assms(1) unfolding ack_range_bool by simp
  let ?t = "s\<lparr>ep_cc := (ep_cc s)\<lparr>cc_cnt_rx_acks := cc_cnt_rx_acks (ep_cc s) + 1\<rparr>\<rparr>"
  have "fast_retr_rec_ep ?t = ?t\<lparr>ep_out := (ep_out s)\<lparr>io_drop := True\<rparr>\<rparr>"
    using v unfolding fast_retr_rec_ep_def by (simp add: Let_def)
  then show ?thesis unfolding ack_chain_def using assms(2-4)
    by (simp add: ack_net_ep_def mtp_tx_data_flush_def Let_def word_gt_0)
qed

theorem invalid_ack_uses_stack_garbage_witness:
  "\<forall>s. \<exists>s'. ack_chain 0 [] (s\<lparr>ep_c := zero_conn, ep_ev := (ep_ev s)\<lparr>ev_ack_seq := 99\<rparr>,
      ep_out := (ep_out s)\<lparr>io_num_acked_bytes := 7\<rparr>, ep_meta := replicate 32 0\<rparr>) = Inr s' \<and> send_una (ep_c s') = 99"
proof
  fix s :: ep_state
  show "\<exists>s'. ack_chain 0 [] (s\<lparr>ep_c := zero_conn, ep_ev := (ep_ev s)\<lparr>ev_ack_seq := 99\<rparr>,
      ep_out := (ep_out s)\<lparr>io_num_acked_bytes := 7\<rparr>, ep_meta := replicate 32 0\<rparr>) = Inr s' \<and> send_una (ep_c s') = 99"
    using invalid_ack_uses_stack_garbage [of "s\<lparr>ep_c := zero_conn, ep_ev := (ep_ev s)\<lparr>ev_ack_seq := 99\<rparr>,
      ep_out := (ep_out s)\<lparr>io_num_acked_bytes := 7\<rparr>, ep_meta := replicate 32 0\<rparr>" 0 "[]"]
    by (auto simp: zero_conn_def)
qed

text \<open>On a connection with nothing in flight the third acknowledgement with an unchanged
  number and window counts as a loss: the rate of the flow is halved.\<close>

theorem idle_acks_cut_rate:
  assumes "tx_next_seq (ep_c s) = send_una (ep_c s)" "buf_curr_seq (ep_c s) = send_una (ep_c s)"
    and "rx_dupack_cnt (ep_c s) = 2" "ev_ack_seq (ep_ev s) = send_una (ep_c s)"
    and "rx_remote_avail (ep_c s) = push_bit TCP_WND_SCALE (ev_rwnd_size (ep_ev s))" "cc_cnt_tx_drops (ep_cc s) = 0"
  shows "\<exists>s'. ack_chain ktime p s = Inr s' \<and> cc_rate (ep_cc s') = cc_rate (ep_cc s) div 2
    \<and> cc_cnt_tx_drops (ep_cc s') = 1"
  using assms
  by (simp add: ack_chain_def ack_net_ep_def fast_retr_rec_ep_def mtp_pkt_gen_wrapper_def go_back_def cut_rate_def
      drop_bit_eq_div Let_def)

theorem idle_acks_cut_rate_witness:
  "\<forall>s. \<exists>s'. ack_chain 0 [] (s\<lparr>ep_c := zero_conn\<lparr>rx_dupack_cnt := 2\<rparr>, ep_cc := zero_cc\<lparr>cc_rate := 1000\<rparr>,
      ep_ev := (ep_ev s)\<lparr>ev_ack_seq := 0, ev_rwnd_size := 0\<rparr>\<rparr>) = Inr s' \<and> cc_rate (ep_cc s') = 500"
proof
  fix s :: ep_state
  show "\<exists>s'. ack_chain 0 [] (s\<lparr>ep_c := zero_conn\<lparr>rx_dupack_cnt := 2\<rparr>, ep_cc := zero_cc\<lparr>cc_rate := 1000\<rparr>,
      ep_ev := (ep_ev s)\<lparr>ev_ack_seq := 0, ev_rwnd_size := 0\<rparr>\<rparr>) = Inr s' \<and> cc_rate (ep_cc s') = 500"
    using idle_acks_cut_rate [of "s\<lparr>ep_c := zero_conn\<lparr>rx_dupack_cnt := 2\<rparr>, ep_cc := zero_cc\<lparr>cc_rate := 1000\<rparr>,
      ep_ev := (ep_ev s)\<lparr>ev_ack_seq := 0, ev_rwnd_size := 0\<rparr>\<rparr>" 0 "[]"]
    by (auto simp: zero_conn_def zero_cc_def)
qed

end
