(* ===== verification/Fib.thy ===== *)
theory Fib
  imports Net_Headers
begin

text \<open>
  The forwarding cache of the eBPF programs (\<open>eBPF/ebpf_fib.h\<close>).  The routing
  table and the LRU hash map are kernel code and parameters of the model: \<open>kfib\<close>
  is the helper \<open>bpf_fib_lookup\<close> (the two MAC addresses, or \<open>None\<close> for a return
  code other than success) and \<open>lru_ops\<close> the two map operations.  \<open>lru_ok\<close>
  states the documented behaviour of an LRU map: an update that succeeds is
  visible, and otherwise an entry is kept or evicted, never altered.
\<close>

section \<open>Definitions\<close>

text \<open>\<open>__builtin_memcpy\<close> from and to a header that the caller has checked to be inside the packet.\<close>

definition ld_bytes :: "nat \<Rightarrow> nat \<Rightarrow> bytes \<Rightarrow> bytes" where
  "ld_bytes off n p = take n (drop off p)"

definition st_bytes :: "nat \<Rightarrow> bytes \<Rightarrow> bytes \<Rightarrow> bytes" where
  "st_bytes off bs p = take off p @ bs @ drop (off + length bs) p"

abbreviation (input) ETH_ALEN :: nat where "ETH_ALEN \<equiv> 6"
abbreviation (input) AF_INET :: u8 where "AF_INET \<equiv> 2"

record dst_entry =
  de_valid :: u8
  de_smac :: bytes
  de_dmac :: bytes

record fib_params =
  fp_family :: u8
  fp_tos :: u8
  fp_tot_len :: u16
  fp_ipv4_src :: u32
  fp_ipv4_dst :: u32
  fp_ifindex :: u32

record 'c lru_ops =
  lru_lookup :: "'c \<Rightarrow> u32 \<Rightarrow> dst_entry option"
  lru_update :: "'c \<Rightarrow> u32 \<Rightarrow> dst_entry \<Rightarrow> bool \<times> 'c"

text \<open>A return value of 0 is \<open>True\<close>, \<open>-1\<close> is \<open>False\<close>.\<close>

definition find_dst_entry_in_cache :: "'c lru_ops \<Rightarrow> 'c \<Rightarrow> nat \<Rightarrow> nat \<Rightarrow> bytes \<Rightarrow> bool \<times> bytes" where
  "find_dst_entry_in_cache ops cache iph eth p =
    (let ipv4_dst = ld32 (iph + 16) p
     in case lru_lookup ops cache ipv4_dst of
          None \<Rightarrow> (False, p)
        | Some e \<Rightarrow>
            if de_valid e = 0 then (False, p)
            else
              let p = st_bytes eth (de_dmac e) p;
                  p = st_bytes (eth + 6) (de_smac e) p
              in (True, st16 (eth + 12) (bpf_htons ETH_P_IP) p))"

definition update_dst_entry_in_cache :: "'c lru_ops \<Rightarrow> 'c \<Rightarrow> nat \<Rightarrow> nat \<Rightarrow> bytes \<Rightarrow> bool \<times> 'c" where
  "update_dst_entry_in_cache ops cache iph eth p =
    (let ipv4_dst = ld32 (iph + 16) p;
         new_dst_entry = \<lparr> de_valid = 1, de_smac = ld_bytes (eth + 6) ETH_ALEN p, de_dmac = ld_bytes eth ETH_ALEN p \<rparr>
     in lru_update ops cache ipv4_dst new_dst_entry)"

definition set_fib_params :: "nat \<Rightarrow> u32 \<Rightarrow> bytes \<Rightarrow> fib_params" where
  "set_fib_params iph ifindex p =
    \<lparr> fp_family = AF_INET, fp_tos = ld8 (iph + 1) p, fp_tot_len = bpf_ntohs (ld16 (iph + 2) p),
      fp_ipv4_src = ld32 (iph + 12) p, fp_ipv4_dst = ld32 (iph + 16) p, fp_ifindex = ifindex \<rparr>"

definition set_ethhdr :: "nat \<Rightarrow> bytes \<times> bytes \<Rightarrow> bytes \<Rightarrow> bytes" where
  "set_ethhdr eth macs p =
    (let (dmac, smac) = macs;
         p = st_bytes eth dmac p;
         p = st_bytes (eth + 6) smac p
     in st16 (eth + 12) (bpf_htons ETH_P_IP) p)"

type_synonym kernel_fib = "fib_params \<Rightarrow> (bytes \<times> bytes) option"

definition fib_lookup ::
  "'c lru_ops \<Rightarrow> kernel_fib \<Rightarrow> u32 \<Rightarrow> nat \<Rightarrow> nat \<Rightarrow> bytes \<Rightarrow> 'c \<Rightarrow> bool \<times> bytes \<times> 'c"
where
  "fib_lookup ops kfib ifindex eth iph p cache =
    (case find_dst_entry_in_cache ops cache iph eth p of
       (True, p) \<Rightarrow> (True, p, cache)
     | (False, p) \<Rightarrow>
         (case kfib (set_fib_params iph ifindex p) of
            None \<Rightarrow> (False, p, cache)
          | Some macs \<Rightarrow>
              let p = set_ethhdr eth macs p;
                  (ok, cache) = update_dst_entry_in_cache ops cache iph eth p
              in (ok, p, cache)))"

definition xmit_packet ::
  "'c lru_ops \<Rightarrow> kernel_fib \<Rightarrow> u32 \<Rightarrow> nat \<Rightarrow> nat \<Rightarrow> bytes \<Rightarrow> 'c \<Rightarrow> xdp_action \<times> bytes \<times> 'c"
where
  "xmit_packet ops kfib ifindex eth iph p cache =
    (let (err, p, cache) = fib_lookup ops kfib ifindex eth iph p cache in (XDP_TX, p, cache))"

text \<open>The same function under the name it has in \<open>eBPF/tcp/pacing.h\<close>.\<close>

definition xmit_packet_fib_lookup ::
  "'c lru_ops \<Rightarrow> kernel_fib \<Rightarrow> u32 \<Rightarrow> nat \<Rightarrow> nat \<Rightarrow> bytes \<Rightarrow> 'c \<Rightarrow> xdp_action \<times> bytes \<times> 'c"
where
  "xmit_packet_fib_lookup ops kfib ifindex eth iph p cache =
    (let (err, p, cache) = fib_lookup ops kfib ifindex eth iph p cache in (XDP_TX, p, cache))"

section \<open>What the code relies on, and coherence of the cache\<close>

definition lru_ok :: "'c lru_ops \<Rightarrow> bool" where
  "lru_ok ops \<longleftrightarrow> (\<forall>c k v r c'. lru_update ops c k v = (r, c') \<longrightarrow>
     (\<forall>j. lru_lookup ops c' j = (if r \<and> j = k then Some v else lru_lookup ops c j) \<or> j \<noteq> k \<and> lru_lookup ops c' j = None))"

text \<open>An LRU map of unlimited size, and the routes of a network by destination address.\<close>

definition map_lru :: "(u32 \<rightharpoonup> dst_entry) lru_ops" where
  "map_lru = \<lparr> lru_lookup = (\<lambda>c k. c k), lru_update = (\<lambda>c k v. (True, c(k \<mapsto> v))) \<rparr>"

definition fib_coherent :: "'c lru_ops \<Rightarrow> (u32 \<Rightarrow> (bytes \<times> bytes) option) \<Rightarrow> 'c \<Rightarrow> bool" where
  "fib_coherent ops route cache \<longleftrightarrow>
    (\<forall>k e. lru_lookup ops cache k = Some e \<longrightarrow> de_valid e \<noteq> 0 \<longrightarrow> route k = Some (de_dmac e, de_smac e))"

definition routes_ok :: "(u32 \<Rightarrow> (bytes \<times> bytes) option) \<Rightarrow> bool" where
  "routes_ok route \<longleftrightarrow> (\<forall>k d s. route k = Some (d, s) \<longrightarrow> length d = 6 \<and> length s = 6)"

text \<open>A sequence of packets sent through one cache.\<close>

fun xmit_all :: "'c lru_ops \<Rightarrow> kernel_fib \<Rightarrow> u32 \<Rightarrow> bytes list \<Rightarrow> 'c \<Rightarrow> bytes list \<times> 'c" where
  "xmit_all ops kfib ifindex [] cache = ([], cache)"
| "xmit_all ops kfib ifindex (p # ps) cache =
    (let (_, p', cache) = xmit_packet ops kfib ifindex 0 14 p cache;
         (ps', cache) = xmit_all ops kfib ifindex ps cache
     in (p' # ps', cache))"

definition routed :: "(u32 \<Rightarrow> (bytes \<times> bytes) option) \<Rightarrow> bytes \<Rightarrow> bytes" where
  "routed route p = (case route (ld32 30 p) of None \<Rightarrow> p | Some macs \<Rightarrow> set_ethhdr 0 macs p)"

section \<open>Lemmas\<close>

lemma length_st_bytes [simp]: "off + length bs \<le> length p \<Longrightarrow> length (st_bytes off bs p) = length p"
  by (simp add: st_bytes_def)

lemma ld8_st_bytes [mem_simps]:
  assumes "off + length bs \<le> length p"
  shows "ld8 k (st_bytes off bs p) = (if off \<le> k \<and> k < off + length bs then bs ! (k - off) else ld8 k p)"
  using assms by (auto simp: ld8_def st_bytes_def nth_default_def nth_append)

lemma ld32_st_bytes:
  assumes "off + length bs \<le> length p" "off + length bs \<le> k"
  shows "ld32 k (st_bytes off bs p) = ld32 k p"
  using assms by (simp add: ld32_def ld16_def ld8_st_bytes)

lemma ld_bytes_st_bytes:
  assumes "off + length bs \<le> length p"
  shows "ld_bytes off (length bs) (st_bytes off bs p) = bs"
  using assms by (simp add: ld_bytes_def st_bytes_def)

lemma ld_bytes_st_bytes_other:
  assumes "off + length bs \<le> length p" "k + n \<le> off"
  shows "ld_bytes k n (st_bytes off bs p) = ld_bytes k n p"
  using assms by (simp add: ld_bytes_def st_bytes_def drop_take min_def) linarith

lemma ld_bytes_st16:
  assumes "k + n \<le> i"
  shows "ld_bytes k n (st16 i v p) = ld_bytes k n p"
  using assms by (simp add: ld_bytes_def st16_def st8_def drop_update_swap take_update_cancel)

lemma set_ethhdr_facts:
  assumes "length d = 6" "length s = 6" "34 \<le> length p"
  shows "ld_bytes 0 6 (set_ethhdr 0 (d, s) p) = d" "ld_bytes 6 6 (set_ethhdr 0 (d, s) p) = s"
    "ld32 30 (set_ethhdr 0 (d, s) p) = ld32 30 p" "length (set_ethhdr 0 (d, s) p) = length p"
  using assms ld_bytes_st_bytes [of 6 s "st_bytes 0 d p"] ld_bytes_st_bytes [of 0 d p]
  by (simp_all add: set_ethhdr_def Let_def ld_bytes_st16 ld_bytes_st_bytes_other ld32_st_bytes mem_simps)

lemma find_dst_entry_cases:
  assumes "fib_coherent ops route cache"
  obtains (hit) macs where "route (ld32 30 p) = Some macs"
      "find_dst_entry_in_cache ops cache 14 0 p = (True, set_ethhdr 0 macs p)"
    | (miss) "find_dst_entry_in_cache ops cache 14 0 p = (False, p)"
proof (cases "lru_lookup ops cache (ld32 30 p)")
  case None
  then show thesis using miss by (simp add: find_dst_entry_in_cache_def)
next
  case (Some e)
  show thesis
  proof (cases "de_valid e = 0")
    case True
    then show thesis using miss Some by (simp add: find_dst_entry_in_cache_def)
  next
    case False
    then have "route (ld32 30 p) = Some (de_dmac e, de_smac e)" using assms Some by (auto simp: fib_coherent_def)
    then show thesis using hit Some False by (simp add: find_dst_entry_in_cache_def set_ethhdr_def Let_def)
  qed
qed

lemma fib_update_coherent:
  assumes "lru_ok ops" "fib_coherent ops route cache" "lru_update ops cache k v = (r, cache')"
    "route k = Some (de_dmac v, de_smac v)"
  shows "fib_coherent ops route cache'"
proof -
  have "lru_lookup ops cache' j = (if r \<and> j = k then Some v else lru_lookup ops cache j) \<or> lru_lookup ops cache' j = None" for j
    using assms(1) [unfolded lru_ok_def, rule_format, OF assms(3), of j] by (elim disjE) simp_all
  then show ?thesis using assms(2,4) unfolding fib_coherent_def by (smt (verit) option.inject option.discI)
qed

text \<open>One packet: the answer of the routing table, from the cache or from the kernel.\<close>

lemma fib_lookup_routed:
  assumes "lru_ok ops" "fib_coherent ops route cache" "routes_ok route" "34 \<le> length p"
    and "\<forall>q. kfib q = route (fp_ipv4_dst q)"
    and "fib_lookup ops kfib ifindex 0 14 p cache = (r, p', cache')"
  shows "p' = routed route p \<and> fib_coherent ops route cache'"
  using assms(2)
proof (cases rule: find_dst_entry_cases [where p = p])
  case (hit macs)
  then show ?thesis using assms(2,6) by (simp add: fib_lookup_def routed_def)
next
  case miss
  show ?thesis
  proof (cases "route (ld32 30 p)")
    case None
    then show ?thesis using assms(2,5,6) miss by (simp add: fib_lookup_def routed_def set_fib_params_def)
  next
    case (Some macs)
    obtain d s where m: "macs = (d, s)" by (cases macs)
    then have l: "length d = 6" "length s = 6" using assms(3) Some by (auto simp: routes_ok_def)
    note f = set_ethhdr_facts [OF l assms(4)]
    have u: "lru_update ops cache (ld32 30 p) \<lparr>de_valid = 1, de_smac = s, de_dmac = d\<rparr> = (r, cache')" "p' = set_ethhdr 0 macs p"
      using assms(5,6) miss Some f
      by (simp_all add: fib_lookup_def set_fib_params_def update_dst_entry_in_cache_def m Let_def split: prod.splits)
    from fib_update_coherent [OF assms(1,2) u(1)] show ?thesis using Some u(2) m by (simp add: routed_def)
  qed
qed

section \<open>Properties\<close>



end
