(* ===== verification/Tcp_Progs.thy ===== *)
theory Tcp_Progs
  imports Tcp_Sender Tcp_Receiver Fib
begin

text \<open>
  The XDP programs of the TCP transport (\<open>eBPF/tcp/main.c\<close>) and the two functions
  they call for a packet of a known flow, \<open>tcp_tx_process\<close> and \<open>tcp_rx_process\<close>
  (\<open>eBPF/tcp/tcp.h\<close>, configuration \<open>MTP_ON\<close>, \<open>BYPASS_RL\<close>), plus the programs of
  \<open>eBPF/entrance/entrance.c\<close> that dispatch on the protocol.

  What a run of a program reads from the kernel is the record \<open>prog_env\<close>: the CPU,
  the successive readings of the clock, the fields of the context, whether the
  metadata and tail adjustments succeed, which indices of the socket map and of the
  wheel accept a packet, the forwarding table, and the contents of uninitialised
  stack variables.  What it reads and writes is \<open>prog\<close>: the packet, its metadata
  area, the maps and per-CPU variables, and the forwarding cache.
\<close>

section \<open>Definitions\<close>

record 'c prog_env =
  e_cpu :: u32
  e_clock :: "nat \<Rightarrow> u64"
  e_rx_queue_index :: u32
  e_ingress_ifindex :: u32
  e_meta_ok :: bool
  e_tail_ok :: bool
  e_wheel :: "u32 \<Rightarrow> bool"
  e_bucket :: "u32 \<Rightarrow> bool"
  e_xsk :: "u32 \<Rightarrow> bool"
  e_lru :: "'c lru_ops"
  e_fib :: kernel_fib
  e_stack_out :: interm_out
  e_stack_net :: net_event
  e_stack_app :: app_timer_event

record 'c prog =
  pg_pkt :: bytes
  pg_meta :: meta_info
  pg_st :: tcp_state
  pg_cache :: 'c

text \<open>\<open>bpf_redirect_map\<close> on the socket map with \<open>XDP_DROP\<close> as the fallback.\<close>

definition redirect_xsk :: "'c prog_env \<Rightarrow> u32 \<Rightarrow> tcp_state \<Rightarrow> xdp_action \<times> tcp_state" where
  "redirect_xsk env key st =
    (if e_xsk env key then (XDP_REDIRECT, upd_cpu (e_cpu env) (\<lambda>u. u\<lparr>redirect_info := Some (To_Xsk key)\<rparr>) st)
     else (XDP_DROP, st))"

subsection \<open>Transmission\<close>

text \<open>
  The end of \<open>tcp_tx_process\<close>: a packet bypasses the rate limiter or goes to the
  bucket of its release time.  The fallback of the redirect is 0, \<open>XDP_ABORTED\<close>.
\<close>

definition tx_release ::
  "'c prog_env \<Rightarrow> bpf_tcp_conn \<Rightarrow> bpf_cc \<Rightarrow> u64 \<Rightarrow> u64 \<Rightarrow> u32 \<Rightarrow> tcp_state \<Rightarrow> xdp_action \<times> tcp_state"
where
  "tx_release env c cc desired_tx_ts ref_ts payload_len st =
    (let cpu = e_cpu env; u = cpus st cpu
     in if ucast (cc_rate cc) \<ge> LINK_BANDWIDTH \<and> nr_pkts_in_tw u = 0 then (XDP_TX, st)
        else if (nr_pkts_in_tw u = 0 \<or> tx_next_seq c - send_una c = payload_len) \<and> desired_tx_ts \<le> ref_ts then (XDP_TX, st)
        else if \<not> e_wheel env cpu then (XDP_DROP, st)
        else
          let (idx, u) = tw_insert cpu desired_tx_ts (e_clock env 1) u;
              st = upd_cpu cpu (\<lambda>_. u) st
          in if idx = POISON_32 then (XDP_DROP, st)
             else if e_bucket env idx
             then (XDP_REDIRECT, upd_cpu cpu (\<lambda>u. u\<lparr>redirect_info := Some (To_Wheel cpu idx)\<rparr>) st)
             else (XDP_ABORTED, st))"

text \<open>The part of \<open>tcp_tx_process\<close> that runs the event processor of a packet in sequence.\<close>

definition tx_event ::
  "'c prog_env \<Rightarrow> nat \<Rightarrow> nat \<Rightarrow> app_timer_event \<Rightarrow> bpf_tcp_conn \<Rightarrow> bpf_cc \<Rightarrow> u64 \<Rightarrow> u32 \<Rightarrow> bytes \<Rightarrow> meta_info \<Rightarrow> tcp_state
   \<Rightarrow> error + xdp_action \<times> bpf_tcp_conn \<times> bytes \<times> meta_info \<times> tcp_state"
where
  "tx_event env iph tcph ev c cc ref_ts payload_len p data_meta st =
    (let (desired_tx_ts, cc) = cc_get_desired_tx_ts cc ref_ts payload_len;
         ev = ev\<lparr>at_timestamp := ucast ref_ts\<rparr>
     in if at_type ev = APP_EVENT then
          (case send_ep ev c cc (Some (tcph, iph)) p data_meta of
             Inl e \<Rightarrow> Inl e
           | Inr (c, cc, p, data_meta) \<Rightarrow>
               let (act, st) = tx_release env c cc desired_tx_ts ref_ts payload_len (put_cc (cc_idx c) cc st)
               in Inr (act, c, p, data_meta, st))
        else if at_type ev = TIMER_EVENT then
          (case ack_timeout_xdp_ep c cc p data_meta of
             Inl e \<Rightarrow> Inl e
           | Inr (xdp_op, c, cc, data_meta) \<Rightarrow> Inr (xdp_op, c, p, data_meta, put_cc (cc_idx c) cc st))
        else
          let (act, st) = tx_release env c cc desired_tx_ts ref_ts payload_len (put_cc (cc_idx c) cc st)
          in Inr (act, c, p, data_meta, st))"

definition tcp_tx_process ::
  "'c prog_env \<Rightarrow> nat \<Rightarrow> nat \<Rightarrow> app_timer_event \<Rightarrow> bpf_tcp_conn \<Rightarrow> bytes \<Rightarrow> meta_info \<Rightarrow> tcp_state
   \<Rightarrow> error + xdp_action \<times> bpf_tcp_conn \<times> bytes \<times> meta_info \<times> tcp_state"
where
  "tcp_tx_process env iph tcph ev c p data_meta st =
    (let cpu = e_cpu env
     in if cpu \<ge> MAX_CPU then Inr (XDP_DROP, c, p, data_meta, st)
     else
       let rx_bump = tx_rx_bump (meta_tx data_meta);
           payload_len = tx_plen (meta_tx data_meta);
           tx_pos = tx_tx_pos (meta_tx data_meta);
           u = cpus st cpu;
           ref_ts = (if has_kick u = 0 then e_clock env 0 else tx_cached_ts u)
       in case cc_lookup (cc_map st) (cc_idx c) of
            None \<Rightarrow> Inr (XDP_DROP, c, p, data_meta, st)
          | Some cc \<Rightarrow>
              let wnd_upd = (rx_bump \<noteq> 0 \<and> tx_pending c = 0);
                  c = (if rx_bump \<noteq> 0 then c\<lparr>rx_avail := rx_avail c + rx_bump\<rparr> else c)
              in if tx_flag (meta_tx data_meta) AND FLAG_SYNC \<noteq> 0 then
                   if wnd_upd then
                     let p = fill_tcp_hdr tcph c (ucast ref_ts) TCP_FLAG_ACK p;
                         p = fill_ip_hdr iph 0 False p
                     in Inr (XDP_TX, c, p, data_meta, st)
                   else Inr (XDP_DROP, c, p, data_meta, st)
                 else if tx_pos \<noteq> tx_next_pos c then Inr (XDP_DROP, c, p, data_meta, st)
                 else
                   tx_event env iph tcph ev c cc ref_ts payload_len p data_meta st)"

definition egress_key :: "bytes \<Rightarrow> ebpf_flow_tuple" where
  "egress_key p = \<lparr> ft_local_ip = bpf_ntohl (ld32 26 p), ft_remote_ip = bpf_ntohl (ld32 30 p),
     ft_local_port = bpf_ntohs (ld16 34 p), ft_remote_port = bpf_ntohs (ld16 36 p) \<rparr>"

definition xdp_egress_prog :: "'c prog_env \<Rightarrow> 'c prog \<Rightarrow> error + xdp_action \<times> 'c prog" where
  "xdp_egress_prog env g =
    (let p = pg_pkt g; data_meta = pg_meta g; st = pg_st g; drop = Inr (XDP_DROP, g)
     in if \<not> e_meta_ok env then drop
        else if length data_meta < 32 then drop
        else if ETH_HLEN > length p then drop
        else if ETH_HLEN + IP_HLEN > length p then drop
        else if tx_slowpath (meta_tx data_meta) \<noteq> 0 \<and> tx_flag (meta_tx data_meta) AND FLAG_TO = 0 then
          let (act, p, cache) = xmit_packet_fib_lookup (e_lru env) (e_fib env) (e_ingress_ifindex env) 0 14 p (pg_cache g)
          in Inr (act, g\<lparr>pg_pkt := p, pg_cache := cache\<rparr>)
        else if ETH_HLEN + IP_HLEN + TCP_HLEN > length p then drop
        else case conn_map st (egress_key p) of
            None \<Rightarrow> drop
          | Some c \<Rightarrow>
              if flow_key c \<noteq> egress_key p then drop
              else
                let ev = (if tx_flag (meta_tx data_meta) AND FLAG_TO \<noteq> 0
                          then parse_req_to_timer_event (e_stack_app env) data_meta
                          else parse_req_to_app_event (e_stack_app env) data_meta)
                in case tcp_tx_process env 14 34 ev c p data_meta st of
                     Inl e \<Rightarrow> Inl e
                   | Inr (ret, c, p, data_meta, st) \<Rightarrow>
                       let st = put_conn (egress_key (pg_pkt g)) c st;
                           g = g\<lparr>pg_pkt := p, pg_meta := data_meta, pg_st := st\<rparr>
                       in if ret = XDP_DROP then Inr (XDP_DROP, g)
                          else
                            let p = st16 12 (bpf_htons ETH_P_IP) p;
                                p = st_bytes 0 (remote_mac c) p;
                                p = st_bytes 6 (local_mac c) p;
                                g = g\<lparr>pg_pkt := p\<rparr>
                            in if ret = XDP_REDIRECT then
                                 Inr (ret, g\<lparr>pg_st := upd_cpu (e_cpu env) (kick_tw (e_cpu env)) st\<rparr>)
                               else if ret = XDP_PASS then
                                 (if e_rx_queue_index env \<ge> MAX_NIC_QUEUES then Inr (XDP_DROP, g)
                                  else
                                    let (act, st) = redirect_xsk env (ucast (qid2xsk c ! unat (e_rx_queue_index env))) st
                                    in Inr (act, g\<lparr>pg_st := st\<rparr>))
                               else Inr (XDP_TX, g))"

subsection \<open>Reception\<close>

definition tcp_rx_process ::
  "'c prog_env \<Rightarrow> net_event \<Rightarrow> bpf_tcp_conn \<Rightarrow> bytes \<Rightarrow> meta_info \<Rightarrow> tcp_state
   \<Rightarrow> error + xdp_action \<times> bpf_tcp_conn \<times> meta_info \<times> tcp_state"
where
  "tcp_rx_process env ev c p data_meta st =
    (case cc_lookup (cc_map st) (cc_idx c) of
       None \<Rightarrow> Inr (XDP_DROP, c, data_meta, st)
     | Some cc \<Rightarrow>
         (case rx_dispatch (e_clock env 1) (e_clock env 2) p
                 \<lparr> ep_ev = ev, ep_c = c, ep_out = e_stack_out env, ep_meta = data_meta, ep_cc = cc,
                   ep_cpu = cpus st (e_cpu env) \<rparr> of
            Inl e \<Rightarrow> Inl e
          | Inr (act, s) \<Rightarrow>
              Inr (act, ep_c s, ep_meta s, put_cc (cc_idx c) (ep_cc s) (upd_cpu (e_cpu env) (\<lambda>_. ep_cpu s) st))))"

definition sock_key :: "nat \<Rightarrow> nat \<Rightarrow> bytes \<Rightarrow> ebpf_flow_tuple" where
  "sock_key iph tcph p = \<lparr> ft_local_ip = bpf_ntohl (ld32 (iph + 16) p), ft_remote_ip = bpf_ntohl (ld32 (iph + 12) p),
     ft_local_port = bpf_ntohs (ld16 (tcph + 2) p), ft_remote_port = bpf_ntohs (ld16 tcph p) \<rparr>"

text \<open>The acknowledgement of the previous connection is queued when a packet of another one arrives.\<close>

definition flush_prev_conn :: "'c prog_env \<Rightarrow> u32 \<Rightarrow> tcp_state \<Rightarrow> tcp_state" where
  "flush_prev_conn env idx st =
    (let cpu = e_cpu env
     in if prev_conn (cpus st cpu) \<noteq> NULL_CONN \<and> prev_conn (cpus st cpu) \<noteq> idx
        then upd_cpu cpu (\<lambda>u. u\<lparr>prev_conn := NULL_CONN\<rparr>) (snd (enqueue_prev_ack cpu (e_clock env 0) st))
        else st)"

definition sock_slowpath :: "'c prog_env \<Rightarrow> 'c prog \<Rightarrow> xdp_action \<times> 'c prog" where
  "sock_slowpath env g =
    (let qid = e_rx_queue_index env; sp = slow_path_map (pg_st g) qid
     in if qid \<ge> MAX_NIC_QUEUES \<or> \<not> sp_active sp then (XDP_DROP, g)
        else
          let (act, st) = redirect_xsk env (sp_xsk_map_key sp) (pg_st g)
          in (act, g\<lparr>pg_st := st\<rparr>))"

definition sock_fastpath :: "'c prog_env \<Rightarrow> nat \<Rightarrow> nat \<Rightarrow> 'c prog \<Rightarrow> error + xdp_action \<times> 'c prog" where
  "sock_fastpath env iph tcph g =
    (let p = pg_pkt g; qid = e_rx_queue_index env; key = sock_key iph tcph p;
         ev = parse_pkt_to_event (e_stack_net env) tcph iph (tcph + TCP_HLEN) p
     in case conn_map (pg_st g) key of
          None \<Rightarrow> Inr (XDP_DROP, g)
        | Some c \<Rightarrow>
            let st = flush_prev_conn env (cc_idx c) (pg_st g)
            in case conn_map st key of
                 None \<Rightarrow> Inr (XDP_DROP, g\<lparr>pg_st := st\<rparr>)
               | Some c \<Rightarrow>
                   let data_meta = upd_rx (\<lambda>r. r\<lparr>rx_conn := opaque_connection c\<rparr>) (pg_meta g)
                   in case tcp_rx_process env ev c p data_meta st of
                        Inl e \<Rightarrow> Inl e
                      | Inr (ret, c, data_meta, st) \<Rightarrow>
                          let st = put_conn key c st
                          in if ret = XDP_REDIRECT \<and> qid < MAX_NIC_QUEUES then
                               let (act, st) = redirect_xsk env (ucast (qid2xsk c ! unat qid)) st
                               in Inr (act, g\<lparr>pg_meta := data_meta, pg_st := st\<rparr>)
                             else Inr (XDP_DROP, g\<lparr>pg_meta := data_meta, pg_st := st\<rparr>))"

definition xdp_sock_prog :: "'c prog_env \<Rightarrow> 'c prog \<Rightarrow> error + xdp_action \<times> 'c prog" where
  "xdp_sock_prog env g =
    (let p = pg_pkt g
     in if e_cpu env \<ge> MAX_CPU then Inr (XDP_DROP, g)
        else if \<not> e_meta_ok env then Inr (XDP_DROP, g)
        else if length (pg_meta g) < 32 then Inr (XDP_DROP, g)
        else
          let g = g\<lparr>pg_meta := upd_rx (\<lambda>r. r\<lparr>rx_qid := e_rx_queue_index env\<rparr>) (replicate 32 0xFF)\<rparr>
          in case parse_ethhdr 0 p of
               None \<Rightarrow> Inr (XDP_DROP, g)
             | Some (proto_type, eth, pos) \<Rightarrow>
                 if proto_type \<noteq> bpf_htons ETH_P_IP then Inr (XDP_DROP, g)
                 else case parse_iphdr pos p of
                     None \<Rightarrow> Inr (XDP_PASS, g)
                   | Some (proto_type, iph, pos) \<Rightarrow>
                       if proto_type \<noteq> IPPROTO_TCP then Inr (XDP_PASS, g)
                       else case parse_tcphdr pos p of
                           None \<Rightarrow> Inr (XDP_DROP, g)
                         | Some (tcp_length, tcph, pos) \<Rightarrow>
                             if is_tcp_syn tcph p \<or> is_tcp_syn_ack tcph p \<or> is_tcp_rst tcph p then Inr (sock_slowpath env g)
                             else if tcph + TCP_HLEN + TS_OPT_STRUCT > length p then Inr (XDP_DROP, g)
                             else sock_fastpath env iph tcph g)"

subsection \<open>Generation of acknowledgements\<close>

abbreviation (input) TCP_ACK_LEN :: nat where "TCP_ACK_LEN \<equiv> ETH_HLEN + IP_HLEN + TCP_HLEN + TS_OPT_SIZE"

text \<open>The tail adjustment cuts a frame of \<open>XDP_GEN_PKT_SIZE\<close> bytes down to the headers.\<close>

abbreviation (input) XDP_GEN_PKT_SIZE :: nat where "XDP_GEN_PKT_SIZE \<equiv> 128"

definition gen_fill :: "bpf_tcp_ack \<Rightarrow> bytes \<Rightarrow> bytes" where
  "gen_fill ack p =
    (let tcph = 34;
         p = put_ts_opt 54 (ak_ts_val ack) (ak_ts_ecr ack) p;
         p = st16 tcph (bpf_htons (ak_local_port ack)) p;
         p = st16 (tcph + 2) (bpf_htons (ak_remote_port ack)) p;
         p = st32 (tcph + 4) (bpf_htonl (ak_seq ack)) p;
         p = st32 (tcph + 8) (bpf_htonl (ak_ack ack)) p;
         p = st8 (tcph + 12) 0x80 p;
         p = put_tcp_flag FIN False tcph p;
         p = put_tcp_flag SYN False tcph p;
         p = put_tcp_flag RST False tcph p;
         p = put_tcp_flag PSH False tcph p;
         p = put_tcp_flag ACK True tcph p;
         p = put_tcp_flag URG False tcph p;
         p = put_tcp_flag ECE (bit (ak_ecn_flags ack) 0) tcph p;
         p = put_tcp_flag CWR False tcph p;
         p = st16 (tcph + 14) (bpf_htons (ucast (ak_rxwnd ack))) p;
         p = st16 (tcph + 18) 0 p;
         p = st16 (tcph + 16) 0 p;
         p = st32 26 (bpf_htonl (ak_local_ip ack)) p;
         p = st32 30 (bpf_htonl (ak_remote_ip ack)) p
     in fill_ip_hdr 14 0 False p)"

definition xdp_gen_prog :: "'c prog_env \<Rightarrow> 'c prog \<Rightarrow> xdp_action \<times> 'c prog" where
  "xdp_gen_prog env g =
    (let cpu = e_cpu env
     in if cpu \<ge> MAX_CPU then (XDP_ABORTED, g)
        else
          let st = upd_cpu cpu (\<lambda>u. u\<lparr>rx_cached_ts := 0\<rparr>) (pg_st g);
              st = (if prev_conn (cpus st cpu) \<noteq> NULL_CONN
                    then upd_cpu cpu (\<lambda>u. u\<lparr>prev_conn := NULL_CONN\<rparr>) (snd (enqueue_prev_ack cpu (e_clock env 0) st))
                    else st);
              g = g\<lparr>pg_st := st\<rparr>
          in if \<not> e_tail_ok env then (XDP_ABORTED, g)
             else
               let p = take (length (pg_pkt g) - (XDP_GEN_PKT_SIZE - TCP_ACK_LEN)) (pg_pkt g);
                   g = g\<lparr>pg_pkt := p\<rparr>
               in if ETH_HLEN > length p then (XDP_ABORTED, g)
                  else if ETH_HLEN + IP_HLEN > length p then (XDP_ABORTED, g)
                  else if ETH_HLEN + IP_HLEN + TCP_HLEN > length p then (XDP_ABORTED, g)
                  else if ETH_HLEN + IP_HLEN + TCP_HLEN + TS_OPT_STRUCT > length p then (XDP_ABORTED, g)
                  else if ackqueue_empty cpu st then (XDP_ABORTED, g)
                  else case dequeue_ack cpu st of
                      (None, st) \<Rightarrow> (XDP_ABORTED, g\<lparr>pg_st := st\<rparr>)
                    | (Some ack, st) \<Rightarrow>
                        let (act, p, cache) = xmit_packet_fib_lookup (e_lru env) (e_fib env) (e_ingress_ifindex env) 0 14
                                                (gen_fill ack p) (pg_cache g)
                        in (act, g\<lparr>pg_pkt := p, pg_st := st, pg_cache := cache\<rparr>))"

definition xdp_cpumap_prog :: "'c prog_env \<Rightarrow> 'c prog \<Rightarrow> xdp_action \<times> 'c prog" where
  "xdp_cpumap_prog env g = (XDP_DROP, g)"

section \<open>What the processors leave alone\<close>

text \<open>
  The identity of a connection (fields that only the control plane writes) together with
  the right edge of its window.
\<close>

definition conn_id :: "bpf_tcp_conn \<Rightarrow> bpf_tcp_conn" where
  "conn_id c = zero_conn\<lparr>opaque_connection := opaque_connection c, qid := qid c, local_mac := local_mac c,
     remote_mac := remote_mac c, local_ip := local_ip c, remote_ip := remote_ip c, local_port := local_port c,
     remote_port := remote_port c, rx_buf_size := rx_buf_size c, tx_buf_size := tx_buf_size c, cc_idx := cc_idx c,
     ecn_enable := ecn_enable c, recv_init_seq := recv_init_seq c, qid2xsk := qid2xsk c\<rparr>"

definition conn_frame :: "bpf_tcp_conn \<Rightarrow> u32 \<times> bpf_tcp_conn" where
  "conn_frame c = (right_edge c, conn_id c)"

lemmas frame_defs = conn_frame_def conn_id_def right_edge_def

lemma conn_id_fields:
  assumes "conn_id c = conn_id c'"
  shows "cc_idx c = cc_idx c'" "flow_key c = flow_key c'"
proof -
  have "cc_idx (conn_id c) = cc_idx (conn_id c')" "flow_key (conn_id c) = flow_key (conn_id c')" by (simp_all only: assms)
  then show "cc_idx c = cc_idx c'" "flow_key c = flow_key c'" by (simp_all add: conn_id_def flow_key_def)
qed

lemma conn_frame_upd [simp]:
  "conn_frame (c\<lparr>rx_remote_avail := x0\<rparr>) = conn_frame c"
  "conn_frame (c\<lparr>rx_next_pos := x1\<rparr>) = conn_frame c"
  "conn_frame (c\<lparr>tx_pending := x2\<rparr>) = conn_frame c"
  "conn_frame (c\<lparr>tx_sent := x3\<rparr>) = conn_frame c"
  "conn_frame (c\<lparr>tx_next_pos := x4\<rparr>) = conn_frame c"
  "conn_frame (c\<lparr>tx_next_ts := x5\<rparr>) = conn_frame c"
  "conn_frame (c\<lparr>rx_ooo_start := x6\<rparr>) = conn_frame c"
  "conn_frame (c\<lparr>rx_ooo_len := x7\<rparr>) = conn_frame c"
  "conn_frame (c\<lparr>rx_dupack_cnt := x8\<rparr>) = conn_frame c"
  "conn_frame (c\<lparr>tx_next_seq := x9\<rparr>) = conn_frame c"
  "conn_frame (c\<lparr>send_una := x10\<rparr>) = conn_frame c"
  "conn_frame (c\<lparr>data_end := x11\<rparr>) = conn_frame c"
  "conn_frame (c\<lparr>buf_curr_seq := x12\<rparr>) = conn_frame c"
  by (simp_all add: frame_defs)

lemma conn_id_upd [simp]:
  "conn_id (c\<lparr>rx_remote_avail := x0\<rparr>) = conn_id c"
  "conn_id (c\<lparr>rx_next_pos := x1\<rparr>) = conn_id c"
  "conn_id (c\<lparr>tx_pending := x2\<rparr>) = conn_id c"
  "conn_id (c\<lparr>tx_sent := x3\<rparr>) = conn_id c"
  "conn_id (c\<lparr>tx_next_pos := x4\<rparr>) = conn_id c"
  "conn_id (c\<lparr>tx_next_ts := x5\<rparr>) = conn_id c"
  "conn_id (c\<lparr>rx_ooo_start := x6\<rparr>) = conn_id c"
  "conn_id (c\<lparr>rx_ooo_len := x7\<rparr>) = conn_id c"
  "conn_id (c\<lparr>rx_dupack_cnt := x8\<rparr>) = conn_id c"
  "conn_id (c\<lparr>tx_next_seq := x9\<rparr>) = conn_id c"
  "conn_id (c\<lparr>send_una := x10\<rparr>) = conn_id c"
  "conn_id (c\<lparr>data_end := x11\<rparr>) = conn_id c"
  "conn_id (c\<lparr>buf_curr_seq := x12\<rparr>) = conn_id c"
  "conn_id (c\<lparr>rx_next_seq := x13\<rparr>) = conn_id c"
  "conn_id (c\<lparr>rx_avail := x14\<rparr>) = conn_id c"
  by (simp_all add: conn_id_def)

lemma go_back_frame [simp]: "conn_frame (go_back n c) = conn_frame c"
  by (simp add: go_back_def)

lemma pkt_gen_frame:
  "mtp_pkt_gen_wrapper sg bp c hdrs p n sq t m = Inr (c', p', m') \<Longrightarrow> conn_frame c' = conn_frame c \<and> length p' = length p"
  by (auto simp: mtp_pkt_gen_wrapper_def Let_def split: if_splits option.splits)

lemma send_ep_frame:
  "send_ep ev c cc hdrs p m = Inr (c', cc', p', m') \<Longrightarrow> conn_frame c' = conn_frame c"
  by (drule send_ep_effect) simp

lemma timeout_frame:
  assumes "ack_timeout_xdp_ep c cc p m = Inr (act, c', cc', m')"
  shows "conn_frame c' = conn_frame c"
proof (cases "tx_next_seq c = send_una c")
  case True
  then show ?thesis using assms by (simp add: ack_timeout_xdp_ep_def)
next
  case False
  let ?c = "go_back (tx_next_seq c - send_una c) (c\<lparr>rx_dupack_cnt := 0\<rparr>)"
  obtain p' where "mtp_pkt_gen_wrapper UNSEG_DATA zero_bp ?c None p 0 (send_una ?c) TIMER_EVENT m = Inr (c', p', m')"
    using assms False by (auto simp: ack_timeout_xdp_ep_def Let_def go_back_def split: sum.splits)
  then have "conn_frame c' = conn_frame ?c" using pkt_gen_frame by blast
  then show ?thesis by simp
qed

lemma fast_retr_frame: "conn_frame (ep_c (fast_retr_rec_ep s)) = conn_frame (ep_c s)" "ep_cpu (fast_retr_rec_ep s) = ep_cpu s"
  by (simp_all add: fast_retr_rec_ep_def Let_def)

lemma ack_net_frame:
  assumes "ack_net_ep kt p s = Inr s'"
  shows "conn_frame (ep_c s') = conn_frame (ep_c s) \<and> ep_cpu s' = ep_cpu s"
proof (cases "rx_dupack_cnt (ep_c s) = 3")
  case True
  let ?c = "(ep_c s)\<lparr>rx_dupack_cnt := 0\<rparr>"
  obtain p' m' where "mtp_pkt_gen_wrapper UNSEG_DATA zero_bp ?c None p 0 (send_una ?c) NET_EVENT (ep_meta s) = Inr (ep_c s', p', m')"
    "ep_cpu s' = ep_cpu s"
    using assms True by (auto simp: ack_net_ep_def Let_def split: sum.splits)
  then show ?thesis using pkt_gen_frame by fastforce
next
  case False
  from ack_net_effect [OF assms this] obtain w where "ep_c s' = (ep_c s)\<lparr>rx_remote_avail := w,
    send_una := (if io_num_acked_bytes (ep_out s) \<noteq> 0 then ev_ack_seq (ep_ev s) else send_una (ep_c s))\<rparr>" by blast
  moreover have "ep_cpu s' = ep_cpu s" using assms False by (auto simp: ack_net_ep_def mtp_tx_data_flush_def Let_def)
  ultimately show ?thesis by simp
qed

lemma detect_ooo_id: "conn_id (ep_c (detect_ooo_data_ep s)) = conn_id (ep_c s)"
  by (simp add: detect_ooo_data_ep_def Let_def)

lemma flush_interval_id: "conn_id (ep_c (flush_interval s)) = conn_id (ep_c s)"
  by (simp add: flush_interval_def Let_def split: option.split prod.split)

lemma flush_ooo_id: "conn_id (ep_c (flush_ooo_data_ep s)) = conn_id (ep_c s)"
  by (simp add: flush_ooo_data_ep_def Let_def flush_interval_id)

lemma pkt_gen_ring_wf:
  assumes "mtp_pkt_gen_for_xdp_gen bp c u = Inr (c', u')" "ack_ring_wf u"
  shows "ack_ring_wf u'"
  using assms slot_bounds(2) [of "ack_prod u + 1"]
  by (auto simp: mtp_pkt_gen_for_xdp_gen_def ack_ring_wf_def Let_def split: if_splits option.splits)

lemma send_ack_cpu:
  assumes "send_ack s = Inr s'" "ack_ring_wf (ep_cpu s)"
  shows "ack_ring_wf (ep_cpu s')"
  using assms pkt_gen_ring_wf by (fastforce simp: send_ack_def split: if_splits sum.splits)

lemma data_chain_frame:
  assumes "data_chain s = Inr s'"
  shows "conn_frame (ep_c s') = conn_frame (ep_c s)" "ack_ring_wf (ep_cpu s) \<Longrightarrow> ack_ring_wf (ep_cpu s')"
proof -
  let ?t = "data_net_ep (flush_ooo_data_ep (detect_ooo_data_ep (verify_trim_data_ep s)))"
  have a: "send_ack ?t = Inr s'" using assms by (simp add: data_chain_def)
  then obtain t where "ep_c s' = (ep_c ?t)\<lparr>tx_next_ts := t\<rparr>" using send_ack_effect(1) by blast
  then have "conn_id (ep_c s') = conn_id (ep_c ?t)" by (simp only: conn_id_upd)
  then show "conn_frame (ep_c s') = conn_frame (ep_c s)"
    using data_chain_edge [OF assms] by (simp add: conn_frame_def flush_ooo_id detect_ooo_id)
  show "ack_ring_wf (ep_cpu s) \<Longrightarrow> ack_ring_wf (ep_cpu s')" using send_ack_cpu [OF a] by simp
qed

lemma rx_dispatch_frame:
  assumes "rx_dispatch k1 k2 p s = Inr (act, s')"
  shows "conn_frame (ep_c s') = conn_frame (ep_c s)" "ack_ring_wf (ep_cpu s) \<Longrightarrow> ack_ring_wf (ep_cpu s')"
proof -
  let ?s = "s\<lparr>ep_ev := (ep_ev s)\<lparr>ev_timestamp := rx_now k1 (ep_cpu s)\<rparr>\<rparr>"
  consider "ack_chain k2 p ?s = Inr s'" | "data_chain ?s = Inr s'" | "s' = ?s"
    using assms by (auto simp: rx_dispatch_def Let_def split: if_splits sum.splits)
  then have "conn_frame (ep_c s') = conn_frame (ep_c s) \<and> (ack_ring_wf (ep_cpu s) \<longrightarrow> ack_ring_wf (ep_cpu s'))"
  proof cases
    case 1
    then show ?thesis using ack_net_frame [of k2 p _ s'] by (simp add: ack_chain_def fast_retr_frame)
  next
    case 2
    then show ?thesis using data_chain_frame [OF 2] by simp
  qed simp
  then show "conn_frame (ep_c s') = conn_frame (ep_c s)" "ack_ring_wf (ep_cpu s) \<Longrightarrow> ack_ring_wf (ep_cpu s')" by blast+
qed

end
