(* ===== verification/Tcp_System.thy ===== *)
theory Tcp_System
  imports Tcp_Progs "HOL-Library.Sublist"
begin

text \<open>
  The TCP programs as one system: runs of \<open>xdp_sock\<close>, \<open>xdp_gen\<close> and \<open>xdp_egress\<close>
  on shared maps and per-CPU variables, in any order and on any CPU.  The lemmas
  lift the frame facts of the processors to the programs; the properties are the
  invariants of the whole system.
\<close>

section \<open>Definitions\<close>

text \<open>The frame of a flow, the well-formedness of the shared state.\<close>

definition flow_frame :: "tcp_state \<Rightarrow> ebpf_flow_tuple \<Rightarrow> (u32 \<times> bpf_tcp_conn) option" where
  "flow_frame st k = map_option conn_frame (conn_map st k)"

definition rings_wf :: "tcp_state \<Rightarrow> bool" where
  "rings_wf st \<longleftrightarrow> (\<forall>i. ack_ring_wf (cpus st i))"

definition state_wf :: "tcp_state \<Rightarrow> bool" where
  "state_wf st \<longleftrightarrow> rings_wf st \<and> (\<forall>k c. conn_map st k = Some c \<longrightarrow> flow_key c = k \<and> cc_idx c < MAX_TCP_FLOWS)"

text \<open>
  One run of a program.  The label of an egress run is the flow of the packet and
  the number of bytes that user space says it has consumed.
\<close>

inductive sys_step :: "tcp_state \<Rightarrow> (ebpf_flow_tuple \<times> u32) list \<Rightarrow> tcp_state \<Rightarrow> bool" where
  sys_sock: "xdp_sock_prog (env :: (u32 \<rightharpoonup> dst_entry) prog_env) g = Inr (act, g') \<Longrightarrow> sys_step (pg_st g) [] (pg_st g')"
| sys_gen: "xdp_gen_prog (env :: (u32 \<rightharpoonup> dst_entry) prog_env) g = (act, g') \<Longrightarrow> sys_step (pg_st g) [] (pg_st g')"
| sys_egress: "xdp_egress_prog (env :: (u32 \<rightharpoonup> dst_entry) prog_env) g = Inr (act, g')
    \<Longrightarrow> sys_step (pg_st g) [(egress_key (pg_pkt g), tx_rx_bump (meta_tx (pg_meta g)))] (pg_st g')"

inductive sys_run :: "tcp_state \<Rightarrow> (ebpf_flow_tuple \<times> u32) list \<Rightarrow> tcp_state \<Rightarrow> bool" for st where
  sys_start: "sys_run st [] st"
| sys_next: "sys_run st bs st' \<Longrightarrow> sys_step st' b st'' \<Longrightarrow> sys_run st (bs @ b) st''"

text \<open>The bytes that a list of labels announces for a flow.\<close>

definition bumped :: "(ebpf_flow_tuple \<times> u32) list \<Rightarrow> ebpf_flow_tuple \<Rightarrow> u32" where
  "bumped bs k = sum_list (map snd (filter (\<lambda>b. fst b = k) bs))"

section \<open>Frames of the programs\<close>

lemma flow_frame_simps [simp]:
  "flow_frame (upd_cpu cpu f st) = flow_frame st" "flow_frame (put_cc i cc st) = flow_frame st"
  by (simp_all add: flow_frame_def fun_eq_iff)

lemma flow_frame_put_conn:
  "conn_map st k = Some c \<Longrightarrow> conn_frame c' = conn_frame c \<Longrightarrow> flow_frame (put_conn k c' st) = flow_frame st"
  by (auto simp: flow_frame_def fun_eq_iff)

lemma rings_wf_simps [simp]:
  "rings_wf (put_cc i cc st) = rings_wf st" "rings_wf (put_conn k c st) = rings_wf st"
  by (simp_all add: rings_wf_def)

lemma rings_wf_upd:
  "rings_wf st \<Longrightarrow> (ack_ring_wf (cpus st cpu) \<Longrightarrow> ack_ring_wf (f (cpus st cpu))) \<Longrightarrow> rings_wf (upd_cpu cpu f st)"
  by (simp add: rings_wf_def)

lemma ack_ring_wf_upd [simp]:
  "ack_ring_wf (u\<lparr>prev_conn := x1\<rparr>) = ack_ring_wf u" "ack_ring_wf (u\<lparr>redirect_info := x2\<rparr>) = ack_ring_wf u"
  "ack_ring_wf (u\<lparr>rx_cached_ts := x3\<rparr>) = ack_ring_wf u" "ack_ring_wf (u\<lparr>nr_pkts_in_tw := x4\<rparr>) = ack_ring_wf u"
  "ack_ring_wf (u\<lparr>front_timestamp := x5\<rparr>) = ack_ring_wf u" "ack_ring_wf (u\<lparr>has_kick := x6\<rparr>) = ack_ring_wf u"
  "ack_ring_wf (u\<lparr>twt_ready := x7\<rparr>) = ack_ring_wf u" "ack_ring_wf (u\<lparr>timer_started := x8\<rparr>) = ack_ring_wf u"
  by (simp_all add: ack_ring_wf_def)

lemma redirect_xsk_frame:
  "flow_frame (snd (redirect_xsk env key st)) = flow_frame st" "rings_wf st \<Longrightarrow> rings_wf (snd (redirect_xsk env key st))"
  by (simp_all add: redirect_xsk_def rings_wf_upd)

lemma enqueue_prev_ack_frame:
  "flow_frame (snd (enqueue_prev_ack cpu t st)) = flow_frame st"
  "rings_wf st \<Longrightarrow> rings_wf (snd (enqueue_prev_ack cpu t st))"
proof -
  show "flow_frame (snd (enqueue_prev_ack cpu t st)) = flow_frame st"
    by (auto simp: enqueue_prev_ack_def fill_ack_def Let_def flow_frame_put_conn split: option.split)
  assume "rings_wf st"
  then show "rings_wf (snd (enqueue_prev_ack cpu t st))"
    using slot_bounds(2) [of "ack_prod (cpus st cpu) + 1"]
    by (auto simp: enqueue_prev_ack_def fill_ack_def Let_def ack_ring_wf_def intro!: rings_wf_upd split: option.split)
qed

lemma dequeue_ack_frame:
  "flow_frame (snd (dequeue_ack cpu st)) = flow_frame st" "rings_wf st \<Longrightarrow> rings_wf (snd (dequeue_ack cpu st))"
  using slot_bounds(2) [of "ack_cons (cpus st cpu) + 1"]
  by (auto simp: dequeue_ack_def Let_def ack_ring_wf_def intro!: rings_wf_upd)

lemma flush_prev_conn_frame:
  "flow_frame (flush_prev_conn env i st) = flow_frame st" "rings_wf st \<Longrightarrow> rings_wf (flush_prev_conn env i st)"
  by (auto simp: flush_prev_conn_def Let_def enqueue_prev_ack_frame intro!: rings_wf_upd)

lemma tcp_rx_process_frame:
  assumes "tcp_rx_process env ev c p m st = Inr (act, c', m', st')"
  shows "conn_frame c' = conn_frame c" "conn_map st' = conn_map st" "rings_wf st \<Longrightarrow> rings_wf st'"
proof -
  show "conn_frame c' = conn_frame c" "conn_map st' = conn_map st"
    using assms rx_dispatch_frame(1)
    by (fastforce simp: tcp_rx_process_def split: option.splits sum.splits prod.splits)+
  assume "rings_wf st"
  then show "rings_wf st'"
    using assms rx_dispatch_frame(2)
    by (fastforce simp: tcp_rx_process_def rings_wf_def split: option.splits sum.splits prod.splits)
qed

lemma sock_fastpath_frame:
  assumes "sock_fastpath env iph tcph g = Inr (act, g')"
  shows "flow_frame (pg_st g') = flow_frame (pg_st g) \<and> (rings_wf (pg_st g) \<longrightarrow> rings_wf (pg_st g'))"
proof -
  let ?k = "sock_key iph tcph (pg_pkt g)" and ?st = "pg_st g"
  show ?thesis
  proof (cases "conn_map ?st ?k")
    case None
    then show ?thesis using assms by (simp add: sock_fastpath_def Let_def)
  next
    case (Some c0)
    let ?st1 = "flush_prev_conn env (cc_idx c0) ?st"
    have f1: "flow_frame ?st1 = flow_frame ?st" "rings_wf ?st \<Longrightarrow> rings_wf ?st1" by (simp_all add: flush_prev_conn_frame)
    show ?thesis
    proof (cases "conn_map ?st1 ?k")
      case None
      then show ?thesis using assms Some f1 by (auto simp: sock_fastpath_def Let_def)
    next
      case (Some c)
      let ?ev = "parse_pkt_to_event (e_stack_net env) tcph iph (tcph + TCP_HLEN) (pg_pkt g)"
      let ?m = "upd_rx (\<lambda>r. r\<lparr>rx_conn := opaque_connection c\<rparr>) (pg_meta g)"
      obtain ret c' m' st' where rx: "tcp_rx_process env ?ev c (pg_pkt g) ?m ?st1 = Inr (ret, c', m', st')"
        using assms \<open>conn_map ?st ?k = Some c0\<close> Some by (auto simp: sock_fastpath_def Let_def split: sum.splits)
      note r = tcp_rx_process_frame [OF rx]
      have "flow_frame (put_conn ?k c' st') = flow_frame ?st1"
        using flow_frame_put_conn [of st' ?k c c'] r(1,2) Some by (simp add: flow_frame_def fun_eq_iff)
      then have p: "flow_frame (put_conn ?k c' st') = flow_frame ?st" using f1 by simp
      let ?x = "ucast (qid2xsk c' ! unat (e_rx_queue_index env))"
      have "pg_st g' = put_conn ?k c' st' \<or> pg_st g' = snd (redirect_xsk env ?x (put_conn ?k c' st'))"
        using assms \<open>conn_map ?st ?k = Some c0\<close> Some rx
        by (auto simp: sock_fastpath_def Let_def case_prod_beta split: if_splits)
      then show ?thesis using p r(3) f1(2) by (auto simp: redirect_xsk_frame)
    qed
  qed
qed

lemma sock_slowpath_frame:
  "flow_frame (pg_st (snd (sock_slowpath env g))) = flow_frame (pg_st g)
   \<and> (rings_wf (pg_st g) \<longrightarrow> rings_wf (pg_st (snd (sock_slowpath env g))))"
  by (simp add: sock_slowpath_def Let_def case_prod_beta redirect_xsk_frame)

lemma xdp_sock_frame:
  assumes "xdp_sock_prog env g = Inr (act, g')"
  shows "flow_frame (pg_st g') = flow_frame (pg_st g) \<and> (rings_wf (pg_st g) \<longrightarrow> rings_wf (pg_st g'))"
proof -
  define keep :: "error + xdp_action \<times> 'a prog \<Rightarrow> bool" where
    "keep r = (case r of Inl _ \<Rightarrow> True
       | Inr (_, h) \<Rightarrow> flow_frame (pg_st h) = flow_frame (pg_st g) \<and> (rings_wf (pg_st g) \<longrightarrow> rings_wf (pg_st h)))" for r
  let ?h = "g\<lparr>pg_meta := upd_rx (\<lambda>r. r\<lparr>rx_qid := e_rx_queue_index env\<rparr>) (replicate 32 0xFF)\<rparr>"
  have k: "keep (Inr (a, g))" "keep (Inr (a, ?h))" for a by (simp_all add: keep_def)
  have f: "keep (sock_fastpath env iph tcph ?h)" for iph tcph
    using sock_fastpath_frame [of env iph tcph ?h] by (auto simp: keep_def split: sum.split)
  have s: "keep (Inr (sock_slowpath env ?h))"
    using sock_slowpath_frame [of env ?h] by (auto simp: keep_def split: prod.split)
  have "keep (xdp_sock_prog env g)"
    unfolding xdp_sock_prog_def Let_def
    by (simp add: k f s split: option.split prod.split)
  then show ?thesis using assms by (simp add: keep_def)
qed

lemma xdp_gen_frame:
  assumes "xdp_gen_prog env g = (act, g')"
  shows "flow_frame (pg_st g') = flow_frame (pg_st g) \<and> (rings_wf (pg_st g) \<longrightarrow> rings_wf (pg_st g'))"
proof -
  let ?cpu = "e_cpu env"
  define st1 where "st1 = upd_cpu ?cpu (\<lambda>u. u\<lparr>rx_cached_ts := 0\<rparr>) (pg_st g)"
  define st2 where "st2 = (if prev_conn (cpus st1 ?cpu) \<noteq> NULL_CONN
     then upd_cpu ?cpu (\<lambda>u. u\<lparr>prev_conn := NULL_CONN\<rparr>) (snd (enqueue_prev_ack ?cpu (e_clock env 0) st1)) else st1)"
  have s: "flow_frame st2 = flow_frame (pg_st g)" "rings_wf (pg_st g) \<Longrightarrow> rings_wf st2"
    by (auto simp: st2_def st1_def enqueue_prev_ack_frame(1) intro!: rings_wf_upd enqueue_prev_ack_frame(2))
  have "pg_st g' = pg_st g \<or> pg_st g' = st2 \<or> pg_st g' = snd (dequeue_ack ?cpu st2)"
    using assms unfolding xdp_gen_prog_def Let_def st1_def [symmetric] st2_def [symmetric]
    by (auto split: if_splits prod.splits option.splits)
  then show ?thesis using s dequeue_ack_frame by auto
qed

lemma tw_wf [simp]:
  "ack_ring_wf (snd (tw_insert cpu ts k u)) = ack_ring_wf u" "ack_ring_wf (kick_tw cpu u) = ack_ring_wf u"
  by (simp_all add: tw_insert_def kick_tw_def Let_def)

lemma tx_release_frame:
  "conn_map (snd (tx_release env c cc d r n st)) = conn_map st"
  "rings_wf st \<Longrightarrow> rings_wf (snd (tx_release env c cc d r n st))"
  by (simp_all add: tx_release_def Let_def case_prod_beta rings_wf_def)

lemma conn_frame_rx_avail:
  "conn_frame (c\<lparr>rx_avail := rx_avail c + b\<rparr>) = (right_edge c + b, conn_id c)"
  by (simp add: conn_frame_def right_edge_def)

lemma tx_event_frame:
  assumes "tx_event env iph tcph ev c cc r n p m st = Inr (act, c', p', m', st')"
  shows "conn_frame c' = conn_frame c \<and> conn_map st' = conn_map st \<and> (rings_wf st \<longrightarrow> rings_wf st')"
proof -
  define d where "d = fst (cc_get_desired_tx_ts cc r n)"
  define cc1 where "cc1 = snd (cc_get_desired_tx_ts cc r n)"
  note t = assms [unfolded tx_event_def case_prod_beta Let_def, folded d_def cc1_def]
  let ?ev = "ev\<lparr>at_timestamp := ucast r\<rparr>"
  consider (app) "at_type ev = APP_EVENT" | (timer) "at_type ev = TIMER_EVENT"
    | (other) "at_type ev \<noteq> APP_EVENT" "at_type ev \<noteq> TIMER_EVENT" by blast
  then show ?thesis
  proof cases
    case app
    then obtain cc' where s: "send_ep ?ev c cc1 (Some (tcph, iph)) p m = Inr (c', cc', p', m')"
      "st' = snd (tx_release env c' cc' d r n (put_cc (cc_idx c') cc' st))"
      using t by (auto split: sum.splits)
    then show ?thesis using send_ep_frame [OF s(1)] by (simp add: tx_release_frame)
  next
    case timer
    then obtain cc' where s: "ack_timeout_xdp_ep c cc1 p m = Inr (act, c', cc', m')" "st' = put_cc (cc_idx c') cc' st"
      using t by (auto split: sum.splits)
    then show ?thesis using timeout_frame [OF s(1)] by simp
  next
    case other
    then show ?thesis using t by (auto simp: tx_release_frame)
  qed
qed

lemma tcp_tx_process_frame:
  assumes "tcp_tx_process env iph tcph ev c p m st = Inr (act, c', p', m', st')"
  shows "(conn_frame c' = conn_frame c \<or> conn_frame c' = (right_edge c + tx_rx_bump (meta_tx m), conn_id c))
    \<and> conn_map st' = conn_map st \<and> (rings_wf st \<longrightarrow> rings_wf st')"
proof -
  define b where "b = (if tx_rx_bump (meta_tx m) \<noteq> 0 then c\<lparr>rx_avail := rx_avail c + tx_rx_bump (meta_tx m)\<rparr> else c)"
  have b: "conn_frame b = conn_frame c \<or> conn_frame b = (right_edge c + tx_rx_bump (meta_tx m), conn_id c)"
    using conn_frame_rx_avail [of c] by (auto simp: b_def)
  have "(c' = c \<or> c' = b) \<and> st' = st \<or> (\<exists>cc r n. tx_event env iph tcph ev b cc r n p m st = Inr (act, c', p', m', st'))"
    using assms unfolding tcp_tx_process_def Let_def b_def [symmetric] by (auto split: if_splits option.splits)
  then show ?thesis using b tx_event_frame by fastforce
qed


text \<open>How the frame of the flow \<open>key\<close> may change in an egress run that announces \<open>b\<close> consumed bytes.\<close>

definition bump_frame :: "ebpf_flow_tuple \<Rightarrow> u32 \<Rightarrow> tcp_state \<Rightarrow> tcp_state \<Rightarrow> bool" where
  "bump_frame key b st st' \<longleftrightarrow> flow_frame st' = flow_frame st
     \<or> flow_frame st' = (flow_frame st)(key := map_option (\<lambda>(e, i). (e + b, i)) (flow_frame st key))"

lemma put_conn_bump:
  assumes "conn_map st k = Some c" "conn_map st1 = conn_map st"
    and "conn_frame c' = conn_frame c \<or> conn_frame c' = (right_edge c + b, conn_id c)"
  shows "bump_frame k b st (put_conn k c' st1)"
  using assms by (auto simp: bump_frame_def flow_frame_def fun_eq_iff conn_frame_def [of c])

lemma xdp_egress_frame:
  assumes "xdp_egress_prog env g = Inr (act, g')"
  shows "bump_frame (egress_key (pg_pkt g)) (tx_rx_bump (meta_tx (pg_meta g))) (pg_st g) (pg_st g')
    \<and> (rings_wf (pg_st g) \<longrightarrow> rings_wf (pg_st g'))"
proof -
  let ?k = "egress_key (pg_pkt g)"
  let ?ev = "if tx_flag (meta_tx (pg_meta g)) AND FLAG_TO \<noteq> 0 then parse_req_to_timer_event (e_stack_app env) (pg_meta g)
    else parse_req_to_app_event (e_stack_app env) (pg_meta g)"
  have "pg_st g' = pg_st g \<or> (\<exists>c ret c' p' m' st'. conn_map (pg_st g) ?k = Some c
      \<and> tcp_tx_process env 14 34 ?ev c (pg_pkt g) (pg_meta g) (pg_st g) = Inr (ret, c', p', m', st')
      \<and> (pg_st g' = put_conn ?k c' st' \<or> pg_st g' = upd_cpu (e_cpu env) (kick_tw (e_cpu env)) (put_conn ?k c' st')
        \<or> pg_st g' = snd (redirect_xsk env (ucast (qid2xsk c' ! unat (e_rx_queue_index env))) (put_conn ?k c' st'))))"
    using assms unfolding xdp_egress_prog_def Let_def case_prod_beta
    by (auto simp: xmit_packet_fib_lookup_def split: if_splits option.splits sum.splits)
  then show ?thesis
  proof (elim disjE exE conjE)
    assume "pg_st g' = pg_st g"
    then show ?thesis by (simp add: bump_frame_def)
  next
    fix c ret c' p' m' st'
    assume c: "conn_map (pg_st g) ?k = Some c"
      and t: "tcp_tx_process env 14 34 ?ev c (pg_pkt g) (pg_meta g) (pg_st g) = Inr (ret, c', p', m', st')"
    note f = tcp_tx_process_frame [OF t]
    then have b: "bump_frame ?k (tx_rx_bump (meta_tx (pg_meta g))) (pg_st g) (put_conn ?k c' st')"
      using put_conn_bump [OF c] by blast
    show ?thesis if "pg_st g' = put_conn ?k c' st'" using b f that by simp
    show ?thesis if "pg_st g' = upd_cpu (e_cpu env) (kick_tw (e_cpu env)) (put_conn ?k c' st')"
      using b f that by (auto simp: bump_frame_def intro!: rings_wf_upd)
    show ?thesis if "pg_st g' = snd (redirect_xsk env (ucast (qid2xsk c' ! unat (e_rx_queue_index env))) (put_conn ?k c' st'))"
      using b f that by (simp add: bump_frame_def redirect_xsk_frame)
  qed
qed

section \<open>Invariants of the system\<close>

lemma state_wf_frame:
  "state_wf st \<longleftrightarrow> rings_wf st \<and> (\<forall>k f. flow_frame st k = Some f \<longrightarrow> flow_key (snd f) = k \<and> cc_idx (snd f) < MAX_TCP_FLOWS)"
proof -
  have f: "flow_key (snd (conn_frame c)) = flow_key c" "cc_idx (snd (conn_frame c)) = cc_idx c" for c
    by (simp_all add: conn_frame_def conn_id_def flow_key_def)
  have "(\<forall>k f. flow_frame st k = Some f \<longrightarrow> flow_key (snd f) = k \<and> cc_idx (snd f) < MAX_TCP_FLOWS)
      \<longleftrightarrow> (\<forall>k c. conn_map st k = Some c \<longrightarrow> flow_key (snd (conn_frame c)) = k \<and> cc_idx (snd (conn_frame c)) < MAX_TCP_FLOWS)"
    unfolding flow_frame_def map_option_eq_Some by blast
  then show ?thesis unfolding state_wf_def f by blast
qed

lemma bump_frame_wf:
  assumes "state_wf st" "bump_frame k b st st'" "rings_wf st'"
  shows "state_wf st'"
  using assms by (auto simp: state_wf_frame bump_frame_def split: if_splits)

lemma sys_step_bump:
  assumes "sys_step st bs st'"
  shows "(rings_wf st \<longrightarrow> rings_wf st') \<and>
    (flow_frame st' = flow_frame st \<or> (\<exists>k b. bs = [(k, b)] \<and> bump_frame k b st st'))"
  using assms
proof cases
  case (sys_sock env g act g')
  then show ?thesis using xdp_sock_frame [OF sys_sock(4)] by simp
next
  case (sys_gen env g act g')
  then show ?thesis using xdp_gen_frame [OF sys_gen(4)] by simp
next
  case (sys_egress env g act g')
  then show ?thesis using xdp_egress_frame [OF sys_egress(4)] by simp
qed

lemma sys_run_wf:
  assumes "sys_run st bs st'" "state_wf st"
  shows "state_wf st'"
  using assms
proof induction
  case (sys_next bs st' b st'')
  then have wf: "state_wf st'" "rings_wf st''" using sys_step_bump [OF sys_next(2)] unfolding state_wf_def by blast+
  have "\<exists>k x. bump_frame k x st' st''" using sys_step_bump [OF sys_next(2)] unfolding bump_frame_def by blast
  then show ?case using bump_frame_wf [OF wf(1) _ wf(2)] by blast
qed

lemma bumped_simps: "bumped [] k = 0" "bumped (bs @ cs) k = bumped bs k + bumped cs k"
  "bumped [(j, b)] k = (if j = k then b else 0)"
  by (simp_all add: bumped_def)

lemma sys_run_edge:
  assumes "sys_run st bs st'"
  shows "\<exists>bs'. subseq bs' bs \<and> (\<forall>k. flow_frame st' k = map_option (\<lambda>(e, i). (e + bumped bs' k, i)) (flow_frame st k))"
  using assms
proof induction
  case sys_start
  then show ?case by (intro exI [of _ "[]"]) (simp add: bumped_simps case_prod_unfold option.map_ident)
next
  case (sys_next bs st' b st'')
  then obtain bs' where bs': "subseq bs' bs"
    "\<And>k. flow_frame st' k = map_option (\<lambda>(e, i). (e + bumped bs' k, i)) (flow_frame st k)" by blast
  from sys_step_bump [OF sys_next(2)] consider "flow_frame st'' = flow_frame st'"
    | k x where "b = [(k, x)]" "flow_frame st'' = (flow_frame st')(k := map_option (\<lambda>(e, i). (e + x, i)) (flow_frame st' k))"
    unfolding bump_frame_def by blast
  then show ?case
  proof cases
    case 1
    then show ?thesis using bs' by (intro exI [of _ bs']) (simp add: subseq_rev_drop_many list_emb_append2)
  next
    case (2 k x)
    have "flow_frame st'' j = map_option (\<lambda>(e, i). (e + bumped (bs' @ b) j, i)) (flow_frame st j)" for j
      using 2 bs'(2) by (cases "flow_frame st j") (auto simp: bumped_simps ac_simps)
    moreover have "subseq (bs' @ b) (bs @ b)" using bs'(1) by (simp add: subseq_append')
    ultimately show ?thesis by blast
  qed
qed

section \<open>An acknowledgement on the wire\<close>

lemma length_set_ethhdr:
  "length d = 6 \<Longrightarrow> length m = 6 \<Longrightarrow> 14 \<le> length p \<Longrightarrow> length (set_ethhdr 0 (d, m) p) = length p"
  by (simp add: set_ethhdr_def Let_def)

lemma ld8_routed:
  assumes "routes_ok route" "14 \<le> length p" "14 \<le> k"
  shows "ld8 k (routed route p) = ld8 k p"
proof (cases "route (ld32 30 p)")
  case (Some macs)
  obtain d m where m: "macs = (d, m)" by (cases macs)
  then have "length d = 6" "length m = 6" using assms(1) Some by (auto simp: routes_ok_def)
  then show ?thesis using assms(2,3) Some m
    by (simp add: routed_def set_ethhdr_def Let_def mem_simps)
qed (simp add: routed_def)

lemma event_ext:
  assumes "\<And>k. 14 \<le> k \<Longrightarrow> ld8 k q = ld8 k p"
  shows "parse_pkt_to_event ev 34 14 54 q = parse_pkt_to_event ev 34 14 54 p" "sock_key 14 34 q = sock_key 14 34 p"
  using assms by (simp_all add: parse_pkt_to_event_def sock_key_def tcp_flag_def ld32_def ld16_def)

lemmas event_routed = event_ext [OF ld8_routed]

lemma length_gen_fill [simp]: "length (gen_fill a p) = length p"
  by (simp add: gen_fill_def Let_def)

lemma gen_ip_facts:
  "tcp_flag n 34 (fill_ip_hdr 14 len ece p) = tcp_flag n 34 p"
  "34 \<le> length p \<Longrightarrow> ld16 16 (fill_ip_hdr 14 len ece p) = bpf_htons (ucast (52 + len))"
  "ld32 26 (fill_ip_hdr 14 len ece p) = ld32 26 p" "ld32 30 (fill_ip_hdr 14 len ece p) = ld32 30 p"
  using ip_tot_len [of 14 p len ece]
  by (simp_all add: tcp_flag_def ip_fields_below) (simp_all add: fill_ip_hdr_def ip_hdr_fields_def Let_def mem_simps)

lemma ld16_put_flag:
  "q + 2 \<le> 47 \<or> 48 \<le> q \<Longrightarrow> ld16 q (put_tcp_flag n b 34 p) = ld16 q p"
  by (auto simp: put_tcp_flag_def mem_simps)

lemma gen_fill_event:
  assumes "64 \<le> length p"
  shows "parse_pkt_to_event ev 34 14 54 (gen_fill a p) =
    ev\<lparr>ev_minor_type := NET_EVENT_ACK, ev_ack_seq := ak_ack a, ev_rwnd_size := ucast (ucast (ak_rxwnd a) :: u16),
       ev_seq_num := ak_seq a, ev_data_len := 0, ev_ecn_mark := bit (ak_ecn_flags a) 0,
       ev_ts_ecr := ak_ts_ecr a, ev_ts_val := ak_ts_val a\<rparr>"
    "sock_key 14 34 (gen_fill a p) = \<lparr> ft_local_ip = ak_remote_ip a, ft_remote_ip = ak_local_ip a,
       ft_local_port = ak_remote_port a, ft_remote_port = ak_local_port a \<rparr>"
proof -
  show "parse_pkt_to_event ev 34 14 54 (gen_fill a p) =
    ev\<lparr>ev_minor_type := NET_EVENT_ACK, ev_ack_seq := ak_ack a, ev_rwnd_size := ucast (ucast (ak_rxwnd a) :: u16),
       ev_seq_num := ak_seq a, ev_data_len := 0, ev_ecn_mark := bit (ak_ecn_flags a) 0,
       ev_ts_ecr := ak_ts_ecr a, ev_ts_val := ak_ts_val a\<rparr>"
    using assms by (simp add: parse_pkt_to_event_def gen_fill_def put_ts_opt_def Let_def ip_fields_below gen_ip_facts ld16_put_flag mem_simps)
  show "sock_key 14 34 (gen_fill a p) = \<lparr> ft_local_ip = ak_remote_ip a, ft_remote_ip = ak_local_ip a,
       ft_local_port = ak_remote_port a, ft_remote_port = ak_local_port a \<rparr>"
    using assms by (simp add: sock_key_def gen_fill_def put_ts_opt_def Let_def ip_fields_below gen_ip_facts ld16_put_flag mem_simps)
qed

section \<open>A data segment on the wire\<close>

lemma send_ep_packet:
  assumes "send_ep ev c cc (Some (t, i)) p m = Inr (c', cc', p', m')"
  shows "\<exists>c1 ts. tx_next_ts c1 = tx_next_ts c \<and> p' = fill_ip_hdr i (at_data_size ev) (ecn_enable c1 \<noteq> 0) (mtp_fill_tcp_hdr t c1 0 (send_bp c ts) p)"
proof -
  let ?n = "at_data_size ev"
  let ?c1 = "c\<lparr>data_end := data_end c + ?n, buf_curr_seq := buf_curr_seq c + ?n, tx_next_pos := pos_forward c ?n\<rparr>"
  have b: "send_bp (c\<lparr>data_end := d\<rparr>) ts = send_bp c ts" for d ts by (simp add: send_bp_def)
  have f: "pos_forward (c\<lparr>data_end := d\<rparr>) ?n = pos_forward c ?n" for d by (simp add: pos_forward_def Let_def)
  have "\<exists>ts. p' = fill_ip_hdr i ?n (ecn_enable ?c1 \<noteq> 0) (mtp_fill_tcp_hdr t ?c1 0 (send_bp c ts) p)"
    using assms by (auto simp: send_ep_def mtp_pkt_gen_wrapper_def Let_def b f)
  then show ?thesis by (intro exI [of _ ?c1]) simp
qed

lemma sock_key_fill:
  assumes "66 \<le> length p"
  shows "sock_key 14 34 (fill_ip_hdr 14 n ece (mtp_fill_tcp_hdr 34 c fl bp p)) =
    \<lparr> ft_local_ip = ft_remote_ip (egress_key p), ft_remote_ip = ft_local_ip (egress_key p),
      ft_local_port = ft_remote_port (egress_key p), ft_remote_port = ft_local_port (egress_key p) \<rparr>"
proof -
  have "ld16 q (set_tcp_flag 34 l fl r) = ld16 q r" if "q + 2 \<le> 46" for q l r
    using that by (simp add: set_tcp_flag_def Let_def ld16_put_flag mem_simps)
  then show ?thesis using assms
    by (simp add: sock_key_def egress_key_def gen_ip_facts ip_fields_below)
      (simp add: mtp_fill_tcp_hdr_def put_ts_opt_def Let_def ld16_put_flag mem_simps)
qed

text \<open>What is on the wire after the link addresses were written in front of the segment.\<close>

lemma eth_event:
  assumes "length d = 6" "length m = 6" "14 \<le> length p"
  shows "parse_pkt_to_event ev 34 14 54 (st_bytes 6 m (st_bytes 0 d (st16 12 x p))) = parse_pkt_to_event ev 34 14 54 p"
    "sock_key 14 34 (st_bytes 6 m (st_bytes 0 d (st16 12 x p))) = sock_key 14 34 p"
proof -
  have "ld8 k (st_bytes 6 m (st_bytes 0 d (st16 12 x p))) = ld8 k p" if "14 \<le> k" for k
    using assms that by (simp add: mem_simps)
  from event_ext [OF this]
  show "parse_pkt_to_event ev 34 14 54 (st_bytes 6 m (st_bytes 0 d (st16 12 x p))) = parse_pkt_to_event ev 34 14 54 p"
    "sock_key 14 34 (st_bytes 6 m (st_bytes 0 d (st16 12 x p))) = sock_key 14 34 p" by blast+
qed

definition wire_segment :: "bpf_tcp_conn \<Rightarrow> u32 \<Rightarrow> ebpf_flow_tuple \<Rightarrow> bytes \<Rightarrow> bool" where
  "wire_segment c n k q \<longleftrightarrow>
     sock_key 14 34 q = \<lparr> ft_local_ip = ft_remote_ip k, ft_remote_ip = ft_local_ip k,
       ft_local_port = ft_remote_port k, ft_remote_port = ft_local_port k \<rparr>
     \<and> (\<forall>ev. let e = parse_pkt_to_event ev 34 14 54 q
            in ev_minor_type e = NET_EVENT_DATA \<and> ev_seq_num e = tx_next_seq c \<and> ev_ack_seq e = rx_next_seq c
               \<and> ev_data_len e = n \<and> ev_ts_ecr e = tx_next_ts c)"

lemma wire_segment_eth:
  "length d = 6 \<Longrightarrow> length m = 6 \<Longrightarrow> 14 \<le> length q \<Longrightarrow>
    wire_segment c n k (st_bytes 6 m (st_bytes 0 d (st16 12 x q))) = wire_segment c n k q"
  by (simp add: wire_segment_def eth_event)

lemma send_ep_wire:
  assumes "send_ep ev c cc (Some (34, 14)) p m = Inr (c', cc', p', m')" "at_data_size ev \<le> 65483" "66 \<le> length p"
  shows "wire_segment c (at_data_size ev) (egress_key p) p' \<and> length p' = length p"
proof -
  obtain c1 ts where c1: "tx_next_ts c1 = tx_next_ts c"
    "p' = fill_ip_hdr 14 (at_data_size ev) (ecn_enable c1 \<noteq> 0) (mtp_fill_tcp_hdr 34 c1 0 (send_bp c ts) p)"
    using send_ep_packet [OF assms(1)] by blast
  then show ?thesis
    using mtp_header_fields [of 14 34 p "at_data_size ev" "ecn_enable c1 \<noteq> 0" c1 0 "send_bp c ts"] assms(2,3)
    by (simp add: wire_segment_def sock_key_fill Let_def) (simp add: send_bp_def)
qed

lemma send_ep_total: "\<exists>c' cc' p' m'. send_ep ev c cc (Some h) p m = Inr (c', cc', p', m')"
  by (cases h) (simp add: send_ep_def mtp_pkt_gen_wrapper_def Let_def)

lemma tx_event_app:
  assumes "at_type ev = APP_EVENT" "at_data_size ev = n" "n \<le> 65483" "66 \<le> length p"
  shows "\<exists>act c' p' m' st'. tx_event env 14 34 ev c cc r n p m st = Inr (act, c', p', m', st')
    \<and> wire_segment c n (egress_key p) p' \<and> length p' = length p \<and> conn_id c' = conn_id c
    \<and> tx_next_seq c' = tx_next_seq c + n \<and> tx_next_pos c' = pos_forward c n \<and> conn_map st' = conn_map st"
proof -
  obtain d cc1 where d: "cc_get_desired_tx_ts cc r n = (d, cc1)" by force
  let ?ev = "ev\<lparr>at_timestamp := ucast r\<rparr>"
  obtain c' cc' p' m' where s: "send_ep ?ev c cc1 (Some (34, 14)) p m = Inr (c', cc', p', m')"
    using send_ep_total by blast
  obtain act st' where t: "tx_release env c' cc' d r n (put_cc (cc_idx c') cc' st) = (act, st')" by force
  have "tx_event env 14 34 ev c cc r n p m st = Inr (act, c', p', m', st')"
    using assms(1) d s t by (simp add: tx_event_def)
  moreover have "wire_segment c n (egress_key p) p' \<and> length p' = length p"
    using send_ep_wire [OF s] assms by simp
  moreover have "conn_map st' = conn_map st" using tx_release_frame(1) [of env c' cc' d r n "put_cc (cc_idx c') cc' st"] t by simp
  moreover have "conn_id c' = conn_id c" "tx_next_seq c' = tx_next_seq c + n" "tx_next_pos c' = pos_forward c n"
    using send_ep_effect [OF s] assms(2) by simp_all
  ultimately show ?thesis by blast
qed

lemma tcp_tx_process_app:
  assumes "e_cpu env < MAX_CPU" "at_type ev = APP_EVENT" "at_data_size ev = n" "n \<le> 65483" "66 \<le> length p"
    and "tx_flag (meta_tx m) AND FLAG_SYNC = 0" "tx_plen (meta_tx m) = n" "tx_tx_pos (meta_tx m) = tx_next_pos c" "cc_idx c < MAX_TCP_FLOWS"
  shows "\<exists>act c' p' m' st'. tcp_tx_process env 14 34 ev c p m st = Inr (act, c', p', m', st')
    \<and> wire_segment c n (egress_key p) p' \<and> length p' = length p \<and> conn_id c' = conn_id c
    \<and> tx_next_seq c' = tx_next_seq c + n \<and> tx_next_pos c' = pos_forward c n \<and> conn_map st' = conn_map st"
proof -
  let ?b = "tx_rx_bump (meta_tx m)" and ?u = "cpus st (e_cpu env)"
  let ?c = "if ?b \<noteq> 0 then c\<lparr>rx_avail := rx_avail c + ?b\<rparr> else c"
  let ?r = "if has_kick ?u = 0 then e_clock env 0 else tx_cached_ts ?u"
  have w: "wire_segment ?c = wire_segment c" "conn_id ?c = conn_id c" "tx_next_seq ?c = tx_next_seq c" "pos_forward ?c n = pos_forward c n"
    "tx_next_pos ?c = tx_next_pos c"
    by (simp_all add: wire_segment_def fun_eq_iff pos_forward_def Let_def)
  have "tcp_tx_process env 14 34 ev c p m st = tx_event env 14 34 ev ?c (cc_map st (cc_idx c)) ?r n p m st"
    using assms(6,7,8,9) assms(1) [folded not_le] by (simp add: tcp_tx_process_def Let_def cc_lookup_def)
  then show ?thesis using tx_event_app [OF assms(2-5), of env ?c "cc_map st (cc_idx c)" ?r m st] unfolding w by simp
qed

lemma redirect_xsk_conn_map [simp]: "conn_map (snd (redirect_xsk env x st)) = conn_map st"
  by (simp add: redirect_xsk_def)

section \<open>Properties\<close>



text \<open>C2: over every interleaving of the programs no connection appears or disappears, the
  fields the control plane owns are unchanged, and the right edge of the receive window of a
  flow moves only by bytes that user space reported as consumed in packets of that flow: what
  arrives from the network never extends or withdraws the window that was announced.\<close>

theorem window_edge_moves_by_consumption:
  assumes "sys_run st bs st'"
  shows "\<exists>bs'. subseq bs' bs \<and> (\<forall>k. flow_frame st' k = map_option (\<lambda>(e, i). (e + bumped bs' k, i)) (flow_frame st k))"
  using assms by (rule sys_run_edge)

lemma egress_key_zero: "egress_key (replicate 66 0) = flow_key zero_conn"
  by (simp add: egress_key_def flow_key_def zero_conn_def ld32_def ld16_def ld8_def nth_default_def bswap16_def bswap32_def)

lemma egress_sync_example:
  fixes env :: "'c prog_env"
  assumes "m = meta_put_tx \<lparr>tx_slowpath = 0, tx_flag = 1, tx_rx_bump = 8, tx_tx_pending = 0, tx_tx_pos = 0, tx_plen = 0\<rparr> (replicate 32 0)"
    and "st = init_state\<lparr>conn_map := [flow_key zero_conn \<mapsto> zero_conn]\<rparr>"
  shows "\<exists>g'. xdp_egress_prog (env\<lparr>e_cpu := 0, e_meta_ok := True\<rparr>) (g\<lparr>pg_pkt := replicate 66 0, pg_meta := m, pg_st := st\<rparr>)
      = Inr (XDP_TX, g') \<and> conn_map (pg_st g') (flow_key zero_conn) = Some (zero_conn\<lparr>rx_avail := 8\<rparr>)"
proof -
  have c: "tx_pending zero_conn = 0" "cc_idx zero_conn = 0" "rx_avail zero_conn = 0" by (simp_all add: zero_conn_def)
  have t: "meta_tx m = \<lparr>tx_slowpath = 0, tx_flag = 1, tx_rx_bump = 8, tx_tx_pending = 0, tx_tx_pos = 0, tx_plen = 0\<rparr>"
    "length m = 32" by (simp_all add: assms(1))
  show ?thesis
    unfolding xdp_egress_prog_def tcp_tx_process_def
    by (simp add: t c assms(2) egress_key_zero cc_lookup_def Let_def)
qed

theorem window_edge_moves_by_consumption_witness:
  "\<exists>st'. sys_run (init_state\<lparr>conn_map := [flow_key zero_conn \<mapsto> zero_conn]\<rparr>) [(flow_key zero_conn, 8)] st'
     \<and> map_option fst (flow_frame st' (flow_key zero_conn)) \<in> {Some 0, Some 8} \<and> conn_map st' (flow_key zero_conn) \<noteq> None"
proof -
  define env :: "(u32 \<rightharpoonup> dst_entry) prog_env" where "env = undefined"
  define g :: "(u32 \<rightharpoonup> dst_entry) prog" where "g = undefined"
  let ?st = "init_state\<lparr>conn_map := [flow_key zero_conn \<mapsto> zero_conn]\<rparr>"
  let ?m = "meta_put_tx \<lparr>tx_slowpath = 0, tx_flag = 1, tx_rx_bump = 8, tx_tx_pending = 0, tx_tx_pos = 0, tx_plen = 0\<rparr> (replicate 32 0)"
  let ?g = "g\<lparr>pg_pkt := replicate 66 0, pg_meta := ?m, pg_st := ?st\<rparr>"
  obtain g' where g': "xdp_egress_prog (env\<lparr>e_cpu := 0, e_meta_ok := True\<rparr>) ?g = Inr (XDP_TX, g')"
    "conn_map (pg_st g') (flow_key zero_conn) = Some (zero_conn\<lparr>rx_avail := 8\<rparr>)"
    using egress_sync_example [of ?m ?st env g] by blast
  have "sys_step ?st [(flow_key zero_conn, 8)] (pg_st g')"
    using sys_egress [OF g'(1)] by (simp add: egress_key_zero)
  then have r: "sys_run ?st [(flow_key zero_conn, 8)] (pg_st g')" using sys_next [OF sys_start] by fastforce
  from window_edge_moves_by_consumption [OF r] obtain bs' where bs': "subseq bs' [(flow_key zero_conn, 8)]"
    "flow_frame (pg_st g') (flow_key zero_conn) = map_option (\<lambda>(e, i). (e + bumped bs' (flow_key zero_conn), i)) (flow_frame ?st (flow_key zero_conn))" by blast
  have "bs' = [] \<or> bs' = [(flow_key zero_conn, 8)]" using bs'(1) by (auto elim: list_emb.cases)
  then have "map_option fst (flow_frame (pg_st g') (flow_key zero_conn)) \<in> {Some 0, Some 8}"
    using bs'(2) by (auto simp: flow_frame_def bumped_simps conn_frame_def right_edge_def zero_conn_def)
  then show "\<exists>st'. sys_run ?st [(flow_key zero_conn, 8)] st'
     \<and> map_option fst (flow_frame st' (flow_key zero_conn)) \<in> {Some 0, Some 8} \<and> conn_map st' (flow_key zero_conn) \<noteq> None"
    using r g'(2) by blast
qed




text \<open>C7: application data of a known flow that user space hands over in order is segmented:
  the connection advances by exactly the payload in sequence space and in the transmit ring, and
  whatever leaves the program carries the sequence number, the acknowledgement number and the
  payload length of that segment and is addressed to the other end of the flow.\<close>

theorem egress_segment_on_wire:
  assumes "e_meta_ok env" "e_cpu env < MAX_CPU" "length (pg_meta g) = 32" "66 \<le> length (pg_pkt g)"
    and "tx_slowpath (meta_tx (pg_meta g)) = 0" "tx_flag (meta_tx (pg_meta g)) = 0" "tx_plen (meta_tx (pg_meta g)) = n" "n \<le> 65483"
    and "egress_key (pg_pkt g) = k" "conn_map (pg_st g) k = Some c" "flow_key c = k" "cc_idx c < MAX_TCP_FLOWS"
    and "tx_tx_pos (meta_tx (pg_meta g)) = tx_next_pos c" "length (remote_mac c) = 6" "length (local_mac c) = 6"
  shows "\<exists>act g' c'. xdp_egress_prog env g = Inr (act, g') \<and> conn_map (pg_st g') k = Some c'
    \<and> tx_next_seq c' = tx_next_seq c + n \<and> tx_next_pos c' = pos_forward c n
    \<and> (act \<noteq> XDP_DROP \<longrightarrow> wire_segment c n k (pg_pkt g'))"
proof -
  let ?ev = "parse_req_to_app_event (e_stack_app env) (pg_meta g)"
  have "at_type ?ev = APP_EVENT" "at_data_size ?ev = n" using assms(7) by (simp_all add: parse_req_to_app_event_def)
  moreover have "tx_flag (meta_tx (pg_meta g)) AND FLAG_SYNC = 0" using assms(6) by simp
  ultimately obtain ret c' p' m' st' where t: "tcp_tx_process env 14 34 ?ev c (pg_pkt g) (pg_meta g) (pg_st g) = Inr (ret, c', p', m', st')"
    and w: "wire_segment c n k p'" "length p' = length (pg_pkt g)" "conn_id c' = conn_id c" "tx_next_seq c' = tx_next_seq c + n"
      "tx_next_pos c' = pos_forward c n"
    using tcp_tx_process_app [OF assms(2) _ _ assms(8,4) _ assms(7,13,12)] assms(9) by blast
  have m: "remote_mac c' = remote_mac c" "local_mac c' = local_mac c"
    using arg_cong [OF w(3), of remote_mac] arg_cong [OF w(3), of local_mac] by (simp_all add: conn_id_def)
  let ?q = "st_bytes 6 (local_mac c) (st_bytes 0 (remote_mac c) (st16 12 (bpf_htons ETH_P_IP) p'))"
  have q: "wire_segment c n k ?q" using w(1,2) assms(4) wire_segment_eth [OF assms(14,15)] by simp
  define h where "h = g\<lparr>pg_pkt := p', pg_meta := m', pg_st := put_conn k c' st'\<rparr>"
  define h' where "h' = h\<lparr>pg_pkt := ?q\<rparr>"
  let ?x = "redirect_xsk env (ucast (qid2xsk c' ! unat (e_rx_queue_index env))) (put_conn k c' st')"
  have e: "xdp_egress_prog env g =
    (if ret = XDP_DROP then Inr (XDP_DROP, h)
     else if ret = XDP_REDIRECT then Inr (ret, h'\<lparr>pg_st := upd_cpu (e_cpu env) (kick_tw (e_cpu env)) (put_conn k c' st')\<rparr>)
     else if ret = XDP_PASS then
       (if e_rx_queue_index env \<ge> MAX_NIC_QUEUES then Inr (XDP_DROP, h') else Inr (fst ?x, h'\<lparr>pg_st := snd ?x\<rparr>))
     else Inr (XDP_TX, h'))"
    using assms(1,3-6,9-11) t m by (simp add: xdp_egress_prog_def Let_def h_def h'_def case_prod_beta)
  have s: "conn_map (pg_st h) k = Some c'" "conn_map (pg_st h') k = Some c'" "pg_pkt h' = ?q"
    by (simp_all add: h_def h'_def)
  show ?thesis unfolding e using s q w(4,5) by simp
qed

theorem egress_segment_on_wire_witness:
  "\<exists>(env :: (u32 \<rightharpoonup> dst_entry) prog_env) g act g' c'. xdp_egress_prog env g = Inr (act, g')
    \<and> conn_map (pg_st g') (flow_key zero_conn) = Some c' \<and> tx_next_seq c' = 1005
    \<and> (act = XDP_DROP \<or> wire_segment (zero_conn\<lparr>tx_next_seq := 1000\<rparr>) 5 (flow_key zero_conn) (pg_pkt g'))"
proof -
  let ?c = "zero_conn\<lparr>tx_next_seq := 1000\<rparr>"
  define env :: "(u32 \<rightharpoonup> dst_entry) prog_env" where "env = undefined\<lparr>e_cpu := 0, e_meta_ok := True\<rparr>"
  define g :: "(u32 \<rightharpoonup> dst_entry) prog" where
    "g = undefined\<lparr>pg_pkt := replicate 66 0, pg_meta := meta_put_tx \<lparr>tx_slowpath = 0, tx_flag = 0, tx_rx_bump = 0,
       tx_tx_pending = 0, tx_tx_pos = 0, tx_plen = 5\<rparr> (replicate 32 0),
       pg_st := init_state\<lparr>conn_map := [flow_key zero_conn \<mapsto> ?c]\<rparr>\<rparr>"
  have e: "e_cpu env = 0" "e_meta_ok env" by (simp_all add: env_def)
  have g: "egress_key (pg_pkt g) = flow_key zero_conn" "length (pg_pkt g) = 66" "length (pg_meta g) = 32"
    "meta_tx (pg_meta g) = \<lparr>tx_slowpath = 0, tx_flag = 0, tx_rx_bump = 0, tx_tx_pending = 0, tx_tx_pos = 0, tx_plen = 5\<rparr>"
    "conn_map (pg_st g) (flow_key zero_conn) = Some ?c"
    by (simp_all add: g_def egress_key_zero)
  have z: "length (remote_mac zero_conn) = 6" "length (local_mac zero_conn) = 6" by (simp_all add: zero_conn_def)
  have c: "flow_key ?c = flow_key zero_conn" "cc_idx ?c = 0" "tx_next_pos ?c = 0" "length (remote_mac ?c) = 6" "length (local_mac ?c) = 6"
    by (simp_all add: flow_key_def) (simp_all add: zero_conn_def)
  have "\<exists>act g' c'. xdp_egress_prog env g = Inr (act, g') \<and> conn_map (pg_st g') (flow_key zero_conn) = Some c'
    \<and> tx_next_seq c' = tx_next_seq ?c + 5 \<and> tx_next_pos c' = pos_forward ?c 5
    \<and> (act \<noteq> XDP_DROP \<longrightarrow> wire_segment ?c 5 (flow_key zero_conn) (pg_pkt g'))"
    by (rule egress_segment_on_wire) (simp_all add: e g c z)
  then show ?thesis by fastforce
qed

end

