(* ===== verification/Tcp_Legacy.thy ===== *)
theory Tcp_Legacy
  imports Tcp_Progs
begin

text \<open>
  The TCP transport as it is built without \<open>MTP_ON\<close> (\<open>eBPF/tcp/tcp.h\<close>): the other
  side of the conditional compilation in \<open>tcp_tx_process\<close> and \<open>tcp_rx_process\<close>, with
  \<open>ACK_COALESCING\<close>, \<open>OOO_RECV\<close> and \<open>BYPASS_RL\<close> as in the build, and \<open>fast_retransmit\<close>.

  The local variables of \<open>tcp_rx_process\<close> together with what it updates form the record
  \<open>lrx\<close>.  A stage returns \<open>Inl\<close> where the code jumps to the label \<open>unlock\<close> and \<open>Inr\<close>
  where it falls through.
\<close>

section \<open>Definitions\<close>

subsection \<open>Transmission\<close>

definition fast_retransmit :: "bpf_tcp_conn \<Rightarrow> bpf_cc \<Rightarrow> u32 \<times> bpf_tcp_conn \<times> bpf_cc" where
  "fast_retransmit c cc =
    (let go_back_bytes = tx_sent c;
         c = c\<lparr>rx_dupack_cnt := 0\<rparr>;
         c = c\<lparr>tx_next_seq := tx_next_seq c - go_back_bytes\<rparr>;
         c = (if tx_next_pos c \<ge> go_back_bytes then c\<lparr>tx_next_pos := tx_next_pos c - go_back_bytes\<rparr>
              else let x = go_back_bytes - tx_next_pos c in c\<lparr>tx_next_pos := tx_buf_size c - x\<rparr>);
         c = c\<lparr>tx_pending := 0, rx_remote_avail := rx_remote_avail c + go_back_bytes, tx_sent := 0\<rparr>;
         cc = cc\<lparr>cc_txp := 0\<rparr>;
         cc = (if cc_cnt_tx_drops cc = 0 then cc\<lparr>cc_rate := drop_bit 1 (cc_rate cc)\<rparr> else cc);
         cc = cc\<lparr>cc_cnt_tx_drops := cc_cnt_tx_drops cc + 1\<rparr>
     in (tx_next_pos c, c, cc))"

text \<open>The state changes of a segment that is sent.\<close>

definition legacy_sent :: "u32 \<Rightarrow> bpf_tcp_conn \<Rightarrow> bpf_tcp_conn" where
  "legacy_sent payload_len c =
    (let c = c\<lparr>tx_next_seq := tx_next_seq c + payload_len, tx_sent := tx_sent c + payload_len\<rparr>;
         c = c\<lparr>tx_pending := tx_pending c - payload_len, tx_next_pos := tx_next_pos c + payload_len\<rparr>
     in if tx_next_pos c \<ge> tx_buf_size c then c\<lparr>tx_next_pos := tx_next_pos c - tx_buf_size c\<rparr> else c)"

definition legacy_tx_release ::
  "'c prog_env \<Rightarrow> bpf_tcp_conn \<Rightarrow> bpf_cc \<Rightarrow> u64 \<Rightarrow> u64 \<Rightarrow> u32 \<Rightarrow> tcp_state \<Rightarrow> xdp_action \<times> tcp_state"
where
  "legacy_tx_release env c cc desired_tx_ts ref_ts payload_len st =
    (let cpu = e_cpu env; u = cpus st cpu
     in if ucast (cc_rate cc) \<ge> LINK_BANDWIDTH \<and> nr_pkts_in_tw u = 0 then (XDP_TX, st)
        else if (nr_pkts_in_tw u = 0 \<or> tx_sent c = payload_len) \<and> desired_tx_ts \<le> ref_ts then (XDP_TX, st)
        else if \<not> e_wheel env cpu then (XDP_DROP, st)
        else
          let (idx, u) = tw_insert cpu desired_tx_ts (e_clock env 1) u;
              st = upd_cpu cpu (\<lambda>_. u) st
          in if idx = POISON_32 then (XDP_DROP, st)
             else if e_bucket env idx
             then (XDP_REDIRECT, upd_cpu cpu (\<lambda>u. u\<lparr>redirect_info := Some (To_Wheel cpu idx)\<rparr>) st)
             else (XDP_ABORTED, st))"

definition legacy_timeout_meta :: "u32 \<Rightarrow> bpf_tcp_conn \<Rightarrow> meta_info \<Rightarrow> meta_info" where
  "legacy_timeout_meta pos c data_meta =
    upd_rx (\<lambda>r. r\<lparr>rx_ack_bytes := pos OR RECOVERY_MASK, rx_qid := POISON_32, rx_conn := opaque_connection c,
      rx_rx_pos := POISON_32, rx_poff := POISON_16, rx_plen := POISON_16,
      rx_xsk_budget_avail := xsk_budget_avail c, rx_ooo_bump := POISON_32\<rparr>) data_meta"

definition legacy_tx_process ::
  "'c prog_env \<Rightarrow> nat \<Rightarrow> nat \<Rightarrow> bpf_tcp_conn \<Rightarrow> bytes \<Rightarrow> meta_info \<Rightarrow> tcp_state
   \<Rightarrow> xdp_action \<times> bpf_tcp_conn \<times> bytes \<times> meta_info \<times> tcp_state"
where
  "legacy_tx_process env iph tcph c p data_meta st =
    (let cpu = e_cpu env
     in if cpu \<ge> MAX_CPU then (XDP_DROP, c, p, data_meta, st)
     else
       let rx_bump = tx_rx_bump (meta_tx data_meta);
           payload_len = tx_plen (meta_tx data_meta);
           pending = tx_tx_pending (meta_tx data_meta);
           tx_pos = tx_tx_pos (meta_tx data_meta);
           u = cpus st cpu;
           ref_ts = (if has_kick u = 0 then e_clock env 0 else tx_cached_ts u)
       in case cc_lookup (cc_map st) (cc_idx c) of
            None \<Rightarrow> (XDP_DROP, c, p, data_meta, st)
          | Some cc \<Rightarrow>
              if tx_flag (meta_tx data_meta) AND FLAG_TO \<noteq> 0 then
                if tx_sent c = 0 then (XDP_DROP, c, p, data_meta, st)
                else
                  let (pos, c, cc) = fast_retransmit c cc
                  in (XDP_PASS, c, p, legacy_timeout_meta pos c data_meta, put_cc (cc_idx c) cc st)
              else
                let wnd_upd = (rx_bump \<noteq> 0 \<and> tx_pending c = 0);
                    c = (if rx_bump \<noteq> 0 then c\<lparr>rx_avail := rx_avail c + rx_bump\<rparr> else c)
                in if tx_flag (meta_tx data_meta) AND FLAG_SYNC \<noteq> 0 then
                     if wnd_upd then
                       let p = fill_tcp_hdr tcph c (ucast ref_ts) TCP_FLAG_ACK p;
                           p = fill_ip_hdr iph 0 False p
                       in (XDP_TX, c, p, data_meta, st)
                     else (XDP_DROP, c, p, data_meta, st)
                   else if tx_pos \<noteq> tx_next_pos c then (XDP_DROP, c, p, data_meta, st)
                   else
                     let (desired_tx_ts, cc) = cc_get_desired_tx_ts cc ref_ts payload_len;
                         c = (if pending \<noteq> 0 then c\<lparr>tx_pending := tx_pending c + pending\<rparr> else c);
                         p = fill_tcp_hdr tcph c (ucast desired_tx_ts) 0 p;
                         p = fill_ip_hdr iph payload_len (ecn_enable c \<noteq> 0) p;
                         c = legacy_sent payload_len c;
                         cc = cc\<lparr>cc_txp := (if tx_sent c > 0 then 1 else 0)\<rparr>;
                         (act, st) = legacy_tx_release env c cc desired_tx_ts ref_ts payload_len (put_cc (cc_idx c) cc st)
                     in (act, c, p, data_meta, st))"

subsection \<open>Reception\<close>

record lrx =
  lx_c :: bpf_tcp_conn
  lx_cc :: bpf_cc
  lx_meta :: meta_info
  lx_payload_off :: u32
  lx_payload_len :: u32
  lx_seq :: u32
  lx_trigger_ack :: bool
  lx_go_back_pos :: u32
  lx_rx_bump :: u32
  lx_tx_bump :: u32
  lx_clear_ooo :: bool
  lx_drop :: bool

definition tcp_window :: "nat \<Rightarrow> bytes \<Rightarrow> u32" where
  "tcp_window tcph p = push_bit TCP_WND_SCALE (ucast (bpf_ntohs (ld16 (tcph + 14) p)))"

text \<open>Acknowledgement processing.\<close>

definition legacy_ack :: "nat \<Rightarrow> bytes \<Rightarrow> lrx \<Rightarrow> lrx + lrx" where
  "legacy_ack tcph p s =
    (if \<not> tcp_flag ACK tcph p then Inr s
     else
       let ack_seq = bpf_ntohl (ld32 (tcph + 8) p); c = lx_c s;
           cc = (lx_cc s)\<lparr>cc_cnt_rx_acks := cc_cnt_rx_acks (lx_cc s) + 1\<rparr>; s = s\<lparr>lx_cc := cc\<rparr>
       in case tcp_valid_rxack c ack_seq of
            None \<Rightarrow> Inl (s\<lparr>lx_trigger_ack := False\<rparr>)
          | Some tx_bump \<Rightarrow>
              if tx_bump > tx_sent c then Inl (s\<lparr>lx_tx_bump := 0, lx_trigger_ack := False\<rparr>)
              else
                let cc = cc\<lparr>cc_cnt_rx_ack_bytes := cc_cnt_rx_ack_bytes cc + tx_bump\<rparr>;
                    cc = (if tcp_flag ECE tcph p then cc\<lparr>cc_cnt_rx_ecn_bytes := cc_cnt_rx_ecn_bytes cc + tx_bump\<rparr> else cc);
                    c = c\<lparr>tx_sent := tx_sent c - tx_bump\<rparr>;
                    cc = cc\<lparr>cc_txp := (if tx_sent c > 0 then 1 else 0)\<rparr>;
                    s = s\<lparr>lx_c := c, lx_cc := cc, lx_tx_bump := tx_bump\<rparr>
                in if tx_bump \<noteq> 0 then Inr (s\<lparr>lx_c := c\<lparr>rx_dupack_cnt := 0\<rparr>\<rparr>)
                   else if tx_sent c \<noteq> 0 \<and> lx_payload_len s = 0 \<and> rx_remote_avail c = tcp_window tcph p then
                     let c = c\<lparr>rx_dupack_cnt := rx_dupack_cnt c + 1\<rparr>
                     in if rx_dupack_cnt c = 3 then
                          let (pos, c, cc) = fast_retransmit c cc
                          in Inl (s\<lparr>lx_c := c, lx_cc := cc, lx_go_back_pos := pos\<rparr>)
                        else Inr (s\<lparr>lx_c := c\<rparr>)
                   else Inr s)"

text \<open>Payload validation with out-of-order reception.\<close>

definition legacy_validate :: "lrx \<Rightarrow> lrx + lrx" where
  "legacy_validate s =
    (let c = lx_c s
     in case tcp_valid_rxseq_ooo c (lx_seq s) (lx_payload_len s) of
          None \<Rightarrow> Inl (s\<lparr>lx_trigger_ack := False\<rparr>)
        | Some (trim_start, trim_end) \<Rightarrow>
            let payload_off = lx_payload_off s + trim_start;
                payload_len = trim_payload (lx_payload_len s) trim_start trim_end;
                seq = lx_seq s + trim_start;
                pos = rx_next_pos c + (seq - rx_next_seq c);
                pos = (if pos \<ge> rx_buf_size c then pos - rx_buf_size c else pos);
                s = s\<lparr>lx_payload_off := payload_off, lx_payload_len := payload_len, lx_seq := seq,
                      lx_meta := upd_rx (\<lambda>r. r\<lparr>rx_poff := ucast payload_off, rx_plen := ucast payload_len, rx_rx_pos := pos\<rparr>) (lx_meta s)\<rparr>
            in if seq \<noteq> rx_next_seq c then
                 if payload_len = 0 then Inl s
                 else
                   let s = (if rx_ooo_len c = 0 then s\<lparr>lx_c := c\<lparr>rx_ooo_start := seq, rx_ooo_len := payload_len\<rparr>\<rparr>
                            else if seq + payload_len = rx_ooo_start c
                            then s\<lparr>lx_c := c\<lparr>rx_ooo_start := seq, rx_ooo_len := rx_ooo_len c + payload_len\<rparr>\<rparr>
                            else if rx_ooo_start c + rx_ooo_len c = seq
                            then s\<lparr>lx_c := c\<lparr>rx_ooo_len := rx_ooo_len c + payload_len\<rparr>\<rparr>
                            else s\<lparr>lx_payload_len := 0, lx_meta := upd_rx (\<lambda>r. r\<lparr>rx_plen := POISON_16\<rparr>) (lx_meta s)\<rparr>)
                   in Inl (s\<lparr>lx_meta := upd_rx (\<lambda>r. r\<lparr>rx_ooo_bump := OOO_SEGMENT_MASK\<rparr>) (lx_meta s)\<rparr>)
               else Inr s)"

text \<open>Window and round-trip time.\<close>

definition legacy_window :: "u32 \<Rightarrow> nat \<Rightarrow> bytes \<Rightarrow> lrx \<Rightarrow> lrx" where
  "legacy_window now tcph p s =
    (let ts_val = bpf_ntohl (ld32 (tcph + 22) p); ts_ecr = bpf_ntohl (ld32 (tcph + 26) p); c = lx_c s;
         c = (if lx_tx_bump s \<noteq> 0 \<or> rx_remote_avail c < tcp_window tcph p then c\<lparr>rx_remote_avail := tcp_window tcph p\<rparr> else c);
         c = (if lx_payload_len s \<noteq> 0 \<and> tx_next_ts c = 0 then c\<lparr>tx_next_ts := ts_val\<rparr> else c);
         cc = (if tcp_flag ACK tcph p \<and> ts_ecr \<noteq> 0 \<and> lx_tx_bump s \<noteq> 0
               then update_rtt (rtt_sample now ts_ecr (lx_tx_bump s)) (lx_cc s) else lx_cc s)
     in s\<lparr>lx_c := c, lx_cc := cc\<rparr>)"

text \<open>Consuming \<open>n\<close> bytes at the left edge of the receive window.\<close>

definition legacy_advance :: "u32 \<Rightarrow> bpf_tcp_conn \<Rightarrow> bpf_tcp_conn" where
  "legacy_advance n c =
    (let c = c\<lparr>rx_avail := rx_avail c - n, rx_next_pos := rx_next_pos c + n\<rparr>;
         c = (if rx_next_pos c \<ge> rx_buf_size c then c\<lparr>rx_next_pos := rx_next_pos c - rx_buf_size c\<rparr> else c)
     in c\<lparr>rx_next_seq := rx_next_seq c + n\<rparr>)"

definition legacy_merge :: "lrx \<Rightarrow> lrx" where
  "legacy_merge s =
    (let c = lx_c s
     in if rx_ooo_len c = 0 then s
        else case tcp_valid_rxseq_ooo c (rx_ooo_start c) (rx_ooo_len c) of
            None \<Rightarrow> s\<lparr>lx_c := c\<lparr>rx_ooo_len := 0\<rparr>, lx_meta := upd_rx (\<lambda>r. r\<lparr>rx_ooo_bump := OOO_CLEAR_MASK\<rparr>) (lx_meta s),
                       lx_trigger_ack := False, lx_clear_ooo := True\<rparr>
          | Some (trim_start, trim_end) \<Rightarrow>
              let c = c\<lparr>rx_ooo_start := rx_ooo_start c + trim_start, rx_ooo_len := rx_ooo_len c - (trim_start + trim_end)\<rparr>
              in if rx_ooo_len c \<noteq> 0 \<and> rx_ooo_start c = rx_next_seq c then
                   s\<lparr>lx_rx_bump := lx_rx_bump s + rx_ooo_len c, lx_c := (legacy_advance (rx_ooo_len c) c)\<lparr>rx_ooo_len := 0\<rparr>,
                     lx_meta := upd_rx (\<lambda>r. r\<lparr>rx_ooo_bump := OOO_FIN_MASK\<rparr>) (lx_meta s)\<rparr>
                 else s\<lparr>lx_c := c\<rparr>)"

definition legacy_deliver :: "lrx \<Rightarrow> lrx" where
  "legacy_deliver s =
    (if lx_payload_len s = 0 then s
     else
       let s = s\<lparr>lx_rx_bump := lx_payload_len s, lx_c := legacy_advance (lx_payload_len s) (lx_c s)\<rparr>;
           s = legacy_merge s
       in if drop_bit TCP_WND_SCALE (rx_avail (lx_c s)) = 0
          then s\<lparr>lx_meta := upd_rx (\<lambda>r. r\<lparr>rx_qid := rx_qid r OR FORCE_RX_BUMP_MASK\<rparr>) (lx_meta s)\<rparr> else s)"

text \<open>From the label \<open>unlock\<close> to the label \<open>out\<close>.\<close>

definition legacy_unlock :: "lrx \<Rightarrow> lrx" where
  "legacy_unlock s =
    (if lx_rx_bump s \<noteq> 0 \<or> lx_tx_bump s \<noteq> 0 \<or> lx_go_back_pos s \<noteq> 0 \<or> xsk_budget_avail (lx_c s) \<noteq> 0 \<or> lx_clear_ooo s then
       let m = upd_rx (\<lambda>r. r\<lparr>rx_xsk_budget_avail := xsk_budget_avail (lx_c s)\<rparr>) (lx_meta s);
           m = (if lx_tx_bump s \<noteq> 0 then upd_rx (\<lambda>r. r\<lparr>rx_ack_bytes := lx_tx_bump s\<rparr>) m
                else if lx_go_back_pos s \<noteq> 0 then upd_rx (\<lambda>r. r\<lparr>rx_ack_bytes := lx_go_back_pos s OR RECOVERY_MASK\<rparr>) m
                else m);
           m = (if lx_payload_len s = 0 then upd_rx (\<lambda>r. r\<lparr>rx_rx_pos := POISON_32, rx_poff := POISON_16, rx_plen := POISON_16\<rparr>) m
                else if rx_ooo_bump (meta_rx m) AND OOO_FIN_MASK \<noteq> 0
                then upd_rx (\<lambda>r. r\<lparr>rx_ooo_bump := rx_ooo_bump r OR lx_rx_bump s\<rparr>) m
                else m)
       in s\<lparr>lx_drop := False, lx_meta := m\<rparr>
     else s)"

definition legacy_remember :: "u32 \<Rightarrow> bool \<Rightarrow> lrx \<Rightarrow> tcp_cpu \<Rightarrow> tcp_cpu" where
  "legacy_remember cpu ece s u =
    (if lx_trigger_ack s \<and> cpu < MAX_CPU \<and> prev_conn u = NULL_CONN then
       u\<lparr>prev_conn := cc_idx (lx_c s), prev_conn_li := local_ip (lx_c s), prev_conn_lp := local_port (lx_c s),
         prev_conn_ri := remote_ip (lx_c s), prev_conn_rp := remote_port (lx_c s),
         prev_conn_ece := prev_conn_ece u OR (if ece then 1 else 0)\<rparr>
     else u)"

definition legacy_stages :: "u32 \<Rightarrow> nat \<Rightarrow> bytes \<Rightarrow> lrx \<Rightarrow> lrx" where
  "legacy_stages now tcph p s =
    (case legacy_ack tcph p s of
       Inl s \<Rightarrow> s
     | Inr s \<Rightarrow>
         (case legacy_validate s of
            Inl s \<Rightarrow> s
          | Inr s \<Rightarrow> legacy_deliver (legacy_window now tcph p s)))"

definition legacy_rx_process ::
  "'c prog_env \<Rightarrow> nat \<Rightarrow> bytes \<Rightarrow> bool \<Rightarrow> bpf_tcp_conn \<Rightarrow> meta_info \<Rightarrow> tcp_state
   \<Rightarrow> xdp_action \<times> bpf_tcp_conn \<times> meta_info \<times> tcp_state"
where
  "legacy_rx_process env tcph p ece c data_meta st =
    (let payload_len = of_nat (length p) - 66; cpu = e_cpu env; u = cpus st cpu
     in case cc_lookup (cc_map st) (cc_idx c) of
          None \<Rightarrow> (XDP_DROP, c, data_meta, st)
        | Some cc \<Rightarrow>
            let s = legacy_stages (rx_now (e_clock env 1) u) tcph p
                      \<lparr> lx_c = c, lx_cc = cc, lx_meta = data_meta, lx_payload_off = 66, lx_payload_len = payload_len,
                        lx_seq = bpf_ntohl (ld32 (tcph + 4) p), lx_trigger_ack = (payload_len \<noteq> 0), lx_go_back_pos = 0,
                        lx_rx_bump = 0, lx_tx_bump = 0, lx_clear_ooo = False, lx_drop = True \<rparr>;
                s = legacy_unlock s;
                u = legacy_remember cpu ece s u
            in (if lx_drop s then XDP_DROP else XDP_REDIRECT, lx_c s, lx_meta s,
                put_cc (cc_idx c) (lx_cc s) (upd_cpu cpu (\<lambda>_. u) st)))"

section \<open>Receiver geometry\<close>

text \<open>The out-of-order bytes a connection remembers, and the receiver invariant: they lie inside the window.\<close>

definition ooo_span :: "bpf_tcp_conn \<Rightarrow> u32 set" where
  "ooo_span c = seq_span (rx_ooo_start c) (rx_ooo_len c)"

definition rcv_wf :: "bpf_tcp_conn \<Rightarrow> bool" where
  "rcv_wf c \<longleftrightarrow> unat (rx_avail c) < 2 ^ 31
     \<and> (rx_ooo_len c \<noteq> 0 \<longrightarrow> unat (rx_ooo_start c - rx_next_seq c) + unat (rx_ooo_len c) \<le> unat (rx_avail c))"

text \<open>
  Runs of one connection: \<open>R\<close> collects the sequence numbers that arrived in segments of
  the flow, \<open>K\<close> those that the left edge of the window has passed, which is what an
  acknowledgement claims to have received.  A packet from user space may return buffer
  space, up to the size of a receive buffer.
\<close>

inductive legacy_run :: "bpf_tcp_conn \<Rightarrow> u32 set \<Rightarrow> u32 set \<Rightarrow> bpf_tcp_conn \<Rightarrow> bool" for c0 where
  legacy_start: "legacy_run c0 {} {} c0"
| legacy_rx: "legacy_run c0 R K c \<Longrightarrow> legacy_rx_process (env :: (u32 \<rightharpoonup> dst_entry) prog_env) tcph p ece c m st = (act, c', m', st') \<Longrightarrow>
    66 \<le> length p \<Longrightarrow> length p < 2 ^ 16 \<Longrightarrow>
    legacy_run c0 (R \<union> seq_span (bpf_ntohl (ld32 (tcph + 4) p)) (of_nat (length p) - 66))
      (K \<union> seq_span (rx_next_seq c) (rx_next_seq c' - rx_next_seq c)) c'"
| legacy_tx: "legacy_run c0 R K c \<Longrightarrow> legacy_tx_process (env :: (u32 \<rightharpoonup> dst_entry) prog_env) iph tcph c p m st = (act, c', p', m', st') \<Longrightarrow>
    unat (rx_avail c) + unat (tx_rx_bump (meta_tx m)) < 2 ^ 31 \<Longrightarrow> legacy_run c0 R K c'"

lemma seq_span_empty [simp]: "seq_span s 0 = {}"
  by (simp add: seq_span_def)

lemma span_in_window:
  assumes "seq_span s n \<subseteq> seq_span r A" "n \<noteq> 0" "unat n < 2 ^ 31" "unat A < 2 ^ 31"
  shows "unat (s - r) + unat n \<le> unat A"
proof -
  have n: "0 < unat n" using assms(2) by (simp add: unat_gt_0)
  have "s \<in> seq_span s n" using assms(2) by (simp add: seq_span_def word_gt_0)
  then have "s \<in> seq_span r A" using assms(1) by blast
  then have d: "unat (s - r) < unat A" by (simp add: seq_span_def word_less_nat_alt)
  have l: "unat (n - 1) = unat n - 1" using assms(2) by (simp add: unat_minus_one)
  have "s + (n - 1) \<in> seq_span s n" using n l by (simp add: seq_span_def word_less_nat_alt)
  then have "s + (n - 1) \<in> seq_span r A" using assms(1) by blast
  then have "unat ((s - r) + (n - 1)) < unat A" by (simp add: seq_span_def word_less_nat_alt algebra_simps)
  moreover have "unat ((s - r) + (n - 1)) = unat (s - r) + (unat n - 1)"
  proof -
    have "unat (s - r) + unat (n - 1) < 2 ^ 32" using d l assms(3,4) by simp
    then show ?thesis using unat_add_lem [of "s - r" "n - 1"] l by simp
  qed
  ultimately show ?thesis using n by simp
qed

lemma span_join:
  assumes "unat a + unat b < 2 ^ 32"
  shows "seq_span s (a + b) = seq_span s a \<union> seq_span (s + a) b"
proof -
  have ab: "unat (a + b) = unat a + unat b" using assms unat_add_lem [of a b] by simp
  have "x - s < a + b \<longleftrightarrow> x - s < a \<or> x - (s + a) < b" for x
  proof -
    have e: "x - (s + a) = x - s - a" by simp
    show ?thesis unfolding e using ab unat_lt32 [of "x - s"] unat_lt32 [of a] unat_lt32 [of b] assms
      by (auto simp: seq_nat word_less_nat_alt unat_sub_if' split: if_splits)
  qed
  then show ?thesis by (auto simp: seq_span_def)
qed

lemma span_sub:
  assumes "unat k + unat b \<le> unat a"
  shows "seq_span (s + k) b \<subseteq> seq_span s a"
proof
  fix x
  assume "x \<in> seq_span (s + k) b"
  then have "unat (x - (s + k)) < unat b" by (simp add: seq_span_def word_less_nat_alt)
  moreover have le: "unat (y + k) \<le> unat y + unat k" for y :: u32 by (simp add: unat_plus_if')
  have "unat (x - s) \<le> unat (x - (s + k)) + unat k" using le [of "x - (s + k)"] by (simp add: algebra_simps)
  ultimately show "x \<in> seq_span s a" using assms by (simp add: seq_span_def word_less_nat_alt)
qed

lemma trim_payload_le: "trim_payload n a b \<le> n"
  by (auto simp: trim_payload_def word_sub_le)

text \<open>The stored interval against a window whose left edge has moved by \<open>n\<close>.\<close>

lemma merge_valid:
  assumes "rx_next_seq c = r + n" "rx_avail c = A - n" "n \<le> A" "unat A < 2 ^ 31" "L \<noteq> 0"
    and "unat (ost - r) + unat L \<le> unat A"
  defines "D \<equiv> ost - r"
  shows "tcp_valid_rxseq_ooo c ost L =
    (if n \<le> D then Some (0, 0) else if n < D + L then Some (n - D, 0) else if n = A \<and> D + L = A then Some (L, 0) else None)"
proof -
  have d: "ost - rx_next_seq c = D - n" unfolding assms(1) D_def by simp
  have u: "unat (D + L) = unat D + unat L" "unat (A - n) = unat A - unat n" "0 < unat L" "unat n \<le> unat A"
    using assms(3-6) unat_add_lem [of D L] unat_sub [OF assms(3)]
    by (auto simp: D_def word_le_nat_alt unat_gt_0)
  note lt = unat_lt32 [of D] unat_lt32 [of L]
  show ?thesis
  proof (cases "n \<le> D")
    case True
    then have "unat (D - n) = unat D - unat n" "unat n \<le> unat D" by (simp_all add: unat_sub word_le_nat_alt)
    then have "D - n < A - n" "0 < D - n + L" "D - n + L \<le> A - n"
      using u assms(4,6) lt unfolding D_def [symmetric]
      by (auto simp: word_less_nat_alt word_le_nat_alt unat_plus_if' split: if_splits)
    then show ?thesis using True unfolding rxseq_ooo_distance d assms(2) Let_def by simp
  next
    case False
    then have nd: "unat D < unat n" by (simp add: word_le_nat_alt)
    then have m: "unat (D - n) = unat D + 2 ^ 32 - unat n" "unat (n - D) = unat n - unat D"
      using lt by (simp_all add: unat_sub_if')
    have a: "\<not> D - n < A - n" using m(1) nd u(2,4) assms(4) by (simp add: word_less_nat_alt)
    have neg: "- (D - n) = n - D" by simp
    show ?thesis
    proof (cases "n < D + L")
      case True
      then have "unat n < unat D + unat L" by (simp add: word_less_nat_alt u(1))
      then have "unat (D - n + L) = unat D + unat L - unat n" "- (D - n) < L"
        using m nd lt unfolding neg by (simp_all add: unat_plus_if' word_less_nat_alt)
      then have "0 < D - n + L" "D - n + L \<le> A - n"
        using u assms(6) \<open>unat n < unat D + unat L\<close> unfolding D_def [symmetric] by (simp_all add: word_less_nat_alt word_le_nat_alt)
      then show ?thesis using True \<open>- (D - n) < L\<close> False a unfolding rxseq_ooo_distance d assms(2) Let_def by simp
    next
      case f2: False
      then have g: "unat D + unat L \<le> unat n" by (simp add: word_less_nat_alt u(1))
      have x: "\<not> - (D - n) < L" unfolding neg using g m(2) by (simp add: word_less_nat_alt)
      have y: "\<not> (0 < D - n + L \<and> D - n + L \<le> A - n)"
      proof (cases "unat D + unat L = unat n")
        case True
        then have "D + L = n" using u(1) by (simp add: word_unat_eq_iff)
        then show ?thesis by (simp add: algebra_simps)
      next
        case False
        with g have "unat D + unat L < unat n" by simp
        then have "unat (D - n) + unat L < 2 ^ 32" using nd m(1) lt by simp
        then have "unat (D - n + L) = unat D + 2 ^ 32 - unat n + unat L" using m(1) unat_add_lem [of "D - n" L] by simp
        then have "unat (A - n) < unat (D - n + L)" using u assms(4) by simp
        then show ?thesis by (simp add: word_le_nat_alt)
      qed
      have e: "A - n - (D - n) = A - D" by simp
      have "unat (A - D) = unat A - unat D" using g u by (simp add: unat_sub word_le_nat_alt)
      then have z: "(0 < A - n - (D - n) \<and> A - n - (D - n) \<le> L) \<longleftrightarrow> n = A \<and> D + L = A"
        unfolding e using g u assms(6) [folded D_def] by (auto simp: word_less_nat_alt word_le_nat_alt word_unat_eq_iff)
      have w: "n = A \<and> D + L = A \<Longrightarrow> - (D - n) = L \<and> D - n + L - (A - n) = 0"
        by (auto simp: algebra_simps)
      show ?thesis using False f2 a x y z w unfolding rxseq_ooo_distance d assms(2) Let_def by auto
    qed
  qed
qed

lemma legacy_advance_simps [simp]:
  "rx_next_seq (legacy_advance n c) = rx_next_seq c + n" "rx_avail (legacy_advance n c) = rx_avail c - n"
  "rx_ooo_start (legacy_advance n c) = rx_ooo_start c" "rx_ooo_len (legacy_advance n c) = rx_ooo_len c"
  by (simp_all add: legacy_advance_def Let_def)

lemma legacy_merge_effect:
  assumes "rx_next_seq (lx_c s) = r + n" "rx_avail (lx_c s) = A - n" "n \<le> A" "unat A < 2 ^ 31" "L \<noteq> 0"
    and "unat (ost - r) + unat L \<le> unat A" "rx_ooo_len (lx_c s) = L" "rx_ooo_start (lx_c s) = ost"
  defines "c2 \<equiv> lx_c (legacy_merge s)"
  shows "(rx_ooo_len c2 = 0 \<and> rx_next_seq c2 = r + n \<and> rx_avail c2 = A - n)
    \<or> (n < ost - r \<and> rx_ooo_start c2 = ost \<and> rx_ooo_len c2 = L \<and> rx_next_seq c2 = r + n \<and> rx_avail c2 = A - n)
    \<or> (ost - r \<le> n \<and> n < ost - r + L \<and> rx_ooo_len c2 = 0 \<and> rx_next_seq c2 = ost + L \<and> rx_avail c2 = A - (ost + L - r))"
proof -
  note v = merge_valid [OF assms(1-6)]
  consider (eq) "n = ost - r" | (ahead) "n \<le> ost - r" "n \<noteq> ost - r" | (over) "\<not> n \<le> ost - r" "n < ost - r + L"
    | (all) "\<not> n \<le> ost - r" "\<not> n < ost - r + L" by blast
  then show ?thesis
  proof cases
    case eq
    then have "n < ost - r + L" using assms(4-6) unat_add_lem [of "ost - r" L] by (simp add: word_less_nat_alt unat_gt_0)
    moreover have "r + n = ost" using eq by simp
    moreover have "A - n - L = A - (ost + L - r)" using eq by simp
    ultimately show ?thesis using eq v assms(1,2,5,7,8) by (simp add: c2_def legacy_merge_def Let_def)
  next
    case ahead
    then have "ost \<noteq> r + n" by auto
    then show ?thesis using ahead v assms(1,2,5,7,8) by (simp add: c2_def legacy_merge_def Let_def)
  next
    case over
    then have "L - (n - (ost - r)) \<noteq> 0" by (auto simp: algebra_simps)
    moreover have "ost + (n - (ost - r)) = r + n" "r + n + (L - (n - (ost - r))) = ost + L"
      "A - n - (L - (n - (ost - r))) = A - (ost + L - r)" by simp_all
    ultimately show ?thesis using over v assms(1,2,5,7,8)
      by (simp add: c2_def legacy_merge_def Let_def) (auto simp: algebra_simps)
  next
    case all
    then show ?thesis using v assms(1,2,5,7,8) by (auto simp: c2_def legacy_merge_def Let_def)
  qed
qed

text \<open>What a segment may do to the receiver: every byte that becomes acknowledged or stored was in it or stored before.\<close>

definition seg_sound :: "bpf_tcp_conn \<Rightarrow> u32 set \<Rightarrow> bpf_tcp_conn \<Rightarrow> bool" where
  "seg_sound c seg c' \<longleftrightarrow> rcv_wf c' \<and> right_edge c' = right_edge c
     \<and> unat (rx_next_seq c' - rx_next_seq c) \<le> unat (rx_avail c)
     \<and> seq_span (rx_next_seq c) (rx_next_seq c' - rx_next_seq c) \<subseteq> seg \<union> ooo_span c
     \<and> ooo_span c' \<subseteq> seg \<union> ooo_span c"

definition rx_side :: "bpf_tcp_conn \<Rightarrow> u32 \<times> u32 \<times> u32 \<times> u32" where
  "rx_side c = (rx_next_seq c, rx_avail c, rx_ooo_start c, rx_ooo_len c)"

lemma seg_sound_refl: "rcv_wf c \<Longrightarrow> rx_side c' = rx_side c \<Longrightarrow> seg_sound c seg c'"
  by (auto simp: seg_sound_def rcv_wf_def rx_side_def right_edge_def ooo_span_def)

lemma seg_sound_side: "rx_side c1 = rx_side c \<Longrightarrow> rx_side c2 = rx_side c' \<Longrightarrow> seg_sound c1 seg c2 = seg_sound c seg c'"
  by (simp add: seg_sound_def rcv_wf_def rx_side_def right_edge_def ooo_span_def)

lemma legacy_deliver_sound:
  assumes "rcv_wf (lx_c s)" "lx_payload_len s \<le> rx_avail (lx_c s)"
    and "seq_span (rx_next_seq (lx_c s)) (lx_payload_len s) \<subseteq> seg"
  shows "seg_sound (lx_c s) seg (lx_c (legacy_deliver s))"
proof (cases "lx_payload_len s = 0")
  case True
  then show ?thesis using assms(1) by (simp add: legacy_deliver_def seg_sound_refl)
next
  case False
  define c where "c = lx_c s"
  define n where "n = lx_payload_len s"
  let ?r = "rx_next_seq c" and ?A = "rx_avail c" and ?L = "rx_ooo_len c" and ?o = "rx_ooo_start c"
  define s1 where "s1 = s\<lparr>lx_rx_bump := lx_payload_len s, lx_c := legacy_advance (lx_payload_len s) (lx_c s)\<rparr>"
  define c2 where "c2 = lx_c (legacy_merge s1)"
  have c2: "lx_c (legacy_deliver s) = c2" using False by (simp add: legacy_deliver_def c2_def s1_def Let_def)
  have s1: "rx_next_seq (lx_c s1) = ?r + n" "rx_avail (lx_c s1) = ?A - n" "rx_ooo_len (lx_c s1) = ?L" "rx_ooo_start (lx_c s1) = ?o"
    by (simp_all add: s1_def c_def n_def)
  have A: "unat ?A < 2 ^ 31" "n \<le> ?A" "unat n \<le> unat ?A" using assms(1,2) by (simp_all add: rcv_wf_def c_def n_def word_le_nat_alt)
  have seg: "seq_span ?r n \<subseteq> seg" using assms(3) by (simp add: c_def n_def)
  have an: "unat (?A - n) = unat ?A - unat n" by (rule unat_sub [OF A(2)])
  show ?thesis
  proof (cases "?L = 0")
    case True
    then have "rx_ooo_len c2 = 0" "rx_next_seq c2 = ?r + n" "rx_avail c2 = ?A - n"
      using s1 by (simp_all add: c2_def legacy_merge_def)
    then show ?thesis using seg A an unfolding c2 c_def [symmetric]
      by (auto simp: seg_sound_def rcv_wf_def right_edge_def ooo_span_def)
  next
    case L: False
    then have g: "unat (?o - ?r) + unat ?L \<le> unat ?A" using assms(1) by (simp add: rcv_wf_def c_def)
    then have ol: "unat (?o - ?r + ?L) = unat (?o - ?r) + unat ?L" using A unat_add_lem [of "?o - ?r" ?L] by simp
    from legacy_merge_effect [OF s1(1,2) A(2,1) L g s1(3,4), folded c2_def]
    consider (drop) "rx_ooo_len c2 = 0" "rx_next_seq c2 = ?r + n" "rx_avail c2 = ?A - n"
      | (keep) "n < ?o - ?r" "rx_ooo_start c2 = ?o" "rx_ooo_len c2 = ?L" "rx_next_seq c2 = ?r + n" "rx_avail c2 = ?A - n"
      | (join) "?o - ?r \<le> n" "n < ?o - ?r + ?L" "rx_ooo_len c2 = 0" "rx_next_seq c2 = ?o + ?L" "rx_avail c2 = ?A - (?o + ?L - ?r)"
      by blast
    then show ?thesis unfolding c2 c_def [symmetric]
    proof cases
      case drop
      then show "seg_sound c seg c2" using seg A an by (auto simp: seg_sound_def rcv_wf_def right_edge_def ooo_span_def)
    next
      case keep
      have "unat (?o - (?r + n)) = unat (?o - ?r) - unat n"
        using keep(1) unat_sub [of n "?o - ?r"] by (simp add: algebra_simps)
      then show "seg_sound c seg c2" using keep g seg A an
        by (auto simp: seg_sound_def rcv_wf_def right_edge_def ooo_span_def word_less_nat_alt)
    next
      case join
      let ?k = "?o - ?r"
      have e: "?o + ?L - ?r = ?k + ?L" by simp
      have "seq_span ?r ?k \<subseteq> seq_span ?r n" using span_sub [of 0 ?k n ?r] join(1) by (simp add: word_le_nat_alt)
      moreover have "seq_span ?r (?k + ?L) = seq_span ?r ?k \<union> seq_span ?o ?L"
        using span_join [of ?k ?L ?r] g A(1) by simp
      ultimately have "seq_span ?r (?o + ?L - ?r) \<subseteq> seg \<union> ooo_span c" using seg unfolding e ooo_span_def by blast
      moreover have "unat (?A - (?k + ?L)) \<le> unat ?A" using g ol by (simp add: unat_sub_if')
      ultimately show "seg_sound c seg c2" using join A g ol unfolding e
        by (simp add: seg_sound_def rcv_wf_def right_edge_def e) (simp add: ooo_span_def)
    qed
  qed
qed

lemma legacy_validate_sound:
  assumes "rcv_wf (lx_c s)" "unat (lx_payload_len s) < 2 ^ 31"
  defines "seg \<equiv> seq_span (lx_seq s) (lx_payload_len s)"
  shows "case legacy_validate s of Inl t \<Rightarrow> seg_sound (lx_c s) seg (lx_c t)
    | Inr t \<Rightarrow> lx_c t = lx_c s \<and> lx_payload_len t \<le> rx_avail (lx_c s) \<and> seq_span (rx_next_seq (lx_c s)) (lx_payload_len t) \<subseteq> seg"
proof (cases "tcp_valid_rxseq_ooo (lx_c s) (lx_seq s) (lx_payload_len s)")
  case None
  then show ?thesis using assms(1) by (simp add: legacy_validate_def seg_sound_refl)
next
  case (Some tt)
  obtain ts te where t: "tt = (ts, te)" by (cases tt)
  define c where "c = lx_c s"
  define n where "n = trim_payload (lx_payload_len s) ts te"
  define q where "q = lx_seq s + ts"
  let ?r = "rx_next_seq c" and ?A = "rx_avail c" and ?o = "rx_ooo_start c" and ?L = "rx_ooo_len c"
  have A: "unat ?A < 2 ^ 31" using assms(1) by (simp add: rcv_wf_def c_def)
  have n31: "unat n < 2 ^ 31" using trim_payload_le [of "lx_payload_len s" ts te] assms(2) by (simp add: n_def word_le_nat_alt)
  have i: "seq_span q n = seg \<inter> seq_span ?r ?A"
    using rxseq_ooo_inter [OF Some [unfolded t]] assms(2) A by (simp add: q_def n_def seg_def c_def)
  then have sub: "seq_span q n \<subseteq> seg" by blast
  have le: "n \<noteq> 0 \<Longrightarrow> unat (q - ?r) + unat n \<le> unat ?A" using span_in_window [of q n ?r ?A] i n31 A by auto
  show ?thesis
  proof (cases "q = ?r")
    case True
    have "n \<le> ?A" using le True by (cases "n = 0") (simp_all add: word_le_nat_alt)
    then show ?thesis using Some t True sub by (simp add: legacy_validate_def Let_def q_def n_def c_def)
  next
    case False
    show ?thesis
    proof (cases "n = 0")
      case True
      then show ?thesis using Some t False assms(1) by (simp add: legacy_validate_def Let_def q_def n_def c_def seg_sound_refl)
    next
      case n0: False
      note le = le [OF n0]
      consider (new) "?L = 0" | (front) "?L \<noteq> 0" "q + n = ?o" | (behind) "?L \<noteq> 0" "q + n \<noteq> ?o" "?o + ?L = q"
        | (other) "?L \<noteq> 0" "q + n \<noteq> ?o" "?o + ?L \<noteq> q" by blast
      then show ?thesis
      proof cases
        case new
        have "seg_sound c seg (c\<lparr>rx_ooo_start := q, rx_ooo_len := n\<rparr>)"
          using A le sub by (auto simp: seg_sound_def rcv_wf_def right_edge_def ooo_span_def)
        then show ?thesis using Some t False n0 new by (simp add: legacy_validate_def Let_def q_def n_def c_def)
      next
        case front
        have g: "unat (?o - ?r) + unat ?L \<le> unat ?A" using assms(1) front(1) by (simp add: rcv_wf_def c_def)
        have e: "?o - ?r = (q - ?r) + n" using front(2) by (simp add: algebra_simps)
        have o: "unat (?o - ?r) = unat (q - ?r) + unat n" using le A unat_add_lem [of "q - ?r" n] unfolding e by simp
        then have nl: "unat (n + ?L) = unat n + unat ?L" using g A unat_add_lem [of n ?L] by simp
        have "seq_span q (?L + n) = seq_span q n \<union> ooo_span c"
          using span_join [of n ?L q] g o A front(2) by (simp add: ooo_span_def add.commute)
        then have "seg_sound c seg (c\<lparr>rx_ooo_start := q, rx_ooo_len := ?L + n\<rparr>)"
          using A sub g o nl by (auto simp: seg_sound_def rcv_wf_def right_edge_def ooo_span_def add.commute)
        then show ?thesis using Some t False n0 front by (simp add: legacy_validate_def Let_def q_def n_def c_def)
      next
        case behind
        have g: "unat (?o - ?r) + unat ?L \<le> unat ?A" using assms(1) behind(1) by (simp add: rcv_wf_def c_def)
        have e: "q - ?r = (?o - ?r) + ?L" using behind(3) by (simp add: algebra_simps)
        have o: "unat (q - ?r) = unat (?o - ?r) + unat ?L" using g A unat_add_lem [of "?o - ?r" ?L] unfolding e by simp
        then have nl: "unat (?L + n) = unat ?L + unat n" using le A unat_add_lem [of ?L n] by simp
        have "seq_span ?o (?L + n) = ooo_span c \<union> seq_span q n"
          using span_join [of ?L n ?o] le o A behind(3) by (simp add: ooo_span_def)
        then have "seg_sound c seg (c\<lparr>rx_ooo_len := ?L + n\<rparr>)"
          using A sub le o nl by (auto simp: seg_sound_def rcv_wf_def right_edge_def ooo_span_def)
        then show ?thesis using Some t False n0 behind by (simp add: legacy_validate_def Let_def q_def n_def c_def)
      next
        case other
        then show ?thesis using Some t False n0 assms(1)
          by (simp add: legacy_validate_def Let_def q_def n_def c_def seg_sound_refl)
      qed
    qed
  qed
qed

lemma fast_retransmit_side: "rx_side (fst (snd (fast_retransmit c cc))) = rx_side c"
  by (simp add: fast_retransmit_def Let_def rx_side_def)

lemma legacy_ack_side:
  "case legacy_ack tcph p s of Inl t \<Rightarrow> rx_side (lx_c t) = rx_side (lx_c s)
   | Inr t \<Rightarrow> rx_side (lx_c t) = rx_side (lx_c s) \<and> lx_seq t = lx_seq s \<and> lx_payload_len t = lx_payload_len s"
  by (simp add: legacy_ack_def Let_def case_prod_beta fast_retransmit_side split: option.split) (simp add: rx_side_def)

lemma legacy_window_side:
  "rx_side (lx_c (legacy_window now tcph p s)) = rx_side (lx_c s)" "lx_payload_len (legacy_window now tcph p s) = lx_payload_len s"
  by (simp_all add: legacy_window_def rx_side_def Let_def)

lemma legacy_stages_sound:
  assumes "rcv_wf (lx_c s)" "unat (lx_payload_len s) < 2 ^ 31"
  shows "seg_sound (lx_c s) (seq_span (lx_seq s) (lx_payload_len s)) (lx_c (legacy_stages now tcph p s))"
proof (cases "legacy_ack tcph p s")
  case (Inl t)
  then show ?thesis using legacy_ack_side [where tcph = tcph and p = p and s = s] assms(1) by (simp add: legacy_stages_def seg_sound_refl)
next
  case (Inr t)
  have t: "rx_side (lx_c t) = rx_side (lx_c s)" "lx_seq t = lx_seq s" "lx_payload_len t = lx_payload_len s"
    using legacy_ack_side [where tcph = tcph and p = p and s = s] Inr by simp_all
  then have wf: "rcv_wf (lx_c t)" using assms(1) by (simp add: rcv_wf_def rx_side_def)
  note v = legacy_validate_sound [OF wf, unfolded t, OF assms(2)]
  show ?thesis
  proof (cases "legacy_validate t")
    case Inl2: (Inl w)
    then show ?thesis using v Inr seg_sound_side [OF t(1) refl] by (simp add: legacy_stages_def)
  next
    case Inr2: (Inr w)
    let ?w = "legacy_window now tcph p w"
    have w: "lx_c w = lx_c t" "lx_payload_len w \<le> rx_avail (lx_c t)"
      "seq_span (rx_next_seq (lx_c t)) (lx_payload_len w) \<subseteq> seq_span (lx_seq s) (lx_payload_len s)"
      using v Inr2 by simp_all
    have side: "rx_side (lx_c ?w) = rx_side (lx_c s)" using legacy_window_side(1) w(1) t(1) by simp
    then have "rx_next_seq (lx_c ?w) = rx_next_seq (lx_c t)" "rx_avail (lx_c ?w) = rx_avail (lx_c t)" "rcv_wf (lx_c ?w)"
      using t(1) wf by (simp_all add: rx_side_def rcv_wf_def)
    then have "seg_sound (lx_c ?w) (seq_span (lx_seq s) (lx_payload_len s)) (lx_c (legacy_deliver ?w))"
      using legacy_deliver_sound [of ?w] w(2,3) by (simp add: legacy_window_side)
    then show ?thesis using Inr Inr2 seg_sound_side [OF side refl] by (simp add: legacy_stages_def)
  qed
qed

lemma legacy_unlock_c [simp]: "lx_c (legacy_unlock s) = lx_c s"
  by (simp add: legacy_unlock_def Let_def)

lemma legacy_rx_sound:
  assumes "legacy_rx_process env tcph p ece c m st = (act, c', m', st')" "rcv_wf c" "66 \<le> length p" "length p < 2 ^ 16"
  shows "seg_sound c (seq_span (bpf_ntohl (ld32 (tcph + 4) p)) (of_nat (length p) - 66)) c'"
proof (cases "cc_lookup (cc_map st) (cc_idx c)")
  case None
  then show ?thesis using assms(1,2) by (simp add: legacy_rx_process_def Let_def seg_sound_refl)
next
  case (Some cc)
  have "unat (of_nat (length p) - 66 :: u32) = length p - 66"
    using assms(3,4) by (simp add: unat_sub word_le_nat_alt unsigned_of_nat take_bit_nat_eq_self)
  then have l: "unat (of_nat (length p) - 66 :: u32) < 2 ^ 31" using assms(4) by simp
  let ?s = "\<lparr> lx_c = c, lx_cc = cc, lx_meta = m, lx_payload_off = 66, lx_payload_len = of_nat (length p) - 66,
      lx_seq = bpf_ntohl (ld32 (tcph + 4) p), lx_trigger_ack = (of_nat (length p) - 66 \<noteq> (0 :: u32)), lx_go_back_pos = 0,
      lx_rx_bump = 0, lx_tx_bump = 0, lx_clear_ooo = False, lx_drop = True \<rparr>"
  have "c' = lx_c (legacy_stages (rx_now (e_clock env 1) (cpus st (e_cpu env))) tcph p ?s)"
    using assms(1) Some by (simp add: legacy_rx_process_def Let_def)
  then show ?thesis using legacy_stages_sound [of ?s] assms(2) l by simp
qed

lemma legacy_sent_side: "rx_side (legacy_sent n c) = rx_side c"
  by (simp add: legacy_sent_def rx_side_def Let_def)

lemma legacy_tx_side:
  assumes "legacy_tx_process env iph tcph c p m st = (act, c', p', m', st')"
  shows "rx_side c' = rx_side c \<or> rx_side c' = rx_side (c\<lparr>rx_avail := rx_avail c + tx_rx_bump (meta_tx m)\<rparr>)"
proof -
  have s: "rx_side (c\<lparr>rx_avail := x, tx_pending := y\<rparr>) = rx_side (c\<lparr>rx_avail := x\<rparr>)" "rx_side (c\<lparr>tx_pending := y\<rparr>) = rx_side c" for x y
    by (simp_all add: rx_side_def)
  show ?thesis
    using assms fast_retransmit_side [of c "cc_map st (cc_idx c)"]
    by (auto simp: legacy_tx_process_def cc_lookup_def Let_def case_prod_beta legacy_sent_side s split: if_splits)
qed

lemma rcv_wf_grow:
  assumes "rcv_wf c" "rx_side c' = rx_side c \<or> rx_side c' = rx_side (c\<lparr>rx_avail := rx_avail c + b\<rparr>)"
    and "unat (rx_avail c) + unat b < 2 ^ 31"
  shows "rcv_wf c'" "rx_side c' = rx_side c \<or> rx_next_seq c' = rx_next_seq c" "ooo_span c' = ooo_span c"
proof -
  have b: "unat (rx_avail c + b) = unat (rx_avail c) + unat b" using assms(3) unat_add_lem [of "rx_avail c" b] by simp
  show "rcv_wf c'" using assms b by (auto simp: rcv_wf_def rx_side_def)
  show "rx_side c' = rx_side c \<or> rx_next_seq c' = rx_next_seq c" "ooo_span c' = ooo_span c"
    using assms(2) by (auto simp: rx_side_def ooo_span_def)
qed

lemma legacy_run_sound:
  assumes "legacy_run c0 R K c" "rcv_wf c0" "rx_ooo_len c0 = 0"
  shows "rcv_wf c \<and> K \<subseteq> R \<and> ooo_span c \<subseteq> R"
  using assms(1)
proof induction
  case legacy_start
  then show ?case using assms(2,3) by (simp add: ooo_span_def)
next
  case (legacy_rx R K c env tcph p ece m st act c' m' st')
  then show ?case using legacy_rx_sound [OF legacy_rx(2) _ legacy_rx(3,4)] by (auto simp: seg_sound_def)
next
  case (legacy_tx R K c env iph tcph p m st act c' p' m' st')
  then show ?case using rcv_wf_grow [OF _ legacy_tx_side [OF legacy_tx(2)] legacy_tx(3)] by auto
qed

section \<open>Properties\<close>

text \<open>C3: in the configuration without the event processors, over every sequence of received
  packets and of packets from user space, every byte the receiver acknowledges has arrived in a
  segment, the bytes it holds out of order have arrived as well, and those lie inside the window.\<close>

theorem legacy_acks_only_received:
  assumes "legacy_run c0 R K c" "rcv_wf c0" "rx_ooo_len c0 = 0"
  shows "K \<subseteq> R \<and> ooo_span c \<subseteq> R \<and> rcv_wf c"
  using legacy_run_sound [OF assms] by blast

theorem legacy_acks_only_received_witness:
  "\<exists>c. legacy_run (zero_conn\<lparr>rx_avail := 1000, rx_buf_size := 1000, rx_next_seq := 5\<rparr>) (seq_span 0 8) (seq_span 5 3) c
     \<and> rx_next_seq c = 8 \<and> seq_span 5 3 \<subseteq> seq_span (0 :: u32) 8"
proof -
  let ?c0 = "zero_conn\<lparr>rx_avail := 1000, rx_buf_size := 1000, rx_next_seq := 5\<rparr>"
  let ?p = "replicate 74 (0 :: u8)"
  define env :: "(u32 \<rightharpoonup> dst_entry) prog_env" where "env = undefined"
  obtain act c m st where r: "legacy_rx_process env 34 ?p False ?c0 (replicate 32 0) init_state = (act, c, m, st)"
    by (metis prod_cases4)
  have z: "ld8 k ?p = 0" for k by (simp add: ld8_def nth_default_def)
  have z16: "ld16 k ?p = 0" and z32: "ld32 k ?p = 0" for k by (simp_all add: ld16_def ld32_def z)
  have b: "bswap16 0 = 0" "bswap32 0 = 0" by (simp_all add: bswap16_def bswap32_def)
  have f: "\<not> tcp_flag k 34 ?p" for k by (simp add: tcp_flag_def z)
  have v: "tcp_valid_rxseq_ooo ?c0 0 8 = Some (5, 0)" by (simp add: rxseq_ooo_distance)
  have t: "trim_payload 8 5 0 = 3" by (simp add: trim_payload_def)
  have zc: "cc_idx zero_conn = 0" "rx_ooo_len zero_conn = 0" by (simp_all add: zero_conn_def)
  let ?s = "\<lparr> lx_c = ?c0, lx_cc = cc_map init_state 0, lx_meta = replicate 32 0, lx_payload_off = 66, lx_payload_len = 8,
      lx_seq = 0, lx_trigger_ack = True, lx_go_back_pos = 0, lx_rx_bump = 0, lx_tx_bump = 0, lx_clear_ooo = False, lx_drop = True \<rparr>"
  let ?now = "rx_now (e_clock env 1) (cpus init_state (e_cpu env))"
  have c: "c = lx_c (legacy_stages ?now 34 ?p ?s)"
    using r by (simp add: legacy_rx_process_def cc_lookup_def Let_def zc z32 b)
  obtain w where w: "legacy_validate ?s = Inr w" "lx_c w = ?c0" "lx_payload_len w = 3"
    by (simp add: legacy_validate_def v t Let_def)
  let ?w = "legacy_window ?now 34 ?p w"
  have side: "rx_next_seq (lx_c ?w) = 5" "rx_ooo_len (lx_c ?w) = 0" "lx_payload_len ?w = 3"
    using legacy_window_side [where now = ?now and tcph = 34 and p = ?p and s = w] w zc by (simp_all add: rx_side_def)
  have "rx_next_seq (lx_c (legacy_deliver ?w)) = 8"
    using side by (simp add: legacy_deliver_def legacy_merge_def Let_def)
  then have "rx_next_seq c = 8" unfolding c by (simp add: legacy_stages_def legacy_ack_def f w(1))
  moreover have "legacy_run ?c0 ({} \<union> seq_span 0 8) ({} \<union> seq_span 5 (rx_next_seq c - 5)) c"
    using legacy_rx [OF legacy_start, of env 34 ?p False ?c0 "replicate 32 0" init_state act c m st] r
    by (simp add: z32 b)
  moreover have "rcv_wf ?c0" "rx_ooo_len ?c0 = 0" by (simp_all add: rcv_wf_def zero_conn_def)
  ultimately show ?thesis using legacy_acks_only_received [of ?c0 "seq_span 0 8" "seq_span 5 3" c] by auto
qed

text \<open>A fast retransmission that rewinds to position 0 of the transmit buffer is carried out
  on the connection but not reported: 0 also stands for no retransmission, so the recovery word
  of the metadata keeps its old contents.\<close>

theorem legacy_rewind_to_start_unreported:
  assumes "tcp_flag ACK tcph p" "tcp_valid_rxack (lx_c s) (bpf_ntohl (ld32 (tcph + 8) p)) = Some 0"
    and "tx_sent (lx_c s) \<noteq> 0" "tx_next_pos (lx_c s) = tx_sent (lx_c s)" "rx_dupack_cnt (lx_c s) = 2"
    and "lx_payload_len s = 0" "rx_remote_avail (lx_c s) = tcp_window tcph p"
    and "lx_go_back_pos s = 0" "lx_tx_bump s = 0" "length (lx_meta s) = 32"
  shows "let t = legacy_unlock (legacy_stages now tcph p s)
    in tx_sent (lx_c t) = 0 \<and> tx_next_pos (lx_c t) = 0 \<and> tx_next_seq (lx_c t) = tx_next_seq (lx_c s) - tx_sent (lx_c s)
       \<and> rx_go_back_pos (meta_rx (lx_meta t)) = rx_go_back_pos (meta_rx (lx_meta s))"
  using assms
  by (simp add: legacy_stages_def legacy_ack_def fast_retransmit_def legacy_unlock_def Let_def)

theorem legacy_rewind_to_start_unreported_witness:
  "\<forall>s. let s0 = s\<lparr>lx_c := zero_conn\<lparr>tx_sent := 10, tx_next_pos := 10, tx_next_seq := 10, tx_buf_size := 100, rx_dupack_cnt := 2\<rparr>,
             lx_payload_len := 0, lx_go_back_pos := 0, lx_tx_bump := 0, lx_meta := replicate 32 0xFF\<rparr>;
           t = legacy_unlock (legacy_stages 0 0 (st8 13 16 (replicate 40 0)) s0)
       in tx_next_pos (lx_c t) = 0 \<and> rx_go_back_pos (meta_rx (lx_meta t)) = rx_go_back_pos (meta_rx (replicate 32 0xFF))"
proof
  fix s :: lrx
  let ?p = "st8 13 16 (replicate 40 0)"
  have "ld32 8 ?p = 0" "ld16 14 ?p = 0"
    by (simp_all add: mem_simps) (simp_all add: ld32_def ld16_def ld8_def nth_default_def)
  moreover have "tcp_flag ACK 0 ?p" by (simp add: tcp_flag_def mem_simps bit_numeral_rec)
  ultimately show "let s0 = s\<lparr>lx_c := zero_conn\<lparr>tx_sent := 10, tx_next_pos := 10, tx_next_seq := 10, tx_buf_size := 100, rx_dupack_cnt := 2\<rparr>,
             lx_payload_len := 0, lx_go_back_pos := 0, lx_tx_bump := 0, lx_meta := replicate 32 0xFF\<rparr>;
           t = legacy_unlock (legacy_stages 0 0 ?p s0)
       in tx_next_pos (lx_c t) = 0 \<and> rx_go_back_pos (meta_rx (lx_meta t)) = rx_go_back_pos (meta_rx (replicate 32 0xFF))"
    using legacy_rewind_to_start_unreported [of 0 ?p "s\<lparr>lx_c := zero_conn\<lparr>tx_sent := 10, tx_next_pos := 10, tx_next_seq := 10,
      tx_buf_size := 100, rx_dupack_cnt := 2\<rparr>, lx_payload_len := 0, lx_go_back_pos := 0, lx_tx_bump := 0, lx_meta := replicate 32 0xFF\<rparr>" 0]
    by (simp add: tcp_valid_rxack_def zero_conn_def tcp_window_def bswap32_def bswap16_def Let_def)
qed

end

