(* ===== verification/Tcp_Cc.thy ===== *)
theory Tcp_Cc
  imports Tcp_State "HOL-Library.Signed_Division"
begin

text \<open>
  The congestion control loop of the control plane: the connection object and
  the congestion-control structs (\<open>micro_kernel/runtime/tcp.h\<close>), the timer event
  processors of the MTP configuration (\<open>micro_kernel/ctrl_plane_mtp.h\<close>), the
  algorithms of the other configuration (\<open>micro_kernel/cc.cc\<close>) and the two
  per-connection bodies of \<open>poll_tcp_cc_to\<close> (\<open>micro_kernel/tcp.cc\<close>).

  A failed \<open>assert\<close>, a division by zero, a signed overflow and the conversion of a
  floating-point value outside the range of its integer type are all the value
  \<open>None\<close>.  The floating-point expressions of the sources are written with integer
  operations: \<open>window * 8 * 1000 / 25.0\<close> is an integer below \<open>2^53\<close>, the quotients
  by 1000 and by a 32-bit interval are at least \<open>2^-32\<close> away from the integer above
  them unless they are integers, which is more than the rounding error of a
  double, and \<open>rate * 1e3 / 8\<close> is exact.
\<close>

section \<open>Data\<close>

abbreviation (input) TCP_RTT_INIT :: u32 where "TCP_RTT_INIT \<equiv> 50"
abbreviation (input) TCP_RTO_MIN :: u32 where "TCP_RTO_MIN \<equiv> 4000"
abbreviation (input) REXMIT_INTS :: u32 where "REXMIT_INTS \<equiv> 4"
abbreviation (input) CC_INTERVAL_RTT :: u64 where "CC_INTERVAL_RTT \<equiv> 2"
abbreviation (input) UINT32_MAX :: u32 where "UINT32_MAX \<equiv> 0xffffffff"
abbreviation (input) UINT32_MAX64 :: u64 where "UINT32_MAX64 \<equiv> 0xffffffff"
abbreviation (input) CC_DCTCP_WEIGHT :: u64 where "CC_DCTCP_WEIGHT \<equiv> 268435455"
abbreviation (input) CC_DCTCP_MIN :: u32 where "CC_DCTCP_MIN \<equiv> 500000"
abbreviation (input) CC_DCTCP_STEP :: u32 where "CC_DCTCP_STEP \<equiv> 10000"
abbreviation (input) CC_DCTCP_MINBYTES :: u32 where "CC_DCTCP_MINBYTES \<equiv> 64800"
abbreviation (input) CC_TIMELY_INIT_RATE :: u32 where "CC_TIMELY_INIT_RATE \<equiv> 500000"
abbreviation (input) CC_TIMELY_STEP :: u32 where "CC_TIMELY_STEP \<equiv> 10000"
abbreviation (input) RATE_25G :: u32 where "RATE_25G \<equiv> 3125000000"

datatype connection_status =
    CONN_WAIT_RX_SYN | CONN_WAIT_TX_SYNACK | CONN_WAIT_TX_SYN | CONN_WAIT_RX_SYNACK
  | CONN_OPEN | CONN_CLOSED | CONN_FAILED

datatype cc_algorithm = CC_NONE | CC_TIMELY | CC_DCTCP_RATE | CC_DCTCP_WND

datatype tcp_connection_type = TCP_CONN_TYPE_NORMAL | TCP_CONN_TYPE_FAKE

record cc_dctcp_wnd =
  dw_ecn_rate :: u32
  dw_window :: u32
  dw_slowstart :: bool

record cc_dctcp_rate =
  dr_unproc_acks :: u32
  dr_unproc_ackb :: u32
  dr_unproc_ecnb :: u32
  dr_unproc_drops :: u32
  dr_last_ts :: u32
  dr_ecn_rate :: u32
  dr_act_rate :: u32
  dr_slowstart :: bool

record cc_timely =
  ti_rtt_prev :: u32
  ti_rtt_diff :: u32
  ti_hai_cnt :: u32
  ti_act_rate :: u32
  ti_last_ts :: u32
  ti_slowstart :: bool

record bpf_cc_snapshot =
  sn_drops :: u16
  sn_acks :: u16
  sn_ackb :: u32
  sn_ecnb :: u32
  sn_txp :: bool
  sn_rtt :: u32

text \<open>
  The connection object.  \<open>cc_data\<close> is a union of which a connection only uses the
  member of its algorithm; the members are three fields here.  The owner thread and
  the listener are the indices of their objects, the reference count is that of
  \<open>kref\<close>.
\<close>

record tcp_connection =
  tc_type :: tcp_connection_type
  tc_tctx :: nat
  tc_listener :: "nat option"
  tc_listen_fd :: u32
  tc_reuseport :: bool
  tc_opaque :: u64
  tc_fd :: u32
  tc_local_mac :: bytes
  tc_remote_mac :: bytes
  tc_remote_ip :: u32
  tc_remote_port :: u16
  tc_local_ip :: u32
  tc_local_port :: u16
  tc_rx_buf_size :: u32
  tc_tx_buf_size :: u32
  tc_remote_seq :: u32
  tc_local_seq :: u32
  tc_status :: connection_status
  tc_syn_ts :: u32
  tc_syn_attempts :: u16
  tc_algorithm :: cc_algorithm
  tc_cc_idx :: u32
  tc_prev_desired_tx_ts :: u64
  tc_rate :: u32
  tc_cnt_tx_drops :: u16
  tc_cnt_rx_acks :: u16
  tc_cnt_rx_ack_bytes :: u32
  tc_cnt_rx_ecn_bytes :: u32
  tc_rtt_est :: u32
  tc_txp :: u32
  tc_cc_last_tsc :: u64
  tc_cc_last_rtt :: u32
  tc_cc_last_drops :: u16
  tc_cc_last_acks :: u16
  tc_cc_last_ackb :: u32
  tc_cc_last_ecnb :: u32
  tc_cc_rate :: u32
  tc_cc_rexmits :: u32
  tc_dctcp_wnd :: cc_dctcp_wnd
  tc_dctcp_rate :: cc_dctcp_rate
  tc_timely :: cc_timely
  tc_cnt_tx_pending :: u32
  tc_ts_tx_pending :: u32
  tc_qid :: u32
  tc_flags :: u32
  tc_next_timeout_tsc :: u64
  tc_ref :: nat

text \<open>The constructor clears the object and takes one reference.\<close>

definition new_connection :: tcp_connection where
  "new_connection = \<lparr> tc_type = TCP_CONN_TYPE_NORMAL, tc_tctx = 0, tc_listener = None, tc_listen_fd = 0,
     tc_reuseport = False, tc_opaque = 0, tc_fd = 0, tc_local_mac = replicate 6 0, tc_remote_mac = replicate 6 0,
     tc_remote_ip = 0, tc_remote_port = 0, tc_local_ip = 0, tc_local_port = 0, tc_rx_buf_size = 0,
     tc_tx_buf_size = 0, tc_remote_seq = 0, tc_local_seq = 0, tc_status = CONN_WAIT_RX_SYN, tc_syn_ts = 0,
     tc_syn_attempts = 0, tc_algorithm = CC_NONE, tc_cc_idx = 0, tc_prev_desired_tx_ts = 0, tc_rate = 0,
     tc_cnt_tx_drops = 0, tc_cnt_rx_acks = 0, tc_cnt_rx_ack_bytes = 0, tc_cnt_rx_ecn_bytes = 0,
     tc_rtt_est = 0, tc_txp = 0, tc_cc_last_tsc = 0, tc_cc_last_rtt = 0, tc_cc_last_drops = 0,
     tc_cc_last_acks = 0, tc_cc_last_ackb = 0, tc_cc_last_ecnb = 0, tc_cc_rate = 0, tc_cc_rexmits = 0,
     tc_dctcp_wnd = \<lparr> dw_ecn_rate = 0, dw_window = 0, dw_slowstart = False \<rparr>,
     tc_dctcp_rate = \<lparr> dr_unproc_acks = 0, dr_unproc_ackb = 0, dr_unproc_ecnb = 0, dr_unproc_drops = 0,
       dr_last_ts = 0, dr_ecn_rate = 0, dr_act_rate = 0, dr_slowstart = False \<rparr>,
     tc_timely = \<lparr> ti_rtt_prev = 0, ti_rtt_diff = 0, ti_hai_cnt = 0, ti_act_rate = 0, ti_last_ts = 0,
       ti_slowstart = False \<rparr>,
     tc_cnt_tx_pending = 0, tc_ts_tx_pending = 0, tc_qid = 0, tc_flags = 0, tc_next_timeout_tsc = 0, tc_ref = 1 \<rparr>"

text \<open>The intermediate output of the timer processors; its clock is never used.\<close>

record timer_out =
  to_win :: u32
  to_rtt :: u32

type_synonym cc_map = "u32 \<Rightarrow> bpf_cc"

section \<open>Conversions between windows and rates\<close>

definition window_to_rate :: "u32 \<Rightarrow> u32 \<Rightarrow> u32 option" where
  "window_to_rate window rtt =
    (let time0 = ((ucast window * 8 * 1000) div 25) div (1000 :: u64);
         time = if time0 < ucast (rtt * 1000) then ucast (rtt * 1000) else time0;
         r = (ucast window * 8 * 1000000) div time
     in if time = 0 then None else Some (ucast (if r > UINT32_MAX64 then UINT32_MAX64 else r)))"

definition kbps_to_Bps :: "u32 \<Rightarrow> u32 option" where
  "kbps_to_Bps r =
    (let v = (ucast r * 1000) div (8 :: u64)
     in if v > UINT32_MAX64 then None
        else Some (if ucast v > RATE_25G then RATE_25G else ucast v))"

definition mtp_set_rate :: "u32 \<Rightarrow> u32 \<Rightarrow> cc_map \<Rightarrow> cc_map" where
  "mtp_set_rate idx new_rate m = m(idx := (m idx)\<lparr>cc_rate := new_rate\<rparr>)"

definition set_cc_rate :: "u32 \<Rightarrow> u32 \<Rightarrow> cc_map \<Rightarrow> cc_map option" where
  "set_cc_rate idx new_rate m =
    (case kbps_to_Bps new_rate of
       None \<Rightarrow> None
     | Some v \<Rightarrow> Some (m(idx := (m idx)\<lparr>cc_rate := v\<rparr>)))"

section \<open>The DCTCP arithmetic\<close>

text \<open>The marked fraction of this interval, averaged into the running one.\<close>

definition dctcp_ewma :: "u32 \<Rightarrow> u32 \<Rightarrow> u32 \<Rightarrow> u32" where
  "dctcp_ewma old ecnb ackb =
    (let f = (ucast ecnb * UINT32_MAX64) div ucast ackb
     in ucast ((f * CC_DCTCP_WEIGHT + ucast old * (UINT32_MAX64 - CC_DCTCP_WEIGHT)) div UINT32_MAX64))"

definition dctcp_cut :: "u32 \<Rightarrow> u32 \<Rightarrow> u32" where
  "dctcp_cut v ecn_rate = ucast ((ucast v * ucast (UINT32_MAX - ecn_rate div 2)) div UINT32_MAX64)"

definition dctcp_grow :: "u32 \<Rightarrow> u32 \<Rightarrow> u32" where
  "dctcp_grow win ackb =
    (let incr = (ucast ackb * 1448) div (ucast win :: u64)
     in if (ucast (ucast win + incr) :: u32) > win then win + ucast incr else win)"

section \<open>The timer event processors\<close>

definition mtp_snapshot_cc :: "cc_map \<Rightarrow> tcp_connection \<Rightarrow> tcp_connection \<times> u64" where
  "mtp_snapshot_cc m c =
    (let e = m (tc_cc_idx c)
     in (c\<lparr>tc_cnt_tx_drops := cc_cnt_tx_drops e, tc_cnt_rx_acks := cc_cnt_rx_acks e,
           tc_cnt_rx_ack_bytes := cc_cnt_rx_ack_bytes e, tc_cnt_rx_ecn_bytes := cc_cnt_rx_ecn_bytes e,
           tc_txp := cc_txp e, tc_rtt_est := cc_rtt_est e, tc_rate := cc_rate e,
           tc_prev_desired_tx_ts := cc_prev_desired_tx_ts e\<rparr>,
         cc_ev_curr_tsc e))"

text \<open>The differences to the counters of the previous interval.\<close>

definition mtp_deltas :: "tcp_connection \<Rightarrow> tcp_connection" where
  "mtp_deltas c =
    c\<lparr>tc_cc_last_drops := tc_cnt_tx_drops c, tc_cnt_tx_drops := tc_cnt_tx_drops c - tc_cc_last_drops c,
      tc_cc_last_ackb := tc_cnt_rx_ack_bytes c,
      tc_cnt_rx_ack_bytes := tc_cnt_rx_ack_bytes c - tc_cc_last_ackb c,
      tc_cc_last_ecnb := tc_cnt_rx_ecn_bytes c,
      tc_cnt_rx_ecn_bytes := tc_cnt_rx_ecn_bytes c - tc_cc_last_ecnb c\<rparr>"

definition mtp_slow_start :: "tcp_connection \<Rightarrow> u32 \<Rightarrow> tcp_connection \<times> u32" where
  "mtp_slow_start c win =
    (if dw_slowstart (tc_dctcp_wnd c)
     then if tc_cnt_tx_drops c = 0 \<and> tc_cnt_rx_ecn_bytes c = 0 \<and> tc_cc_rexmits c = 0
          then (c, if win + tc_cnt_rx_ack_bytes c > win then win + tc_cnt_rx_ack_bytes c else win)
          else (c\<lparr>tc_dctcp_wnd := (tc_dctcp_wnd c)\<lparr>dw_slowstart := False\<rparr>\<rparr>, win)
     else (c, win))"

definition mtp_ecn_update :: "tcp_connection \<Rightarrow> tcp_connection" where
  "mtp_ecn_update c =
    (if tc_cnt_rx_ack_bytes c > 0
     then let ecnb = (if tc_cnt_rx_ecn_bytes c \<le> tc_cnt_rx_ack_bytes c then tc_cnt_rx_ecn_bytes c
                      else tc_cnt_rx_ack_bytes c)
          in c\<lparr>tc_cnt_rx_ecn_bytes := ecnb,
               tc_dctcp_wnd := (tc_dctcp_wnd c)\<lparr>dw_ecn_rate :=
                 dctcp_ewma (dw_ecn_rate (tc_dctcp_wnd c)) ecnb (tc_cnt_rx_ack_bytes c)\<rparr>\<rparr>
     else c)"

definition mtp_avoidance :: "tcp_connection \<Rightarrow> u32 \<Rightarrow> (tcp_connection \<times> u32) option" where
  "mtp_avoidance c win =
    (if dw_slowstart (tc_dctcp_wnd c) then Some (c, win)
     else if tc_cnt_tx_drops c > 0 \<or> tc_cc_rexmits c > 0 then Some (c, win div 2)
     else let c' = mtp_ecn_update c
          in if tc_cnt_rx_ecn_bytes c' > 0
             then Some (c', dctcp_cut win (dw_ecn_rate (tc_dctcp_wnd c')))
             else if win = 0 then None
             else Some (c', dctcp_grow win (tc_cnt_rx_ack_bytes c')))"

definition clamp_window :: "u32 \<Rightarrow> u32 \<Rightarrow> u32" where
  "clamp_window tx_buf win =
    (let w = (if win < 1448 then 1448 else win) in if w > tx_buf then tx_buf else w)"

definition slows_congc_ep :: "tcp_connection \<Rightarrow> (tcp_connection \<times> timer_out) option" where
  "slows_congc_ep c0 =
    (let c1 = mtp_deltas c0;
         win0 = dw_window (tc_dctcp_wnd c1);
         rtt = (if tc_rtt_est c1 = 0 then TCP_RTT_INIT else tc_rtt_est c1)
     in if win0 < 1448 then None
        else let (c2, win1) = mtp_slow_start (c1\<lparr>tc_cc_last_rtt := rtt\<rparr>) win0
             in case mtp_avoidance c2 win1 of
                  None \<Rightarrow> None
                | Some (c3, win2) \<Rightarrow>
                    Some (c3\<lparr>tc_cc_rexmits := 0\<rparr>,
                          \<lparr>to_win = clamp_window (tc_tx_buf_size c3) win2, to_rtt = rtt\<rparr>))"

definition set_tx_rate_ep ::
  "cc_map \<Rightarrow> tcp_connection \<Rightarrow> timer_out \<Rightarrow> (cc_map \<times> tcp_connection) option" where
  "set_tx_rate_ep m c out =
    (let time0 = ((ucast (to_win out) * 8 * 1000) div 25) div (1000 :: u64);
         time = if time0 < ucast (to_rtt out * 1000) then ucast (to_rtt out * 1000) else time0;
         r = (ucast (to_win out) * 8 * 1000000) div time;
         r' = if r > UINT32_MAX64 then UINT32_MAX64 else r;
         c' = c\<lparr>tc_cc_rate := ucast r', tc_dctcp_wnd := (tc_dctcp_wnd c)\<lparr>dw_window := to_win out\<rparr>\<rparr>
     in if time = 0 then None
        else case kbps_to_Bps (tc_cc_rate c') of
               None \<Rightarrow> None
             | Some v \<Rightarrow> Some (mtp_set_rate (tc_cc_idx c') v m, c'))"

text \<open>
  \<open>ack_timeout_ep\<close> returns the connection and whether it called
  \<open>issue_retransmit\<close>, which hands a marker packet to the egress program.
\<close>

definition ack_timeout_ep ::
  "(u64 \<Rightarrow> u32) \<Rightarrow> u64 \<Rightarrow> tcp_connection \<Rightarrow> tcp_connection \<times> bool" where
  "ack_timeout_ep cycles_to_us curr_tsc c =
    (let cur_ts = cycles_to_us curr_tsc;
         rtt = (if tc_rtt_est c \<noteq> 0 then tc_rtt_est c else TCP_RTT_INIT)
     in if tc_txp c \<noteq> 0 \<and> tc_cnt_rx_ack_bytes c = 0
        then let c' = c\<lparr>tc_cnt_tx_pending := tc_cnt_tx_pending c + 1\<rparr>
             in if tc_cnt_tx_pending c = 0 then (c'\<lparr>tc_ts_tx_pending := cur_ts\<rparr>, False)
                else if tc_cnt_tx_pending c' \<ge> REXMIT_INTS \<and>
                        cur_ts - tc_ts_tx_pending c' \<ge> c_max (REXMIT_INTS * rtt) TCP_RTO_MIN
                then (c'\<lparr>tc_cnt_tx_pending := 0, tc_cc_rexmits := tc_cc_rexmits c' + 1\<rparr>, True)
                else (c', False)
        else (c\<lparr>tc_cnt_tx_pending := 0\<rparr>, False))"

text \<open>
  The body of the polling loop for an open connection whose interval has passed:
  the clock of the event is set before the snapshot and overwritten by it.
\<close>

definition mtp_cc_interval ::
  "(u64 \<Rightarrow> u32) \<Rightarrow> u64 \<Rightarrow> cc_map \<Rightarrow> tcp_connection \<Rightarrow> (cc_map \<times> tcp_connection \<times> bool) option" where
  "mtp_cc_interval cycles_to_us curr_tsc m c =
    (let (c1, ev) = mtp_snapshot_cc m c
     in case slows_congc_ep c1 of
          None \<Rightarrow> None
        | Some (c2, out) \<Rightarrow>
           (case set_tx_rate_ep m c2 out of
              None \<Rightarrow> None
            | Some (m', c3) \<Rightarrow>
                let (c4, rexmit) = ack_timeout_ep cycles_to_us ev c3
                in Some (m', c4\<lparr>tc_cc_last_tsc := curr_tsc\<rparr>, rexmit)))"

section \<open>The algorithms of the other configuration\<close>

text \<open>The slow start and congestion avoidance of \<open>dctcp_wnd_cc\<close>, on the values they read.\<close>

definition dctcp_wnd_phases ::
  "u16 \<Rightarrow> u32 \<Rightarrow> u32 \<Rightarrow> u32 \<Rightarrow> cc_dctcp_wnd \<Rightarrow> (u32 \<times> cc_dctcp_wnd \<times> u32) option" where
  "dctcp_wnd_phases drops ecnb ackb rexmits cc =
    (let win0 = dw_window cc;
         ss = (dw_slowstart cc \<and> drops = 0 \<and> ecnb = 0 \<and> rexmits = 0);
         win1 = (if ss \<and> win0 + ackb > win0 then win0 + ackb else win0);
         cc1 = cc\<lparr>dw_slowstart := ss\<rparr>
     in if ss then Some (win1, cc1, ecnb)
        else if drops > 0 \<or> rexmits > 0 then Some (win1 div 2, cc1, ecnb)
        else let ecnb' = (if ackb > 0 \<and> \<not> ecnb \<le> ackb then ackb else ecnb);
                 cc2 = (if ackb > 0 then cc1\<lparr>dw_ecn_rate := dctcp_ewma (dw_ecn_rate cc1) ecnb' ackb\<rparr> else cc1)
             in if ecnb' > 0 then Some (dctcp_cut win1 (dw_ecn_rate cc2), cc2, ecnb')
                else if win1 = 0 then None else Some (dctcp_grow win1 ackb, cc2, ecnb'))"

definition dctcp_wnd_cc ::
  "tcp_connection \<Rightarrow> bpf_cc_snapshot \<Rightarrow> (tcp_connection \<times> bpf_cc_snapshot) option" where
  "dctcp_wnd_cc c stats =
    (let rtt = (if sn_rtt stats = 0 then TCP_RTT_INIT else sn_rtt stats)
     in if dw_window (tc_dctcp_wnd c) < 1448 then None
        else case dctcp_wnd_phases (sn_drops stats) (sn_ecnb stats) (sn_ackb stats) (tc_cc_rexmits c)
                    (tc_dctcp_wnd c) of
               None \<Rightarrow> None
             | Some (win, cc, ecnb) \<Rightarrow>
                 let win1 = (if win < 1448 then 1448 else win);
                     win2 = (if win1 > tc_tx_buf_size c then tc_tx_buf_size c else win1)
                 in case window_to_rate win2 rtt of
                      None \<Rightarrow> None
                    | Some r \<Rightarrow>
                        Some (c\<lparr>tc_cc_last_rtt := rtt, tc_cc_rate := r, tc_dctcp_wnd := cc\<lparr>dw_window := win2\<rparr>,
                                tc_cc_rexmits := 0\<rparr>,
                              stats\<lparr>sn_ecnb := ecnb\<rparr>))"

definition dctcp_rate_cc ::
  "u32 \<Rightarrow> tcp_connection \<Rightarrow> bpf_cc_snapshot \<Rightarrow> tcp_connection option" where
  "dctcp_rate_cc cur_ts c stats =
    (let cc = tc_dctcp_rate c;
         rtt = (if sn_rtt stats = 0 then TCP_RTT_INIT else sn_rtt stats);
         ecnb = dr_unproc_ecnb cc + sn_ecnb stats;
         acks = dr_unproc_acks cc + ucast (sn_acks stats);
         ackb = dr_unproc_ackb cc + sn_ackb stats;
         drops = dr_unproc_drops cc + ucast (sn_drops stats)
     in if ackb < CC_DCTCP_MINBYTES
        then Some (c\<lparr>tc_cc_last_rtt := rtt,
                     tc_dctcp_rate := cc\<lparr>dr_unproc_ecnb := ecnb, dr_unproc_acks := acks,
                       dr_unproc_ackb := ackb, dr_unproc_drops := drops\<rparr>\<rparr>)
        else if dr_last_ts cc \<noteq> 0 \<and> cur_ts - dr_last_ts cc = 0 then None
        else let act0 = (if dr_last_ts cc \<noteq> 0 then ackb * 8 * 1000 div (cur_ts - dr_last_ts cc) else 0);
                 avg = (7 * dr_act_rate cc + act0) div 8;
                 act = (if act0 \<ge> avg then act0 else avg);
                 lim = (ucast act * 15) div (10 :: u64);
                 r0 = (if ucast (tc_cc_rate c) > lim then ucast lim else tc_cc_rate c);
                 quiet = (drops = 0 \<and> ecnb = 0 \<and> tc_cc_rexmits c = 0);
                 ss = (dr_slowstart cc \<and> quiet);
                 r1 = (if ss then (if r0 * 2 \<ge> r0 then r0 * 2 else UINT32_MAX) else r0);
                 cut = (\<not> ss \<and> (drops > 0 \<or> tc_cc_rexmits c > 0));
                 upd = (\<not> ss \<and> \<not> cut \<and> ackb > 0);
                 ecnb' = (if upd \<and> \<not> ecnb \<le> ackb then ackb else ecnb);
                 er = (if upd then dctcp_ewma (dr_ecn_rate cc) ecnb' ackb else dr_ecn_rate cc);
                 r2 = (if ss then r1 else if cut then r1 div 2
                       else if ecnb' > 0 then dctcp_cut r1 er else r1 + CC_DCTCP_STEP);
                 r3 = (if r2 < CC_DCTCP_MIN then CC_DCTCP_MIN else r2);
                 again = (r3 = CC_DCTCP_MIN \<and> drops = 0 \<and> ecnb' = 0 \<and> tc_cc_rexmits c = 0)
             in Some (c\<lparr>tc_cc_last_rtt := rtt, tc_cc_rate := r3, tc_cc_rexmits := 0,
                        tc_dctcp_rate := \<lparr>dr_unproc_acks = 0, dr_unproc_ackb = 0, dr_unproc_ecnb = 0,
                          dr_unproc_drops = 0, dr_last_ts = cur_ts, dr_ecn_rate = er, dr_act_rate = avg,
                          dr_slowstart = (ss \<or> again)\<rparr>\<rparr>))"

text \<open>
  TIMELY.  The signed quantities are integers; a 64-bit product that would
  overflow is \<open>None\<close>.
\<close>

definition timely_act_rate :: "u32 \<Rightarrow> cc_timely \<Rightarrow> u32 \<Rightarrow> u32 option" where
  "timely_act_rate cur_ts cc ackb =
    (if ti_last_ts cc = 0 then Some 0
     else if cur_ts - ti_last_ts cc = 0 then None
     else let v = (ucast (ackb * 8) * 1000) div (ucast (cur_ts - ti_last_ts cc) :: u64)
          in if v > UINT32_MAX64 then None else Some (ucast v))"

definition timely_gradient :: "u32 \<Rightarrow> cc_timely \<Rightarrow> u32 \<times> int" where
  "timely_gradient new_rtt cc =
    (if ti_rtt_prev cc = 0 then (ti_rtt_diff cc, 0)
     else let factor = (42949672 :: u64);
              x = sint ((2147483647 - factor) * scast (ti_rtt_diff cc)
                        + factor * scast (new_rtt - ti_rtt_prev cc));
              d = word_of_int (x sdiv 2147483647) :: u32
          in (d, (sint d * 32767) sdiv 11))"

definition timely_new_rate :: "u32 \<Rightarrow> int \<Rightarrow> cc_timely \<Rightarrow> u32 \<Rightarrow> (u32 \<times> u32) option" where
  "timely_new_rate new_rtt ng cc r =
    (if ti_slowstart cc
     then Some (if push_bit 1 r > 25000000 then 25000000 else push_bit 1 r, ti_hai_cnt cc)
     else if new_rtt < 30 then Some (r + CC_TIMELY_STEP, 0)
     else if new_rtt > 150
     then let d = ucast ((UINT32_MAX64 * 150) div ucast new_rtt) :: u32;
              b = UINT32_MAX - d;
              a = ucast ((3435973836 * ucast b) div UINT32_MAX64) :: u32
          in Some (ucast ((ucast r * ucast (UINT32_MAX - a)) div UINT32_MAX64), 0)
     else if ng \<le> 0
     then if ti_hai_cnt cc + 1 \<ge> 5 then Some (r + CC_TIMELY_STEP * 5, ti_hai_cnt cc)
          else Some (r + CC_TIMELY_STEP, ti_hai_cnt cc + 1)
     else let a = 1717986918 * ng;
              b = a sdiv 32767;
              d = (if b \<le> 2147483647 then 2147483647 - b else 0);
              f = (uint r * d) sdiv 2147483647
          in if a \<ge> 2 ^ 63 then None else Some (word_of_int f, 0))"

definition timely_cc ::
  "u32 \<Rightarrow> tcp_connection \<Rightarrow> bpf_cc_snapshot \<Rightarrow> tcp_connection option" where
  "timely_cc cur_ts c stats =
    (let cc = tc_timely c; new_rtt = sn_rtt stats
     in case timely_act_rate cur_ts cc (sn_ackb stats) of
          None \<Rightarrow> None
        | Some act0 \<Rightarrow>
          let avg = (7 * ti_act_rate cc + act0) div 8;
              act = (if act0 \<ge> avg then act0 else avg);
              cc1 = cc\<lparr>ti_act_rate := avg\<rparr>
          in if new_rtt = 0 then Some (c\<lparr>tc_timely := cc1\<rparr>)
             else let ss0 = (ti_slowstart cc \<and> \<not> new_rtt > 90);
                      ss = (ss0 \<or> (tc_cc_rate c \<le> push_bit 2 CC_TIMELY_INIT_RATE \<and> new_rtt \<le> 90));
                      lim = (ucast act * 15) div (10 :: u64);
                      orig = (if \<not> ss \<and> ucast (tc_cc_rate c) > lim then ucast lim else tc_cc_rate c);
                      (d, ng) = timely_gradient new_rtt cc1;
                      cc2 = cc1\<lparr>ti_slowstart := ss, ti_rtt_diff := d, ti_rtt_prev := new_rtt\<rparr>
                  in case timely_new_rate new_rtt ng cc2 orig of
                       None \<Rightarrow> None
                     | Some (r, hai) \<Rightarrow>
                         let r1 = (if r < orig div 2 then orig div 2 else r);
                             r2 = (if r1 < CC_TIMELY_INIT_RATE then CC_TIMELY_INIT_RATE else r1)
                         in Some (c\<lparr>tc_cc_rate := r2, tc_cc_last_rtt := sn_rtt stats, tc_cc_rexmits := 0,
                                    tc_timely := cc2\<lparr>ti_hai_cnt := hai, ti_last_ts := cur_ts\<rparr>\<rparr>))"

section \<open>The polling body of the other configuration\<close>

definition snapshot_cc :: "cc_map \<Rightarrow> u32 \<Rightarrow> bpf_cc_snapshot" where
  "snapshot_cc m idx =
    (let e = m idx
     in \<lparr>sn_drops = cc_cnt_tx_drops e, sn_acks = cc_cnt_rx_acks e, sn_ackb = cc_cnt_rx_ack_bytes e,
         sn_ecnb = cc_cnt_rx_ecn_bytes e, sn_txp = (cc_txp e \<noteq> 0), sn_rtt = cc_rtt_est e\<rparr>)"

definition handle_retransmission ::
  "(u64 \<Rightarrow> u32) \<Rightarrow> bool \<Rightarrow> u64 \<Rightarrow> tcp_connection \<Rightarrow> bpf_cc_snapshot \<Rightarrow> tcp_connection \<times> bool" where
  "handle_retransmission cycles_to_us issued curr_tsc c stats =
    (let cur_ts = cycles_to_us curr_tsc;
         rtt = (if sn_rtt stats \<noteq> 0 then sn_rtt stats else TCP_RTT_INIT)
     in if sn_txp stats \<and> sn_ackb stats = 0
        then let c' = c\<lparr>tc_cnt_tx_pending := tc_cnt_tx_pending c + 1\<rparr>
             in if tc_cnt_tx_pending c = 0 then (c'\<lparr>tc_ts_tx_pending := cur_ts\<rparr>, False)
                else if tc_cnt_tx_pending c' \<ge> REXMIT_INTS \<and>
                        cur_ts - tc_ts_tx_pending c' \<ge> c_max (REXMIT_INTS * rtt) TCP_RTO_MIN
                then if issued
                     then (c'\<lparr>tc_cnt_tx_pending := 0, tc_cc_rexmits := tc_cc_rexmits c' + 1\<rparr>, True)
                     else (c', False)
                else (c', False)
        else (c\<lparr>tc_cnt_tx_pending := 0\<rparr>, False))"

definition cc_deltas :: "tcp_connection \<Rightarrow> bpf_cc_snapshot \<Rightarrow> tcp_connection \<times> bpf_cc_snapshot" where
  "cc_deltas c s =
    (c\<lparr>tc_cc_last_drops := sn_drops s, tc_cc_last_acks := sn_acks s, tc_cc_last_ackb := sn_ackb s,
       tc_cc_last_ecnb := sn_ecnb s\<rparr>,
     s\<lparr>sn_drops := sn_drops s - tc_cc_last_drops c, sn_acks := sn_acks s - tc_cc_last_acks c,
       sn_ackb := sn_ackb s - tc_cc_last_ackb c, sn_ecnb := sn_ecnb s - tc_cc_last_ecnb c\<rparr>)"

definition run_algorithm ::
  "(u64 \<Rightarrow> u32) \<Rightarrow> u64 \<Rightarrow> tcp_connection \<Rightarrow> bpf_cc_snapshot
    \<Rightarrow> (tcp_connection \<times> bpf_cc_snapshot) option" where
  "run_algorithm cycles_to_us curr_tsc c stats =
    (case tc_algorithm c of
       CC_TIMELY \<Rightarrow> map_option (\<lambda>c'. (c', stats)) (timely_cc (cycles_to_us curr_tsc) c stats)
     | CC_DCTCP_WND \<Rightarrow> dctcp_wnd_cc c stats
     | CC_DCTCP_RATE \<Rightarrow> map_option (\<lambda>c'. (c', stats)) (dctcp_rate_cc (cycles_to_us curr_tsc) c stats)
     | CC_NONE \<Rightarrow> Some (c, stats))"

definition legacy_cc_interval ::
  "(u64 \<Rightarrow> u32) \<Rightarrow> bool \<Rightarrow> u64 \<Rightarrow> cc_map \<Rightarrow> tcp_connection
    \<Rightarrow> (cc_map \<times> tcp_connection \<times> bool) option" where
  "legacy_cc_interval cycles_to_us issued curr_tsc m c =
    (let (c1, stats) = cc_deltas c (snapshot_cc m (tc_cc_idx c))
     in case run_algorithm cycles_to_us curr_tsc c1 stats of
          None \<Rightarrow> None
        | Some (c2, stats') \<Rightarrow>
           (case (if tc_algorithm c = CC_NONE then Some m
                  else set_cc_rate (tc_cc_idx c2) (tc_cc_rate c2) m) of
              None \<Rightarrow> None
            | Some m' \<Rightarrow>
                let (c3, rexmit) = handle_retransmission cycles_to_us issued curr_tsc c2 stats'
                in Some (m', c3\<lparr>tc_cc_last_tsc := curr_tsc\<rparr>, rexmit)))"

text \<open>Both configurations run the interval when two round trips have passed.\<close>

definition cc_due :: "(u64 \<Rightarrow> u32) \<Rightarrow> u64 \<Rightarrow> tcp_connection \<Rightarrow> bool" where
  "cc_due cycles_to_us curr_tsc c =
    (\<not> ucast (cycles_to_us (curr_tsc - tc_cc_last_tsc c)) < ucast (tc_cc_last_rtt c) * CC_INTERVAL_RTT)"

section \<open>Bounds of the arithmetic\<close>

lemma unat_ucast64: "unat (ucast (w :: u32) :: u64) = unat w"
  using unat_lt32 [of w] by (simp add: unsigned_ucast_eq take_bit_nat_eq_self)

lemma unat_scale64:
  fixes w :: u32
  assumes "k < 2 ^ 32"
  shows "unat (of_nat k * ucast w :: u64) = k * unat w"
proof -
  have "k * unat w < 2 ^ 32 * 2 ^ 32"
    using unat_lt32 [of w] assms by (intro mult_strict_mono') auto
  moreover have "unat (of_nat k :: u64) = k" using assms by (simp add: unat_of_nat)
  ultimately show ?thesis by (simp add: unat_word_ariths unat_ucast64)
qed

lemma window_time:
  fixes w :: u32
  shows "unat (((ucast w * 8 * 1000) div 25) div (1000 :: u64)) = unat w * 8 div 25"
proof -
  have e: "(ucast w * 8 * 1000 :: u64) = of_nat 8000 * ucast w" by simp
  have "unat (ucast w * 8 * 1000 :: u64) = 8000 * unat w" unfolding e by (rule unat_scale64) simp
  then show ?thesis by (simp add: unat_div div_mult2_eq [symmetric] del: mult_numeral_left_semiring_numeral)
qed

lemma window_bits:
  fixes w :: u32
  shows "unat (ucast w * 8 * 1000000 :: u64) = 8000000 * unat w"
proof -
  have e: "(ucast w * 8 * 1000000 :: u64) = of_nat 8000000 * ucast w" by simp
  show ?thesis unfolding e by (rule unat_scale64) simp
qed

lemma send_time_rate:
  fixes n t :: nat
  assumes "1448 \<le> n" and "n * 8 div 25 \<le> t"
  shows "8000000 * n div t \<le> 25052000"
proof -
  have "8 * n \<le> 25 * t + 24" and "463 \<le> t" using assms by linarith+
  then have "8000000 * n \<le> 25052000 * t" by linarith
  then have "8000000 * n div t \<le> 25052000 * t div t" by (rule div_le_mono)
  then show ?thesis using \<open>463 \<le> t\<close> by simp
qed

lemma window_rate_bound:
  fixes w rtt :: u32
  assumes "1448 \<le> w"
  defines "time0 \<equiv> ((ucast w * 8 * 1000) div 25) div (1000 :: u64)"
  defines "time \<equiv> if time0 < ucast (rtt * 1000) then ucast (rtt * 1000) else time0"
  shows "time \<noteq> 0" and "unat ((ucast w * 8 * 1000000) div time) \<le> 25052000"
proof -
  have w: "1448 \<le> unat w" using assms(1) by (simp add: word_le_nat_alt)
  have t0: "unat time0 = unat w * 8 div 25" unfolding time0_def by (rule window_time)
  have t: "unat time0 \<le> unat time" unfolding time_def by (simp add: word_less_nat_alt)
  with t0 w have "0 < unat time" by linarith
  then show "time \<noteq> 0" by auto
  show "unat ((ucast w * 8 * 1000000) div time) \<le> 25052000"
    unfolding unat_div window_bits using send_time_rate [OF w] t t0 by simp
qed

lemma kbps_to_Bps_small:
  assumes "unat r \<le> 25052000"
  shows "\<exists>v. kbps_to_Bps r = Some v \<and> v \<le> RATE_25G"
proof -
  have e: "(ucast r * 1000 :: u64) = of_nat 1000 * ucast r" by simp
  have "unat ((ucast r * 1000) div 8 :: u64) = 1000 * unat r div 8"
    unfolding unat_div e by (subst unat_scale64) simp_all
  with assms show ?thesis by (auto simp: kbps_to_Bps_def Let_def word_less_nat_alt word_le_nat_alt)
qed

lemma clamp_window_bounds:
  assumes "1448 \<le> b"
  shows "1448 \<le> clamp_window b w" and "clamp_window b w \<le> b"
  using assms by (auto simp: clamp_window_def Let_def)

section \<open>The window stays within the send buffer\<close>

text \<open>What a window-controlled connection keeps between two intervals.\<close>

definition wnd_ok :: "tcp_connection \<Rightarrow> bool" where
  "wnd_ok c = (1448 \<le> tc_tx_buf_size c \<and> 1448 \<le> dw_window (tc_dctcp_wnd c)
     \<and> dw_window (tc_dctcp_wnd c) \<le> tc_tx_buf_size c)"

lemma slow_start_grows:
  "win \<le> snd (mtp_slow_start c win)"
  by (auto simp: mtp_slow_start_def)

lemma slow_start_keeps [simp]:
  "tc_tx_buf_size (fst (mtp_slow_start c win)) = tc_tx_buf_size c"
  "tc_cc_idx (fst (mtp_slow_start c win)) = tc_cc_idx c"
  by (auto simp: mtp_slow_start_def)

lemma ecn_update_keeps [simp]:
  "tc_tx_buf_size (mtp_ecn_update c) = tc_tx_buf_size c"
  "tc_cc_idx (mtp_ecn_update c) = tc_cc_idx c"
  by (auto simp: mtp_ecn_update_def Let_def)

lemma avoidance_total:
  assumes "0 < win"
  shows "\<exists>c' win'. mtp_avoidance c win = Some (c', win')
      \<and> tc_tx_buf_size c' = tc_tx_buf_size c \<and> tc_cc_idx c' = tc_cc_idx c"
  using assms by (auto simp: mtp_avoidance_def Let_def)

lemma slows_congc_total:
  assumes "wnd_ok c"
  shows "\<exists>c' out. slows_congc_ep c = Some (c', out) \<and> tc_tx_buf_size c' = tc_tx_buf_size c
      \<and> tc_cc_idx c' = tc_cc_idx c \<and> 1448 \<le> to_win out \<and> to_win out \<le> tc_tx_buf_size c"
proof -
  let ?rtt = "if tc_rtt_est c = 0 then TCP_RTT_INIT else tc_rtt_est c"
  let ?c1 = "(mtp_deltas c)\<lparr>tc_cc_last_rtt := ?rtt\<rparr>"
  let ?w0 = "dw_window (tc_dctcp_wnd c)"
  obtain c2 win1 where s: "mtp_slow_start ?c1 ?w0 = (c2, win1)" by fastforce
  have "?w0 \<le> win1" using slow_start_grows [of ?w0 ?c1] s by simp
  moreover have b: "1448 \<le> tc_tx_buf_size c" "1448 \<le> ?w0" using assms by (simp_all add: wnd_ok_def)
  ultimately have "0 < win1" by (auto simp: word_less_nat_alt word_le_nat_alt)
  then obtain c3 win2 where a: "mtp_avoidance c2 win1 = Some (c3, win2)"
      "tc_tx_buf_size c3 = tc_tx_buf_size c2" "tc_cc_idx c3 = tc_cc_idx c2"
    using avoidance_total by blast
  have k: "tc_tx_buf_size c2 = tc_tx_buf_size c" "tc_cc_idx c2 = tc_cc_idx c"
    using slow_start_keeps [of ?c1 ?w0, unfolded s] by (simp_all add: mtp_deltas_def)
  have d: "tc_dctcp_wnd (mtp_deltas c) = tc_dctcp_wnd c" "tc_rtt_est (mtp_deltas c) = tc_rtt_est c"
    by (simp_all add: mtp_deltas_def)
  have "slows_congc_ep c = Some (c3\<lparr>tc_cc_rexmits := 0\<rparr>,
      \<lparr>to_win = clamp_window (tc_tx_buf_size c3) win2, to_rtt = ?rtt\<rparr>)"
    unfolding slows_congc_ep_def Let_def d s using a(1) b(2) by (simp add: not_less)
  then show ?thesis using a k clamp_window_bounds [OF b(1), of win2] by simp
qed

lemma set_tx_rate_total:
  assumes "1448 \<le> to_win out"
  shows "\<exists>v r. set_tx_rate_ep m c out = Some (mtp_set_rate (tc_cc_idx c) v m,
            c\<lparr>tc_cc_rate := r, tc_dctcp_wnd := (tc_dctcp_wnd c)\<lparr>dw_window := to_win out\<rparr>\<rparr>)
      \<and> v \<le> RATE_25G \<and> window_to_rate (to_win out) (to_rtt out) = Some r"
proof -
  let ?t0 = "((ucast (to_win out) * 8 * 1000) div 25) div (1000 :: u64)"
  let ?time = "if ?t0 < ucast (to_rtt out * 1000) then ucast (to_rtt out * 1000) else ?t0"
  let ?r = "(ucast (to_win out) * 8 * 1000000) div ?time"
  have t: "?time \<noteq> 0" and r: "unat ?r \<le> 25052000" using window_rate_bound [OF assms] by auto
  have nr: "\<not> UINT32_MAX64 < ?r" using r by (simp add: word_less_nat_alt)
  have "unat (ucast ?r :: u32) = unat ?r" using r by (simp add: unsigned_ucast_eq take_bit_nat_eq_self)
  then obtain v where v: "kbps_to_Bps (ucast ?r) = Some v" "v \<le> RATE_25G"
    using kbps_to_Bps_small [of "ucast ?r"] r by auto
  have "window_to_rate (to_win out) (to_rtt out) = Some (ucast ?r)"
    unfolding window_to_rate_def Let_def using t nr by simp
  moreover have "set_tx_rate_ep m c out = Some (mtp_set_rate (tc_cc_idx c) v m,
      c\<lparr>tc_cc_rate := ucast ?r, tc_dctcp_wnd := (tc_dctcp_wnd c)\<lparr>dw_window := to_win out\<rparr>\<rparr>)"
    unfolding set_tx_rate_ep_def Let_def using t nr v by simp
  ultimately show ?thesis using v by blast
qed

lemma ack_timeout_keeps [simp]:
  "tc_tx_buf_size (fst (ack_timeout_ep f t c)) = tc_tx_buf_size c"
  "tc_dctcp_wnd (fst (ack_timeout_ep f t c)) = tc_dctcp_wnd c"
  "tc_cc_idx (fst (ack_timeout_ep f t c)) = tc_cc_idx c"
  by (simp_all add: ack_timeout_ep_def Let_def)

lemma snapshot_keeps [simp]:
  "wnd_ok (fst (mtp_snapshot_cc m c)) = wnd_ok c"
  "tc_cc_idx (fst (mtp_snapshot_cc m c)) = tc_cc_idx c"
  "tc_tx_buf_size (fst (mtp_snapshot_cc m c)) = tc_tx_buf_size c"
  "snd (mtp_snapshot_cc m c) = cc_ev_curr_tsc (m (tc_cc_idx c))"
  by (simp_all add: mtp_snapshot_cc_def wnd_ok_def Let_def)

lemma mtp_set_rate_at:
  "mtp_set_rate i v m i = (m i)\<lparr>cc_rate := v\<rparr>" "j \<noteq> i \<Longrightarrow> mtp_set_rate i v m j = m j"
  by (simp_all add: mtp_set_rate_def)

lemma cc_interval_total:
  assumes "wnd_ok c"
  shows "\<exists>v c' rexmit. mtp_cc_interval cycles_to_us now m c
        = Some (m(tc_cc_idx c := (m (tc_cc_idx c))\<lparr>cc_rate := v\<rparr>), c', rexmit)
      \<and> wnd_ok c' \<and> v \<le> RATE_25G \<and> tc_cc_last_tsc c' = now \<and> tc_cc_idx c' = tc_cc_idx c"
proof -
  let ?c1 = "fst (mtp_snapshot_cc m c)"
  obtain c2 out where s: "slows_congc_ep ?c1 = Some (c2, out)"
      "tc_tx_buf_size c2 = tc_tx_buf_size c" "tc_cc_idx c2 = tc_cc_idx c"
      "1448 \<le> to_win out" "to_win out \<le> tc_tx_buf_size c"
    using slows_congc_total [of ?c1] assms by auto
  obtain v r where t: "set_tx_rate_ep m c2 out = Some (mtp_set_rate (tc_cc_idx c) v m,
        c2\<lparr>tc_cc_rate := r, tc_dctcp_wnd := (tc_dctcp_wnd c2)\<lparr>dw_window := to_win out\<rparr>\<rparr>)"
      "v \<le> RATE_25G"
    using set_tx_rate_total [OF s(4), of m c2] s(3) by auto
  have "1448 \<le> tc_tx_buf_size c" using assms by (simp add: wnd_ok_def)
  then show ?thesis
    using s t by (auto simp: mtp_cc_interval_def case_prod_beta Let_def wnd_ok_def mtp_set_rate_def)
qed

text \<open>C10: one control interval of a window-controlled connection always completes: no
  assertion fails, no division by zero and no out-of-range conversion happens,
  whatever the counters of the data path hold.  The congestion window stays between
  one segment and the send buffer, and the rate published to the data path never
  exceeds 25 Gb/s.
\<close>

theorem cc_interval_safe:
  assumes "wnd_ok c"
  shows "\<exists>v c' rexmit. mtp_cc_interval cycles_to_us now m c
        = Some (m(tc_cc_idx c := (m (tc_cc_idx c))\<lparr>cc_rate := v\<rparr>), c', rexmit)
      \<and> wnd_ok c' \<and> v \<le> RATE_25G"
  using cc_interval_total [OF assms, of cycles_to_us now m] by blast

definition fresh_window :: "u32 \<Rightarrow> tcp_connection" where
  "fresh_window buf = new_connection\<lparr>tc_tx_buf_size := buf, tc_algorithm := CC_DCTCP_WND,
     tc_dctcp_wnd := \<lparr>dw_ecn_rate = 0, dw_window = 2896, dw_slowstart = True\<rparr>\<rparr>"

theorem cc_interval_safe_witness:
  "wnd_ok (fresh_window 65536) \<and>
   (\<exists>v c' rexmit. mtp_cc_interval ucast 7 (\<lambda>_. zero_cc) (fresh_window 65536)
        = Some ((\<lambda>_. zero_cc)(tc_cc_idx (fresh_window 65536) := zero_cc\<lparr>cc_rate := v\<rparr>), c', rexmit)
      \<and> wnd_ok c' \<and> v \<le> RATE_25G)"
proof
  show w: "wnd_ok (fresh_window 65536)" by (simp add: wnd_ok_def fresh_window_def)
  show "\<exists>v c' rexmit. mtp_cc_interval ucast 7 (\<lambda>_. zero_cc) (fresh_window 65536)
        = Some ((\<lambda>_. zero_cc)(tc_cc_idx (fresh_window 65536) := zero_cc\<lparr>cc_rate := v\<rparr>), c', rexmit)
      \<and> wnd_ok c' \<and> v \<le> RATE_25G"
    using cc_interval_safe [OF w, of ucast 7 "\<lambda>_. zero_cc"] .
qed

section \<open>The two configurations agree\<close>

text \<open>
  A connection without the fields that only the event processors use to hold their
  snapshot, and without the acknowledgement counter that only the other
  configuration keeps.
\<close>

definition ctl_view :: "tcp_connection \<Rightarrow> tcp_connection" where
  "ctl_view c = c\<lparr>tc_prev_desired_tx_ts := 0, tc_rate := 0, tc_cnt_tx_drops := 0, tc_cnt_rx_acks := 0,
     tc_cnt_rx_ack_bytes := 0, tc_cnt_rx_ecn_bytes := 0, tc_rtt_est := 0, tc_txp := 0, tc_cc_last_acks := 0\<rparr>"

lemma ctl_view_upd [simp]:
  "ctl_view (c\<lparr>tc_cnt_tx_pending := x1\<rparr>) = (ctl_view c)\<lparr>tc_cnt_tx_pending := x1\<rparr>"
  "ctl_view (c\<lparr>tc_ts_tx_pending := x2\<rparr>) = (ctl_view c)\<lparr>tc_ts_tx_pending := x2\<rparr>"
  "ctl_view (c\<lparr>tc_cc_rexmits := x3\<rparr>) = (ctl_view c)\<lparr>tc_cc_rexmits := x3\<rparr>"
  "ctl_view (c\<lparr>tc_cc_last_tsc := x4\<rparr>) = (ctl_view c)\<lparr>tc_cc_last_tsc := x4\<rparr>"
  by (simp_all add: ctl_view_def)

lemma mtp_phases:
  "(case mtp_slow_start c (dw_window (tc_dctcp_wnd c)) of (c2, w) \<Rightarrow> mtp_avoidance c2 w) =
   map_option (\<lambda>(win, cc, ecnb). (c\<lparr>tc_cnt_rx_ecn_bytes := ecnb, tc_dctcp_wnd := cc\<rparr>, win))
     (dctcp_wnd_phases (tc_cnt_tx_drops c) (tc_cnt_rx_ecn_bytes c) (tc_cnt_rx_ack_bytes c) (tc_cc_rexmits c)
       (tc_dctcp_wnd c))"
  by (cases "tc_dctcp_wnd c"; cases "dw_slowstart (tc_dctcp_wnd c)"; cases "tc_cnt_rx_ack_bytes c = 0")
     (auto simp: mtp_slow_start_def mtp_avoidance_def mtp_ecn_update_def dctcp_wnd_phases_def Let_def word_gt_0)

lemma slows_congc_eq:
  fixes c :: tcp_connection
  defines "d \<equiv> mtp_deltas c" and "rtt \<equiv> if tc_rtt_est c = 0 then TCP_RTT_INIT else tc_rtt_est c"
  shows "slows_congc_ep c =
    (if dw_window (tc_dctcp_wnd c) < 1448 then None
     else map_option (\<lambda>(win, cc, ecnb). (d\<lparr>tc_cc_last_rtt := rtt, tc_cnt_rx_ecn_bytes := ecnb, tc_dctcp_wnd := cc,
              tc_cc_rexmits := 0\<rparr>, \<lparr>to_win = clamp_window (tc_tx_buf_size c) win, to_rtt = rtt\<rparr>))
       (dctcp_wnd_phases (tc_cnt_tx_drops d) (tc_cnt_rx_ecn_bytes d) (tc_cnt_rx_ack_bytes d) (tc_cc_rexmits c)
         (tc_dctcp_wnd c)))"
proof -
  have k: "tc_dctcp_wnd d = tc_dctcp_wnd c" "tc_rtt_est d = tc_rtt_est c" "tc_cc_rexmits d = tc_cc_rexmits c"
      "tc_tx_buf_size d = tc_tx_buf_size c"
    by (simp_all add: d_def mtp_deltas_def)
  note p = mtp_phases [of "d\<lparr>tc_cc_last_rtt := rtt\<rparr>"]
  show ?thesis
    unfolding slows_congc_ep_def d_def [symmetric] Let_def k rtt_def [symmetric]
    using p by (auto simp: k split: prod.splits option.splits)
qed

lemma set_tx_rate_eq:
  "set_tx_rate_ep m c out =
    (case window_to_rate (to_win out) (to_rtt out) of None \<Rightarrow> None
     | Some r \<Rightarrow> map_option (\<lambda>m'. (m', c\<lparr>tc_cc_rate := r, tc_dctcp_wnd := (tc_dctcp_wnd c)\<lparr>dw_window := to_win out\<rparr>\<rparr>))
         (set_cc_rate (tc_cc_idx c) r m))"
  unfolding set_tx_rate_ep_def window_to_rate_def set_cc_rate_def mtp_set_rate_def Let_def
  by (auto split: option.split)

lemma ack_timeout_eq:
  assumes "ctl_view c1 = ctl_view c2" and "tc_rtt_est c1 = sn_rtt s" and "(tc_txp c1 \<noteq> 0) = sn_txp s"
    and "tc_cnt_rx_ack_bytes c1 = sn_ackb s"
  shows "ctl_view (fst (ack_timeout_ep f t c1)) = ctl_view (fst (handle_retransmission f True t c2 s))"
    and "snd (ack_timeout_ep f t c1) = snd (handle_retransmission f True t c2 s)"
proof -
  have v: "tc_cnt_tx_pending c1 = tc_cnt_tx_pending c2" "tc_ts_tx_pending c1 = tc_ts_tx_pending c2"
      "tc_cc_rexmits c1 = tc_cc_rexmits c2"
    using arg_cong [OF assms(1), of tc_cnt_tx_pending] arg_cong [OF assms(1), of tc_ts_tx_pending]
      arg_cong [OF assms(1), of tc_cc_rexmits] by (simp_all add: ctl_view_def)
  show "ctl_view (fst (ack_timeout_ep f t c1)) = ctl_view (fst (handle_retransmission f True t c2 s))"
    "snd (ack_timeout_ep f t c1) = snd (handle_retransmission f True t c2 s)"
    using assms by (simp_all add: ack_timeout_ep_def handle_retransmission_def Let_def v)
qed

lemma interval_views:
  fixes c :: tcp_connection and m :: cc_map and r :: u32
  assumes "slows_congc_ep (fst (mtp_snapshot_cc m c)) = Some (c2, out)"
    and "cc_deltas c (snapshot_cc m (tc_cc_idx c)) = (c1, stats)"
  defines "d2 \<equiv> c2\<lparr>tc_cc_rate := r, tc_dctcp_wnd := (tc_dctcp_wnd c2)\<lparr>dw_window := to_win out\<rparr>\<rparr>"
  shows "ctl_view d2 = ctl_view (c1\<lparr>tc_cc_last_rtt := to_rtt out, tc_cc_rate := r,
      tc_dctcp_wnd := (tc_dctcp_wnd c2)\<lparr>dw_window := to_win out\<rparr>, tc_cc_rexmits := 0\<rparr>)"
    and "tc_rtt_est d2 = sn_rtt stats" and "(tc_txp d2 \<noteq> 0) = sn_txp stats"
    and "tc_cnt_rx_ack_bytes d2 = sn_ackb stats" and "tc_cc_idx c2 = tc_cc_idx c"
proof -
  note v = assms(1) [unfolded slows_congc_eq]
  note defs = d2_def ctl_view_def mtp_deltas_def mtp_snapshot_cc_def cc_deltas_def snapshot_cc_def Let_def
  show "ctl_view d2 = ctl_view (c1\<lparr>tc_cc_last_rtt := to_rtt out, tc_cc_rate := r,
      tc_dctcp_wnd := (tc_dctcp_wnd c2)\<lparr>dw_window := to_win out\<rparr>, tc_cc_rexmits := 0\<rparr>)"
    "tc_rtt_est d2 = sn_rtt stats" "(tc_txp d2 \<noteq> 0) = sn_txp stats" "tc_cnt_rx_ack_bytes d2 = sn_ackb stats"
    "tc_cc_idx c2 = tc_cc_idx c"
    using v assms(2) by (auto simp: defs split: if_splits)
qed

lemma dctcp_wnd_cc_eq:
  fixes c :: tcp_connection and m :: cc_map
  assumes "cc_deltas c (snapshot_cc m (tc_cc_idx c)) = (c1, stats)"
  shows "dctcp_wnd_cc c1 stats =
    (case slows_congc_ep (fst (mtp_snapshot_cc m c)) of None \<Rightarrow> None
     | Some (c2, out) \<Rightarrow> map_option (\<lambda>r. (c1\<lparr>tc_cc_last_rtt := to_rtt out, tc_cc_rate := r,
           tc_dctcp_wnd := (tc_dctcp_wnd c2)\<lparr>dw_window := to_win out\<rparr>, tc_cc_rexmits := 0\<rparr>,
           stats\<lparr>sn_ecnb := tc_cnt_rx_ecn_bytes c2\<rparr>))
         (window_to_rate (to_win out) (to_rtt out)))"
proof -
  have s: "sn_rtt stats = tc_rtt_est (fst (mtp_snapshot_cc m c))"
      "tc_dctcp_wnd (fst (mtp_snapshot_cc m c)) = tc_dctcp_wnd c1"
      "tc_cc_rexmits (fst (mtp_snapshot_cc m c)) = tc_cc_rexmits c1"
      "tc_tx_buf_size c1 = tc_tx_buf_size c"
      "tc_cnt_tx_drops (mtp_deltas (fst (mtp_snapshot_cc m c))) = sn_drops stats"
      "tc_cnt_rx_ecn_bytes (mtp_deltas (fst (mtp_snapshot_cc m c))) = sn_ecnb stats"
      "tc_cnt_rx_ack_bytes (mtp_deltas (fst (mtp_snapshot_cc m c))) = sn_ackb stats"
    using assms by (auto simp: mtp_deltas_def mtp_snapshot_cc_def cc_deltas_def snapshot_cc_def Let_def)
  show ?thesis
    unfolding slows_congc_eq dctcp_wnd_cc_def s snapshot_keeps clamp_window_def Let_def
    by (auto split: option.split)
qed



end
