(* ===== verification/Cc_System.thy ===== *)
theory Cc_System
  imports Tcp_System Tcp_Cc
begin

text \<open>
  The data path and the congestion control loop of the control plane together: runs
  of the TCP programs interleaved with control intervals of a connection, both on
  the congestion-control entries of the shared map.
\<close>

section \<open>Definitions\<close>

text \<open>The clock field of the timer event in every entry.\<close>

definition ev_clocks :: "tcp_state \<Rightarrow> u32 \<Rightarrow> u64" where
  "ev_clocks st i = cc_ev_curr_tsc (cc_map st i)"

text \<open>
  A run from a state and a connection object of the control plane.  The flag says
  whether some control interval asked for a retransmission.
\<close>

inductive ctl_run ::
  "(u64 \<Rightarrow> u32) \<Rightarrow> tcp_state \<times> tcp_connection \<Rightarrow> bool \<Rightarrow> tcp_state \<times> tcp_connection \<Rightarrow> bool"
  for f s where
  ctl_start: "ctl_run f s False s"
| ctl_data: "ctl_run f s b (st, c) \<Longrightarrow> sys_step st bs st' \<Longrightarrow> ctl_run f s b (st', c)"
| ctl_interval: "ctl_run f s b (st, c) \<Longrightarrow> mtp_cc_interval f now (cc_map st) c = Some (m, c', rexmit)
    \<Longrightarrow> ctl_run f s (b \<or> rexmit) (st\<lparr>cc_map := m\<rparr>, c')"

section \<open>The data path never writes the clock\<close>

lemma ev_clocks_simps [simp]:
  "ev_clocks (upd_cpu cpu f st) = ev_clocks st" "ev_clocks (put_conn k c st) = ev_clocks st"
  by (simp_all add: ev_clocks_def fun_eq_iff)

lemma ev_clocks_put_cc:
  "cc_ev_curr_tsc cc = cc_ev_curr_tsc (cc_map st i) \<Longrightarrow> ev_clocks (put_cc i cc st) = ev_clocks st"
  by (auto simp: ev_clocks_def fun_eq_iff)

lemma desired_clock [simp]: "cc_ev_curr_tsc (snd (cc_get_desired_tx_ts cc r n)) = cc_ev_curr_tsc cc"
  by (simp add: cc_get_desired_tx_ts_def Let_def)

lemma cut_rate_clock [simp]: "cc_ev_curr_tsc (cut_rate cc) = cc_ev_curr_tsc cc"
  by (simp add: cut_rate_def Let_def)

lemma update_rtt_clock [simp]: "cc_ev_curr_tsc (update_rtt r cc) = cc_ev_curr_tsc cc"
  by (simp add: update_rtt_def)

lemma send_ep_clock:
  "send_ep ev c cc hdrs p m = Inr (c', cc', p', m') \<Longrightarrow> cc_ev_curr_tsc cc' = cc_ev_curr_tsc cc"
  by (auto simp: send_ep_def Let_def split: sum.splits prod.splits)

lemma timeout_clock:
  "ack_timeout_xdp_ep c cc p m = Inr (act, c', cc', m') \<Longrightarrow> cc_ev_curr_tsc cc' = cc_ev_curr_tsc cc"
  by (auto simp: ack_timeout_xdp_ep_def Let_def split: if_splits sum.splits)

lemma fast_retr_clock: "cc_ev_curr_tsc (ep_cc (fast_retr_rec_ep s)) = cc_ev_curr_tsc (ep_cc s)"
  by (simp add: fast_retr_rec_ep_def Let_def)

lemma ack_net_clock:
  "ack_net_ep k p s = Inr s' \<Longrightarrow> cc_ev_curr_tsc (ep_cc s') = cc_ev_curr_tsc (ep_cc s)"
  by (auto simp: ack_net_ep_def mtp_tx_data_flush_def Let_def split: if_splits sum.splits)

lemma send_ack_clock: "send_ack s = Inr s' \<Longrightarrow> ep_cc s' = ep_cc s"
  by (auto simp: send_ack_def Let_def split: if_splits sum.splits)

lemma data_chain_clock:
  assumes "data_chain s = Inr s'"
  shows "ep_cc s' = ep_cc s"
proof -
  have "ep_cc (verify_trim_data_ep s) = ep_cc s" "ep_cc (detect_ooo_data_ep s) = ep_cc s"
    "ep_cc (flush_interval s) = ep_cc s" "ep_cc (data_net_ep s) = ep_cc s" for s
    by (simp_all add: verify_trim_data_ep_def detect_ooo_data_ep_def flush_interval_def data_net_ep_def
      mtp_add_data_seg_wrapper_def Let_def       split: option.split prod.split)
  note k = this
  have "ep_cc (flush_ooo_data_ep s) = ep_cc s" for s by (simp add: flush_ooo_data_ep_def Let_def k)
  then show ?thesis using send_ack_clock assms k by (auto simp: data_chain_def)
qed

lemma rx_dispatch_clock:
  assumes "rx_dispatch k1 k2 p s = Inr (act, s')"
  shows "cc_ev_curr_tsc (ep_cc s') = cc_ev_curr_tsc (ep_cc s)"
proof -
  let ?s = "s\<lparr>ep_ev := (ep_ev s)\<lparr>ev_timestamp := rx_now k1 (ep_cpu s)\<rparr>\<rparr>"
  consider "ack_chain k2 p ?s = Inr s'" | "data_chain ?s = Inr s'" | "s' = ?s"
    using assms by (auto simp: rx_dispatch_def Let_def split: if_splits sum.splits)
  then show ?thesis
  proof cases
    case 1
    then show ?thesis using ack_net_clock [of k2 p _ s'] by (simp add: ack_chain_def fast_retr_clock)
  next
    case 2
    then show ?thesis using data_chain_clock [OF 2] by simp
  qed simp
qed

lemma cc_lookup_some: "cc_lookup m i = Some cc \<Longrightarrow> cc = m i"
  by (auto simp: cc_lookup_def split: if_splits)

lemma tcp_rx_process_clock:
  assumes "tcp_rx_process env ev c p m st = Inr (act, c', m', st')"
  shows "ev_clocks st' = ev_clocks st"
proof (cases "cc_lookup (cc_map st) (cc_idx c)")
  case None
  then show ?thesis using assms by (simp add: tcp_rx_process_def)
next
  case (Some cc)
  let ?s = "\<lparr> ep_ev = ev, ep_c = c, ep_out = e_stack_out env, ep_meta = m, ep_cc = cc, ep_cpu = cpus st (e_cpu env) \<rparr>"
  obtain s where d: "rx_dispatch (e_clock env 1) (e_clock env 2) p ?s = Inr (act, s)"
      and st: "st' = put_cc (cc_idx c) (ep_cc s) (upd_cpu (e_cpu env) (\<lambda>_. ep_cpu s) st)"
    using assms Some by (auto simp: tcp_rx_process_def split: sum.splits)
  have "cc_ev_curr_tsc (ep_cc s) = cc_ev_curr_tsc (cc_map st (cc_idx c))"
    using rx_dispatch_clock [OF d] cc_lookup_some [OF Some] by simp
  then show ?thesis unfolding st by (subst ev_clocks_put_cc) simp_all
qed

lemma redirect_clock [simp]: "ev_clocks (snd (redirect_xsk env key st)) = ev_clocks st"
  by (simp add: redirect_xsk_def)

lemma enqueue_prev_clock [simp]: "ev_clocks (snd (enqueue_prev_ack cpu t st)) = ev_clocks st"
  by (auto simp: enqueue_prev_ack_def fill_ack_def Let_def split: option.split)

lemma dequeue_clock [simp]: "ev_clocks (snd (dequeue_ack cpu st)) = ev_clocks st"
  by (auto simp: dequeue_ack_def Let_def)

lemma flush_prev_clock [simp]: "ev_clocks (flush_prev_conn env i st) = ev_clocks st"
  by (simp add: flush_prev_conn_def Let_def)

lemma tx_release_clock [simp]: "ev_clocks (snd (tx_release env c cc d r n st)) = ev_clocks st"
  by (simp add: tx_release_def Let_def case_prod_beta)

lemma tx_event_clock:
  assumes "tx_event env iph tcph ev c cc r n p m st = Inr (act, c', p', m', st')"
    and "cc_ev_curr_tsc cc = cc_ev_curr_tsc (cc_map st (cc_idx c))"
  shows "ev_clocks st' = ev_clocks st"
proof -
  have i: "cc_idx c' = cc_idx c"
    using tx_event_frame [OF assms(1)] conn_id_fields(1) [of c' c] by (simp add: conn_frame_def)
  define d where "d = fst (cc_get_desired_tx_ts cc r n)"
  define cc1 where "cc1 = snd (cc_get_desired_tx_ts cc r n)"
  have c1: "cc_ev_curr_tsc cc1 = cc_ev_curr_tsc (cc_map st (cc_idx c))" using assms(2) by (simp add: cc1_def)
  note t = assms(1) [unfolded tx_event_def case_prod_beta Let_def, folded d_def cc1_def]
  obtain cc' where "cc_ev_curr_tsc cc' = cc_ev_curr_tsc cc1"
      "ev_clocks st' = ev_clocks (put_cc (cc_idx c') cc' st)"
  proof (cases "at_type ev = APP_EVENT")
    case True
    then show thesis using t that by (auto split: sum.splits dest!: send_ep_clock)
  next
    case False
    show thesis
    proof (cases "at_type ev = TIMER_EVENT")
      case True
      then show thesis using t that by (auto split: sum.splits dest!: timeout_clock)
    next
      case other: False
      then show thesis using t that False by auto
    qed
  qed
  then show ?thesis using ev_clocks_put_cc [of cc' st "cc_idx c"] c1 i by simp
qed

lemma tcp_tx_process_clock:
  assumes "tcp_tx_process env iph tcph ev c p m st = Inr (act, c', p', m', st')"
  shows "ev_clocks st' = ev_clocks st"
proof -
  define b where "b = (if tx_rx_bump (meta_tx m) \<noteq> 0 then c\<lparr>rx_avail := rx_avail c + tx_rx_bump (meta_tx m)\<rparr> else c)"
  have i: "cc_idx b = cc_idx c" by (simp add: b_def)
  have "st' = st \<or> (\<exists>cc r n. cc_lookup (cc_map st) (cc_idx c) = Some cc
      \<and> tx_event env iph tcph ev b cc r n p m st = Inr (act, c', p', m', st'))"
    using assms unfolding tcp_tx_process_def Let_def b_def [symmetric] by (auto split: if_splits option.splits)
  then show ?thesis using tx_event_clock i cc_lookup_some by fastforce
qed

lemma sock_fastpath_clock:
  assumes "sock_fastpath env iph tcph g = Inr (act, g')"
  shows "ev_clocks (pg_st g') = ev_clocks (pg_st g)"
proof -
  let ?k = "sock_key iph tcph (pg_pkt g)" and ?st = "pg_st g"
  show ?thesis
  proof (cases "conn_map ?st ?k")
    case None
    then show ?thesis using assms by (simp add: sock_fastpath_def Let_def)
  next
    case first: (Some c0)
    let ?st1 = "flush_prev_conn env (cc_idx c0) ?st"
    show ?thesis
    proof (cases "conn_map ?st1 ?k")
      case None
      then show ?thesis using assms first by (auto simp: sock_fastpath_def Let_def)
    next
      case (Some c)
      let ?ev = "parse_pkt_to_event (e_stack_net env) tcph iph (tcph + TCP_HLEN) (pg_pkt g)"
      let ?m = "upd_rx (\<lambda>r. r\<lparr>rx_conn := opaque_connection c\<rparr>) (pg_meta g)"
      obtain ret c' m' st' where rx: "tcp_rx_process env ?ev c (pg_pkt g) ?m ?st1 = Inr (ret, c', m', st')"
        using assms first Some by (auto simp: sock_fastpath_def Let_def split: sum.splits)
      have "ev_clocks st' = ev_clocks ?st" using tcp_rx_process_clock [OF rx] by simp
      then show ?thesis using assms first Some rx
        by (auto simp: sock_fastpath_def Let_def case_prod_beta split: if_splits)
    qed
  qed
qed

lemma xdp_sock_clock:
  assumes "xdp_sock_prog env g = Inr (act, g')"
  shows "ev_clocks (pg_st g') = ev_clocks (pg_st g)"
proof -
  define keep :: "error + xdp_action \<times> 'a prog \<Rightarrow> bool" where
    "keep r = (case r of Inl _ \<Rightarrow> True | Inr (_, h) \<Rightarrow> ev_clocks (pg_st h) = ev_clocks (pg_st g))" for r
  let ?h = "g\<lparr>pg_meta := upd_rx (\<lambda>r. r\<lparr>rx_qid := e_rx_queue_index env\<rparr>) (replicate 32 0xFF)\<rparr>"
  have k: "keep (Inr (a, g))" "keep (Inr (a, ?h))" for a by (simp_all add: keep_def)
  have f: "keep (sock_fastpath env iph tcph ?h)" for iph tcph
    using sock_fastpath_clock [of env iph tcph ?h] by (auto simp: keep_def split: sum.split)
  have s: "keep (Inr (sock_slowpath env ?h))"
    by (simp add: keep_def sock_slowpath_def Let_def case_prod_beta)
  have "keep (xdp_sock_prog env g)"
    unfolding xdp_sock_prog_def Let_def by (simp add: k f s split: option.split prod.split)
  then show ?thesis using assms by (simp add: keep_def)
qed

lemma xdp_gen_clock:
  assumes "xdp_gen_prog env g = (act, g')"
  shows "ev_clocks (pg_st g') = ev_clocks (pg_st g)"
proof -
  let ?cpu = "e_cpu env"
  define st1 where "st1 = upd_cpu ?cpu (\<lambda>u. u\<lparr>rx_cached_ts := 0\<rparr>) (pg_st g)"
  define st2 where "st2 = (if prev_conn (cpus st1 ?cpu) \<noteq> NULL_CONN
     then upd_cpu ?cpu (\<lambda>u. u\<lparr>prev_conn := NULL_CONN\<rparr>) (snd (enqueue_prev_ack ?cpu (e_clock env 0) st1)) else st1)"
  have s: "ev_clocks st2 = ev_clocks (pg_st g)" by (simp add: st2_def st1_def)
  have "pg_st g' = pg_st g \<or> pg_st g' = st2 \<or> pg_st g' = snd (dequeue_ack ?cpu st2)"
    using assms unfolding xdp_gen_prog_def Let_def st1_def [symmetric] st2_def [symmetric]
    by (auto split: if_splits prod.splits option.splits)
  then show ?thesis using s by auto
qed

lemma xdp_egress_clock:
  assumes "xdp_egress_prog env g = Inr (act, g')"
  shows "ev_clocks (pg_st g') = ev_clocks (pg_st g)"
proof -
  have "pg_st g' = pg_st g \<or> (\<exists>ev c ret c' p' m' st'.
      tcp_tx_process env 14 34 ev c (pg_pkt g) (pg_meta g) (pg_st g) = Inr (ret, c', p', m', st')
      \<and> ev_clocks (pg_st g') = ev_clocks st')"
    using assms unfolding xdp_egress_prog_def Let_def case_prod_beta
    by (auto simp: xmit_packet_fib_lookup_def split: if_splits option.splits sum.splits) blast+
  then show ?thesis using tcp_tx_process_clock by auto
qed

lemma sys_step_clock:
  assumes "sys_step st bs st'"
  shows "ev_clocks st' = ev_clocks st"
  using assms by cases (auto dest: xdp_sock_clock xdp_gen_clock xdp_egress_clock)

section \<open>The retransmission timer of the control plane\<close>

text \<open>What holds of the connection object while the clock it reads stands at \<open>t\<close>.\<close>

definition timer_idle :: "(u64 \<Rightarrow> u32) \<Rightarrow> u64 \<Rightarrow> tcp_connection \<Rightarrow> bool" where
  "timer_idle f t c = (tc_cnt_tx_pending c = 0 \<or> tc_ts_tx_pending c = f t)"

lemma rto_positive: "\<not> c_max x TCP_RTO_MIN \<le> (0 :: u32)"
proof
  assume "c_max x TCP_RTO_MIN \<le> (0 :: u32)"
  then have "max x TCP_RTO_MIN = 0" by (simp add: c_max_def max_def split: if_splits)
  then have "TCP_RTO_MIN \<le> (0 :: u32)" by (metis max.cobounded2)
  then show False by simp
qed

lemma ack_timeout_idle:
  assumes "timer_idle f t c"
  shows "\<not> snd (ack_timeout_ep f t c)" "timer_idle f t (fst (ack_timeout_ep f t c))"
  using assms by (auto simp: timer_idle_def ack_timeout_ep_def Let_def rto_positive split: if_splits)

lemma interval_idle:
  assumes "mtp_cc_interval f now m c = Some (m', c', rexmit)"
    and "timer_idle f (cc_ev_curr_tsc (m (tc_cc_idx c))) c"
  shows "\<not> rexmit \<and> timer_idle f (cc_ev_curr_tsc (m (tc_cc_idx c))) c' \<and> tc_cc_idx c' = tc_cc_idx c
      \<and> (\<forall>i. cc_ev_curr_tsc (m' i) = cc_ev_curr_tsc (m i))"
proof -
  let ?t = "cc_ev_curr_tsc (m (tc_cc_idx c))" and ?c1 = "fst (mtp_snapshot_cc m c)"
  obtain c2 out where s: "slows_congc_ep ?c1 = Some (c2, out)"
    using assms(1) by (auto simp: mtp_cc_interval_def case_prod_beta split: option.splits)
  then obtain c3 where r: "set_tx_rate_ep m c2 out = Some (m', c3)"
      and a: "(c', rexmit) = ((fst (ack_timeout_ep f ?t c3))\<lparr>tc_cc_last_tsc := now\<rparr>, snd (ack_timeout_ep f ?t c3))"
    using assms(1) by (auto simp: mtp_cc_interval_def case_prod_beta Let_def split: option.splits)
  have k: "tc_cnt_tx_pending c2 = tc_cnt_tx_pending c" "tc_ts_tx_pending c2 = tc_ts_tx_pending c"
      "tc_cc_idx c2 = tc_cc_idx c"
    using s by (auto simp: slows_congc_eq mtp_deltas_def mtp_snapshot_cc_def Let_def split: if_splits)
  have "timer_idle f ?t c3" "tc_cc_idx c3 = tc_cc_idx c" "\<forall>i. cc_ev_curr_tsc (m' i) = cc_ev_curr_tsc (m i)"
    using r k assms(2) by (auto simp: set_tx_rate_eq set_cc_rate_def timer_idle_def split: option.splits)
  then show ?thesis using ack_timeout_idle [of f ?t c3] a by (simp add: timer_idle_def)
qed

lemma ctl_run_idle:
  assumes "ctl_run f s b s'" and "timer_idle f (ev_clocks (fst s) (tc_cc_idx (snd s))) (snd s)"
  shows "\<not> b \<and> ev_clocks (fst s') = ev_clocks (fst s) \<and> tc_cc_idx (snd s') = tc_cc_idx (snd s)
      \<and> timer_idle f (ev_clocks (fst s) (tc_cc_idx (snd s))) (snd s')"
  using assms
proof induction
  case (ctl_data b st c bs st')
  then show ?case using sys_step_clock by auto
next
  case (ctl_interval b st c now m c' rexmit)
  then have "ev_clocks st = ev_clocks (fst s)" "tc_cc_idx c = tc_cc_idx (snd s)" by auto
  then show ?case
    using ctl_interval interval_idle [OF ctl_interval(2)] by (auto simp: ev_clocks_def fun_eq_iff)
qed simp

text \<open>C38: the retransmission timer of the control plane never fires.  The snapshot
  overwrites the clock of the timer event with a field of the shared entry that no
  program writes, so the time since the first idle interval is always zero: over
  every interleaving of the TCP programs and control intervals of a connection, with
  any data outstanding and any time passing, no interval asks for a retransmission.\<close>

theorem control_timer_never_fires:
  assumes "ctl_run f (st, c) b (st', c')" and "tc_cnt_tx_pending c = 0"
  shows "\<not> b"
  using ctl_run_idle [OF assms(1)] assms(2) by (simp add: timer_idle_def)

theorem control_timer_never_fires_witness:
  "tc_cnt_tx_pending (fresh_window 65536) = 0 \<and>
   (\<exists>st' c'. ctl_run ucast (put_cc 0 (zero_cc\<lparr>cc_txp := 1\<rparr>) init_state, fresh_window 65536) False (st', c')
      \<and> tc_cc_last_tsc c' = 9000000)"
proof
  let ?st = "put_cc 0 (zero_cc\<lparr>cc_txp := 1\<rparr>) init_state" and ?c = "fresh_window 65536"
  show z: "tc_cnt_tx_pending ?c = 0" by (simp add: fresh_window_def new_connection_def)
  have w: "wnd_ok ?c" by (simp add: wnd_ok_def fresh_window_def)
  have s: "ctl_run ucast (?st, ?c) False (?st, ?c)" by (rule ctl_start)
  obtain m c1 r1 where i1: "mtp_cc_interval ucast 2000 (cc_map ?st) ?c = Some (m, c1, r1)" "wnd_ok c1"
    using cc_interval_total [OF w] by blast
  obtain m2 c2 r2 where i2: "mtp_cc_interval ucast 9000000 (cc_map (?st\<lparr>cc_map := m\<rparr>)) c1 = Some (m2, c2, r2)"
      "tc_cc_last_tsc c2 = 9000000"
    using cc_interval_total [OF i1(2)] by blast
  have r: "ctl_run ucast (?st, ?c) (False \<or> r1 \<or> r2) (?st\<lparr>cc_map := m2\<rparr>, c2)"
    using ctl_interval [OF ctl_interval [OF s i1(1)] i2(1)] by simp
  then have "\<not> (False \<or> r1 \<or> r2)" by (rule control_timer_never_fires) (rule z)
  then show "\<exists>st' c'. ctl_run ucast (?st, ?c) False (st', c') \<and> tc_cc_last_tsc c' = 9000000"
    using r i2(2) by auto
qed

end
