(* ===== verification/Ctl_Kernel.thy ===== *)
theory Ctl_Kernel
  imports Tcp_Cc Net_Headers Inet_Checksum
begin

text \<open>
  The state of the TCP control plane (\<open>micro_kernel/tcp.cc\<close>) and the operations that
  its handlers share: allocation of ports (\<open>micro_kernel/control_plane.cc\<close>) and of
  congestion-control indices, registration of a connection in the maps of the data
  path, construction of the control segments of the handshake, messages to the
  application.

  Connection and listener objects live in two heaps indexed by addresses; following
  a pointer to an object that has been deleted is the error \<open>Use_After_Free\<close>.  The
  kernel, the NIC and the clock are the environment record: the result of a map
  update, the free slots of the transmit ring, the rule number printed by
  \<open>ethtool\<close>, the memory behind an allocated packet.
\<close>

section \<open>Objects and state\<close>

datatype ctl_error = Use_After_Free | Out_Of_Bounds | Assert_Failed

abbreviation (input) ECN_ENABLE :: u32 where "ECN_ENABLE \<equiv> 1"
abbreviation (input) PORT_MIN :: u16 where "PORT_MIN \<equiv> 1000"
abbreviation (input) PORT_MAX :: u16 where "PORT_MAX \<equiv> 60000"
abbreviation (input) TCP_MSS :: u16 where "TCP_MSS \<equiv> 1460"
abbreviation (input) HANDSHAKE_US :: u64 where "HANDSHAKE_US \<equiv> 50000"
abbreviation (input) TCP_SYN :: u16 where "TCP_SYN \<equiv> 0x02"
abbreviation (input) TCP_FIN :: u16 where "TCP_FIN \<equiv> 0x01"
abbreviation (input) TCP_RST :: u16 where "TCP_RST \<equiv> 0x04"
abbreviation (input) TCP_ACK :: u16 where "TCP_ACK \<equiv> 0x10"
abbreviation (input) TCP_ECE :: u16 where "TCP_ECE \<equiv> 0x40"
abbreviation (input) TCP_CWR :: u16 where "TCP_CWR \<equiv> 0x80"

record flow_tuple =
  fl_remote_ip :: u32
  fl_remote_port :: u16
  fl_local_ip :: u32
  fl_local_port :: u16

type_synonym listen_tuple = "u32 \<times> u16"

record backlog_slot =
  bs_pkt :: bytes
  bs_len :: u16
  bs_qid :: u32

record tcp_listener =
  tl_tctx :: nat
  tl_opaque :: u64
  tl_max_backlog :: u32
  tl_backlog :: "backlog_slot list"
  tl_port :: u16
  tl_pending :: "nat option"
  tl_c :: nat
  tl_fd :: u32

text \<open>The messages to an application thread; the status is that of the C code.\<close>

datatype app_msg =
    TCP_EVENT_NEWCONN u64 u32 u32 u16
  | TCP_CONN_ACCEPT u64 u32 u32 int bool u32 u32 u32 u32 u16 u32
  | TCP_CONN_OPEN u64 u32 int u32 u16 u32 u32 u32
  | TCP_STATUS_BIND u64 u32 int
  | TCP_STATUS_LISTEN u64 u32 int
  | TCP_STATUS_CLOSE u64 u32 int

record fd_rule_t =
  fr_id :: int
  fr_port :: u16
  fr_source :: bool

record ctl_state =
  k_conns :: "nat \<rightharpoonup> tcp_connection"
  k_lsts :: "nat \<rightharpoonup> tcp_listener"
  k_next :: nat
  k_connections :: "(flow_tuple \<times> nat) list"
  k_listeners :: "(listen_tuple \<times> nat list) list"
  k_thread_listeners :: "nat \<Rightarrow> nat list"
  k_handshake :: "nat list"
  k_avail_cc :: "u32 list"
  k_bpf :: tcp_state
  k_avail_ports :: "u16 list"
  k_port_ok :: "u16 \<Rightarrow> bool"
  k_app_ports :: "nat \<Rightarrow> u16 set"
  k_rule_dst :: "u16 set"
  k_rule_src :: "u16 set"
  k_app_rules :: "nat \<Rightarrow> fd_rule_t list"
  k_next_cc :: u64
  k_sent :: "(u32 \<times> bool \<times> bytes) list"
  k_msgs :: "(nat \<times> app_msg) list"

record ctl_env =
  ke_local_ip :: u32
  ke_rx_buf :: u32
  ke_tx_buf :: u32
  ke_actx :: "nat \<Rightarrow> nat"
  ke_is_tcp :: "nat \<Rightarrow> bool"
  ke_nic_qid :: "nat \<Rightarrow> u32 list"
  ke_xsk_keys :: "nat \<Rightarrow> u32 list"
  ke_map_ok :: bool
  ke_rule_id :: "int option"
  ke_hash :: "flow_tuple \<Rightarrow> u32"
  ke_ring_free :: nat
  ke_buf_ok :: bool
  ke_chan_ok :: "nat \<Rightarrow> bool"
  ke_heap_addr :: u64
  ke_heap_tail :: bytes
  ke_cycles :: u64
  ke_us_to_cycles :: "u64 \<Rightarrow> u64"
  ke_cycles_to_us :: "u64 \<Rightarrow> u32"

text \<open>Sequencing of fallible steps.\<close>

definition andthen :: "'e + 'a \<Rightarrow> ('a \<Rightarrow> 'e + 'b) \<Rightarrow> 'e + 'b" where
  "andthen r f = (case r of Inl e \<Rightarrow> Inl e | Inr x \<Rightarrow> f x)"

definition get_conn :: "nat \<Rightarrow> ctl_state \<Rightarrow> ctl_error + tcp_connection" where
  "get_conn i k = (case k_conns k i of None \<Rightarrow> Inl Use_After_Free | Some c \<Rightarrow> Inr c)"

definition get_listener :: "nat \<Rightarrow> ctl_state \<Rightarrow> ctl_error + tcp_listener" where
  "get_listener i k = (case k_lsts k i of None \<Rightarrow> Inl Use_After_Free | Some l \<Rightarrow> Inr l)"

definition put_kconn :: "nat \<Rightarrow> tcp_connection \<Rightarrow> ctl_state \<Rightarrow> ctl_state" where
  "put_kconn i c k = k\<lparr>k_conns := (k_conns k)(i \<mapsto> c)\<rparr>"

definition put_listener :: "nat \<Rightarrow> tcp_listener \<Rightarrow> ctl_state \<Rightarrow> ctl_state" where
  "put_listener i l k = k\<lparr>k_lsts := (k_lsts k)(i \<mapsto> l)\<rparr>"

definition conn_tuple :: "tcp_connection \<Rightarrow> flow_tuple" where
  "conn_tuple c = \<lparr> fl_remote_ip = tc_remote_ip c, fl_remote_port = tc_remote_port c,
     fl_local_ip = tc_local_ip c, fl_local_port = tc_local_port c \<rparr>"

definition conn_key :: "tcp_connection \<Rightarrow> ebpf_flow_tuple" where
  "conn_key c = \<lparr> ft_local_ip = tc_local_ip c, ft_remote_ip = tc_remote_ip c,
     ft_local_port = tc_local_port c, ft_remote_port = tc_remote_port c \<rparr>"

section \<open>Ports and congestion-control indices\<close>

definition alloc_port_at :: "u16 \<Rightarrow> ctl_state \<Rightarrow> bool \<times> ctl_state" where
  "alloc_port_at port k =
    (if port < PORT_MIN \<or> port > PORT_MAX then (False, k)
     else if \<not> k_port_ok k port then (False, k)
     else (True, k\<lparr>k_avail_ports := removeAll port (k_avail_ports k), k_port_ok := (k_port_ok k)(port := False)\<rparr>))"

definition alloc_port :: "ctl_state \<Rightarrow> ctl_error + u16 option \<times> ctl_state" where
  "alloc_port k =
    (case k_avail_ports k of
       [] \<Rightarrow> Inr (None, k)
     | port # ps \<Rightarrow>
         if \<not> k_port_ok k port then Inl Assert_Failed
         else Inr (Some port, k\<lparr>k_avail_ports := ps, k_port_ok := (k_port_ok k)(port := False)\<rparr>))"

definition free_port :: "u16 \<Rightarrow> ctl_state \<Rightarrow> ctl_state" where
  "free_port port k =
    (if port < PORT_MIN \<or> port > PORT_MAX then k
     else if k_port_ok k port then k
     else k\<lparr>k_port_ok := (k_port_ok k)(port := True), k_avail_ports := k_avail_ports k @ [port]\<rparr>)"

definition record_port :: "ctl_env \<Rightarrow> nat \<Rightarrow> u16 \<Rightarrow> u16 \<Rightarrow> ctl_state \<Rightarrow> ctl_state" where
  "record_port env app lport rport k0 =
    (let k = k0\<lparr>k_app_ports := (k_app_ports k0)(app := insert lport (k_app_ports k0 app))\<rparr>;
         rule = (case ke_rule_id env of None \<Rightarrow> []
                 | Some i \<Rightarrow> [\<lparr> fr_id = i, fr_port = (if rport \<noteq> 0 then rport else lport), fr_source = (rport \<noteq> 0) \<rparr>]);
         add = (\<lambda>k. k\<lparr>k_app_rules := (k_app_rules k)(app := k_app_rules k app @ rule)\<rparr>)
     in if \<not> ke_is_tcp env app then k
        else if rport = 0 \<and> lport \<notin> k_rule_dst k then add (k\<lparr>k_rule_dst := insert lport (k_rule_dst k)\<rparr>)
        else if rport \<notin> k_rule_src k then add (k\<lparr>k_rule_src := insert rport (k_rule_src k)\<rparr>)
        else k)"

definition unrecord_port :: "ctl_env \<Rightarrow> nat \<Rightarrow> u16 \<Rightarrow> ctl_state \<Rightarrow> ctl_state" where
  "unrecord_port env app port k0 =
    (let k = k0\<lparr>k_app_ports := (k_app_ports k0)(app := k_app_ports k0 app - {port})\<rparr>;
         rules = k_app_rules k app
     in if \<not> ke_is_tcp env app then k
        else k\<lparr>k_rule_src := k_rule_src k - set (map fr_port (filter fr_source rules)),
               k_rule_dst := k_rule_dst k - set (map fr_port (filter (\<lambda>r. \<not> fr_source r) rules)),
               k_app_rules := (k_app_rules k)(app := [])\<rparr>)"

definition alloc_cc_idx :: "ctl_state \<Rightarrow> (u32 \<times> ctl_state) option" where
  "alloc_cc_idx k = (case k_avail_cc k of [] \<Rightarrow> None | i # is \<Rightarrow> Some (i, k\<lparr>k_avail_cc := is\<rparr>))"

definition free_cc_idx :: "u32 \<Rightarrow> ctl_state \<Rightarrow> ctl_state" where
  "free_cc_idx i k = k\<lparr>k_avail_cc := k_avail_cc k @ [i]\<rparr>"

section \<open>Registration with the data path\<close>

definition init_cc_entry :: "bpf_cc \<Rightarrow> bpf_cc" where
  "init_cc_entry e = e\<lparr>cc_prev_desired_tx_ts := 0, cc_rate := CC_DCTCP_MIN, cc_cnt_tx_drops := 0,
     cc_cnt_rx_acks := 0, cc_cnt_rx_ack_bytes := 0, cc_cnt_rx_ecn_bytes := 0, cc_rtt_est := 0\<rparr>"

definition qid_table :: "u32 list \<Rightarrow> u32 list \<Rightarrow> u8 list" where
  "qid_table qids keys = fold (\<lambda>(q, x) t. t[unat q := ucast x]) (zip qids keys) (replicate 20 0)"

definition ebpf_entry ::
  "ctl_env \<Rightarrow> tcp_connection \<Rightarrow> bool \<Rightarrow> u32 \<Rightarrow> u32 \<Rightarrow> bpf_tcp_conn" where
  "ebpf_entry env c listen idx r =
    (let seq = (if listen then tc_local_seq c + 1 else tc_local_seq c);
         wnd = c_min (ke_rx_buf env) (push_bit TCP_WND_SCALE 0xffff)
     in \<lparr> opaque_connection = tc_opaque c, qid = tc_qid c, local_mac = tc_local_mac c,
          remote_mac = tc_remote_mac c, local_ip = tc_local_ip c, remote_ip = tc_remote_ip c,
          local_port = tc_local_port c, remote_port = tc_remote_port c,
          rx_buf_size = ke_rx_buf env, tx_buf_size = ke_tx_buf env, rx_remote_avail = wnd,
          rx_next_pos = 0, tx_pending = 0, tx_sent = 0, tx_next_pos = 0, tx_next_ts = 0, cc_idx = idx,
          ecn_enable = ucast (tc_flags c AND ECN_ENABLE), rx_next_seq = tc_remote_seq c, rx_ooo_start = 0,
          rx_ooo_len = 0, rx_dupack_cnt = 0, tx_next_seq = seq, rx_avail = wnd, first_rto = 1,
          RTO = 1000000, SRTT = 0, RTTVAR = 0, last_ack = seq, rate = r, send_una = seq, data_end = 0,
          recv_next = tc_remote_seq c, buf_curr_seq = seq, recv_init_seq = tc_remote_seq c,
          qid2xsk = qid_table (ke_nic_qid env (ke_actx env (tc_tctx c))) (ke_xsk_keys env (tc_tctx c)) \<rparr>)"

text \<open>The congestion control state of a connection at its registration.\<close>

definition start_cc :: "u32 \<Rightarrow> u32 \<Rightarrow> tcp_connection \<Rightarrow> tcp_connection" where
  "start_cc idx r c = c\<lparr>tc_cc_idx := idx, tc_algorithm := CC_DCTCP_WND, tc_cc_rate := r,
     tc_dctcp_rate := tc_dctcp_rate new_connection, tc_timely := tc_timely new_connection,
     tc_dctcp_wnd := \<lparr>dw_ecn_rate = 0, dw_window = 2896, dw_slowstart = True\<rparr>\<rparr>"

text \<open>The result is whether the registration succeeded.\<close>

definition reg_tcp_conn_ebpf ::
  "ctl_env \<Rightarrow> nat \<Rightarrow> tcp_connection \<Rightarrow> bool \<Rightarrow> ctl_state \<Rightarrow> ctl_error + bool \<times> ctl_state" where
  "reg_tcp_conn_ebpf env i c listen k =
    (case alloc_cc_idx k of
       None \<Rightarrow> Inr (False, k)
     | Some (idx, k) \<Rightarrow>
        (case window_to_rate 2896 TCP_RTT_INIT of
           None \<Rightarrow> Inl Assert_Failed
         | Some r \<Rightarrow>
             let k = k\<lparr>k_bpf := put_cc idx (init_cc_entry (cc_map (k_bpf k) idx)) (k_bpf k)\<rparr>
             in if \<not> ke_map_ok env then Inr (False, free_cc_idx idx k)
                else let k = k\<lparr>k_bpf := put_conn (conn_key c) (ebpf_entry env c listen idx r) (k_bpf k)\<rparr>
                     in Inr (True, put_kconn i (start_cc idx r c) k)))"

definition unreg_tcp_conn_ebpf :: "tcp_connection \<Rightarrow> ctl_state \<Rightarrow> ctl_state" where
  "unreg_tcp_conn_ebpf c k =
    (let idx = (case conn_map (k_bpf k) (conn_key c) of None \<Rightarrow> 0 | Some e \<Rightarrow> cc_idx e);
         k = free_cc_idx idx k
     in k\<lparr>k_bpf := (k_bpf k)\<lparr>conn_map := (conn_map (k_bpf k))(conn_key c := None)\<rparr>\<rparr>)"

section \<open>Control segments\<close>

text \<open>The flags and the length of the options in a received segment.\<close>

definition tcph_flags :: "bytes \<Rightarrow> u16" where
  "tcph_flags p = bpf_ntohs (ld16 46 p) AND 0x1ff"

definition tcph_hdrlen :: "bytes \<Rightarrow> u16" where
  "tcph_hdrlen p = drop_bit 12 (bpf_ntohs (ld16 46 p))"

record tcp_opts =
  op_mss :: "nat option"
  op_ts :: "nat option"

text \<open>
  The loop over the options.  The offset is a 16-bit counter in the code; for frames
  shorter than 65536 bytes it does not wrap (theory \<open>Ctl_Opts\<close> has the loop at its width).
  \<open>None\<close> is the result \<open>-1\<close>.
\<close>

function parse_opts_loop :: "bytes \<Rightarrow> nat \<Rightarrow> nat \<Rightarrow> tcp_opts \<Rightarrow> ctl_error + tcp_opts option" where
  "parse_opts_loop p opts_len off opts =
    (if off < opts_len
     then if length p \<le> 54 + off then Inl Out_Of_Bounds
          else let opt_kind = ld8 (54 + off) p
               in if opt_kind = 0 then Inr (Some opts)
                  else if opt_kind = 1 then parse_opts_loop p opts_len (off + 1) opts
                  else if length p \<le> 54 + off + 1 then Inl Out_Of_Bounds
                  else let opt_len = ld8 (54 + off + 1) p
                       in if opt_kind = 2
                          then if opt_len \<noteq> 4 then Inr None
                               else parse_opts_loop p opts_len (off + 4) (opts\<lparr>op_mss := Some (54 + off)\<rparr>)
                          else if opt_kind = 8
                          then if opt_len \<noteq> 10 then Inr None
                               else parse_opts_loop p opts_len (off + 10) (opts\<lparr>op_ts := Some (54 + off)\<rparr>)
                          else Inr None
     else Inr (Some opts))"
  by pat_completeness auto
termination
  by (relation "measure (\<lambda>(p, opts_len, off, opts). opts_len - off)") auto

definition parse_tcp_opts :: "bytes \<Rightarrow> ctl_error + tcp_opts option" where
  "parse_tcp_opts p = parse_opts_loop p (unat (tcph_hdrlen p * 4 - 20)) 0 \<lparr>op_mss = None, op_ts = None\<rparr>"

text \<open>
  \<open>send_tcp_control\<close> hands the length byte of the IP header, not the header length,
  to \<open>ip_fast_csum\<close> and the length of the frame to \<open>tcp_csum\<close>; both read past the
  allocated packet, into \<open>ke_heap_tail\<close>.
\<close>

definition control_segment ::
  "ctl_env \<Rightarrow> tcp_connection \<Rightarrow> u16 \<Rightarrow> bool \<Rightarrow> u32 \<Rightarrow> u16 \<Rightarrow> bytes" where
  "control_segment env c flags ts_opt ts_echo mss_opt =
    (let off_ts = (if mss_opt \<noteq> 0 then 4 else 0);
         optlen = ((off_ts + (if ts_opt then 10 else 0)) + 3) div 4 * 4;
         p = replicate (54 + optlen) 0;
         p = st8 14 0x45 p;
         p = st16 16 (bpf_htons (of_nat (40 + optlen))) p;
         p = st8 22 0xff p;
         p = st8 23 6 p;
         p = st32 26 (bpf_htonl (tc_local_ip c)) p;
         p = st32 30 (bpf_htonl (tc_remote_ip c)) p;
         p = st16 34 (bpf_htons (tc_local_port c)) p;
         p = st16 36 (bpf_htons (tc_remote_port c)) p;
         p = st32 38 (bpf_htonl (tc_local_seq c)) p;
         p = st32 42 (bpf_htonl (tc_remote_seq c)) p;
         p = st16 46 (bpf_htons (push_bit 12 (of_nat (5 + optlen div 4)) OR flags)) p;
         p = st16 48 (bpf_htons 11680) p;
         p = (if mss_opt \<noteq> 0 then st16 56 (bpf_htons mss_opt) (st8 55 4 (st8 54 2 p)) else p);
         p = (if ts_opt then st32 (60 + off_ts) (bpf_htonl ts_echo)
                (st32 (56 + off_ts) 0 (st8 (55 + off_ts) 10 (st8 (54 + off_ts) 8 p))) else p);
         p = st16 24 (ip_fast_csum (ke_heap_addr env + 14) (drop 14 (p @ ke_heap_tail env)) (ucast (ld8 14 p))) p
     in st16 50 (tcp_csum (ld32 26 p) (ld32 30 p) (of_nat (54 + optlen)) 6 (drop 34 (p @ ke_heap_tail env))) p)"

definition reset_segment :: "ctl_env \<Rightarrow> bytes \<Rightarrow> bytes" where
  "reset_segment env orig =
    (let p = take 34 orig @ replicate 20 0;
         p = map (\<lambda>i. ld8 (if i < 6 then i + 6 else if i < 12 then i - 6 else i) p) [0..<length p];
         p = st32 30 (ld32 26 orig) (st32 26 (ld32 30 orig) p);
         p = st16 34 (ld16 36 orig) p;
         p = st16 36 (ld16 34 orig) p;
         p = st16 46 (bpf_htons (push_bit 12 5 OR TCP_RST)) p;
         p = st16 24 (ip_fast_csum (ke_heap_addr env + 14) (drop 14 (p @ ke_heap_tail env)) (ucast (ld8 14 p))) p
     in st16 50 (tcp_csum (ld32 26 p) (ld32 30 p) 54 6 (drop 34 (p @ ke_heap_tail env))) p)"

definition slow_path_send_tcp :: "ctl_env \<Rightarrow> nat \<Rightarrow> bytes \<Rightarrow> bool \<Rightarrow> u32 \<Rightarrow> ctl_state \<Rightarrow> ctl_state" where
  "slow_path_send_tcp env app p timeout q k =
    (let flow = \<lparr> fl_remote_ip = bpf_ntohl (ld32 30 p), fl_remote_port = bpf_ntohs (ld16 36 p),
                  fl_local_ip = bpf_ntohl (ld32 26 p), fl_local_port = bpf_ntohs (ld16 34 p) \<rparr>;
         qids = ke_nic_qid env app;
         q = (if q = POISON_32 then qids ! (unat (ke_hash env flow) mod length qids) else q)
     in if timeout \<and> ke_ring_free env < 512 then k
        else if \<not> ke_buf_ok env \<or> ke_ring_free env < 1 then k
        else k\<lparr>k_sent := k_sent k @ [(q, timeout, p)]\<rparr>)"

definition send_tcp_control ::
  "ctl_env \<Rightarrow> tcp_connection \<Rightarrow> u16 \<Rightarrow> bool \<Rightarrow> u32 \<Rightarrow> u16 \<Rightarrow> ctl_state \<Rightarrow> ctl_state" where
  "send_tcp_control env c flags ts_opt ts_echo mss_opt k =
    slow_path_send_tcp env (ke_actx env (tc_tctx c)) (control_segment env c flags ts_opt ts_echo mss_opt)
      False (tc_qid c) k"

definition send_tcp_reset :: "ctl_env \<Rightarrow> nat \<Rightarrow> bytes \<Rightarrow> ctl_state \<Rightarrow> ctl_state" where
  "send_tcp_reset env app orig k = slow_path_send_tcp env app (reset_segment env orig) False POISON_32 k"

text \<open>The dummy packet that tells the egress program about a timeout.\<close>

definition issue_retransmit :: "ctl_env \<Rightarrow> tcp_connection \<Rightarrow> ctl_state \<Rightarrow> ctl_state" where
  "issue_retransmit env c k =
    (let p = replicate 54 0;
         p = st32 26 (bpf_htonl (tc_local_ip c)) p;
         p = st32 30 (bpf_htonl (tc_remote_ip c)) p;
         p = st16 34 (bpf_htons (tc_local_port c)) p;
         p = st16 36 (bpf_htons (tc_remote_port c)) p
     in slow_path_send_tcp env (ke_actx env (tc_tctx c)) p True (tc_qid c) k)"

section \<open>Messages to the application\<close>

definition notify :: "ctl_env \<Rightarrow> nat \<Rightarrow> app_msg \<Rightarrow> ctl_state \<Rightarrow> ctl_state" where
  "notify env t msg k = (if ke_chan_ok env t then k\<lparr>k_msgs := k_msgs k @ [(t, msg)]\<rparr> else k)"

definition notify_app_tcp_event_accept ::
  "ctl_env \<Rightarrow> nat \<Rightarrow> u64 \<Rightarrow> u32 \<Rightarrow> u32 \<Rightarrow> int \<Rightarrow> u32 \<Rightarrow> u32 \<Rightarrow> u32 \<Rightarrow> u16 \<Rightarrow> u32 \<Rightarrow> bool \<Rightarrow> ctl_state \<Rightarrow> ctl_state" where
  "notify_app_tcp_event_accept env t c fd newfd status rxb txb rip rport q backlog =
    notify env t (if status = 0 then TCP_CONN_ACCEPT c fd newfd status backlog rxb txb (ke_local_ip env) rip rport q
                  else TCP_CONN_ACCEPT c fd newfd status backlog 0 0 0 0 0 0)"

definition notify_app_tcp_event_newconn ::
  "ctl_env \<Rightarrow> nat \<Rightarrow> u64 \<Rightarrow> u32 \<Rightarrow> u32 \<Rightarrow> u16 \<Rightarrow> ctl_state \<Rightarrow> ctl_state" where
  "notify_app_tcp_event_newconn env t l fd rip rport = notify env t (TCP_EVENT_NEWCONN l fd rip rport)"

definition notify_app_tcp_conn_open ::
  "ctl_env \<Rightarrow> nat \<Rightarrow> u64 \<Rightarrow> u32 \<Rightarrow> int \<Rightarrow> tcp_connection \<Rightarrow> ctl_state \<Rightarrow> ctl_state" where
  "notify_app_tcp_conn_open env t c fd status conn =
    notify env t (TCP_CONN_OPEN c fd status
      (if status \<noteq> -1 then tc_local_ip conn else 0) (if status \<noteq> -1 then tc_local_port conn else 0)
      (if status = 1 then tc_rx_buf_size conn else 0) (if status = 1 then tc_tx_buf_size conn else 0)
      (if status = 1 then tc_qid conn else 0))"

definition notify_app_tcp_status_bind :: "ctl_env \<Rightarrow> nat \<Rightarrow> u64 \<Rightarrow> u32 \<Rightarrow> int \<Rightarrow> ctl_state \<Rightarrow> ctl_state" where
  "notify_app_tcp_status_bind env t c fd status = notify env t (TCP_STATUS_BIND c fd status)"

definition notify_app_tcp_status_listen :: "ctl_env \<Rightarrow> nat \<Rightarrow> u64 \<Rightarrow> u32 \<Rightarrow> int \<Rightarrow> ctl_state \<Rightarrow> ctl_state" where
  "notify_app_tcp_status_listen env t l fd status = notify env t (TCP_STATUS_LISTEN l fd status)"

definition notify_app_tcp_status_close :: "ctl_env \<Rightarrow> nat \<Rightarrow> u64 \<Rightarrow> u32 \<Rightarrow> int \<Rightarrow> ctl_state \<Rightarrow> ctl_state" where
  "notify_app_tcp_status_close env t c fd status = notify env t (TCP_STATUS_CLOSE c fd status)"

section \<open>State projections of the shared operations\<close>

lemma andthen_simps [simp]: "andthen (Inr x) f = f x" "andthen (Inl e) f = Inl e"
  by (simp_all add: andthen_def)

lemma get_conn_some [simp]: "k_conns k i = Some c \<Longrightarrow> get_conn i k = Inr c"
  by (simp add: get_conn_def)

lemma get_listener_some [simp]: "k_lsts k i = Some l \<Longrightarrow> get_listener i k = Inr l"
  by (simp add: get_listener_def)

lemma put_kconn_simps [simp]:
  "k_conns (put_kconn i c k) = (k_conns k)(i \<mapsto> c)" "k_lsts (put_kconn i c k) = k_lsts k"
  "k_connections (put_kconn i c k) = k_connections k" "k_handshake (put_kconn i c k) = k_handshake k"
  "k_avail_cc (put_kconn i c k) = k_avail_cc k" "k_bpf (put_kconn i c k) = k_bpf k"
  "k_sent (put_kconn i c k) = k_sent k" "k_listeners (put_kconn i c k) = k_listeners k"
  by (simp_all add: put_kconn_def)

lemma put_listener_simps [simp]:
  "k_conns (put_listener i l k) = k_conns k" "k_lsts (put_listener i l k) = (k_lsts k)(i \<mapsto> l)"
  "k_connections (put_listener i l k) = k_connections k" "k_handshake (put_listener i l k) = k_handshake k"
  "k_avail_cc (put_listener i l k) = k_avail_cc k" "k_bpf (put_listener i l k) = k_bpf k"
  "k_sent (put_listener i l k) = k_sent k"
  by (simp_all add: put_listener_def)

lemma notify_simps [simp]:
  "k_conns (notify env t m k) = k_conns k" "k_lsts (notify env t m k) = k_lsts k"
  "k_connections (notify env t m k) = k_connections k" "k_handshake (notify env t m k) = k_handshake k"
  "k_avail_cc (notify env t m k) = k_avail_cc k" "k_bpf (notify env t m k) = k_bpf k"
  "k_sent (notify env t m k) = k_sent k"
  by (simp_all add: notify_def)

lemmas notify_defs = notify_app_tcp_event_accept_def notify_app_tcp_event_newconn_def notify_app_tcp_conn_open_def
  notify_app_tcp_status_bind_def notify_app_tcp_status_listen_def notify_app_tcp_status_close_def

lemma slow_send_simps [simp]:
  "k_conns (slow_path_send_tcp env app p b q k) = k_conns k" "k_lsts (slow_path_send_tcp env app p b q k) = k_lsts k"
  "k_connections (slow_path_send_tcp env app p b q k) = k_connections k"
  "k_handshake (slow_path_send_tcp env app p b q k) = k_handshake k"
  "k_avail_cc (slow_path_send_tcp env app p b q k) = k_avail_cc k"
  "k_bpf (slow_path_send_tcp env app p b q k) = k_bpf k"
  by (simp_all add: slow_path_send_tcp_def Let_def)

lemma control_simps [simp]:
  "k_conns (send_tcp_control env c f ts e mss k) = k_conns k" "k_lsts (send_tcp_control env c f ts e mss k) = k_lsts k"
  "k_connections (send_tcp_control env c f ts e mss k) = k_connections k"
  "k_handshake (send_tcp_control env c f ts e mss k) = k_handshake k"
  "k_avail_cc (send_tcp_control env c f ts e mss k) = k_avail_cc k"
  "k_bpf (send_tcp_control env c f ts e mss k) = k_bpf k"
  by (simp_all add: send_tcp_control_def)

lemma start_cc_simps [simp]:
  "tc_type (start_cc idx r c) = tc_type c" "tc_tctx (start_cc idx r c) = tc_tctx c"
  "tc_listener (start_cc idx r c) = tc_listener c" "tc_opaque (start_cc idx r c) = tc_opaque c"
  "tc_fd (start_cc idx r c) = tc_fd c" "tc_local_ip (start_cc idx r c) = tc_local_ip c"
  "tc_remote_ip (start_cc idx r c) = tc_remote_ip c" "tc_local_port (start_cc idx r c) = tc_local_port c"
  "tc_remote_port (start_cc idx r c) = tc_remote_port c" "tc_local_seq (start_cc idx r c) = tc_local_seq c"
  "tc_remote_seq (start_cc idx r c) = tc_remote_seq c" "tc_status (start_cc idx r c) = tc_status c"
  "tc_flags (start_cc idx r c) = tc_flags c" "tc_qid (start_cc idx r c) = tc_qid c"
  "tc_syn_ts (start_cc idx r c) = tc_syn_ts c" "tc_ref (start_cc idx r c) = tc_ref c"
  "tc_cc_idx (start_cc idx r c) = idx"
  by (simp_all add: start_cc_def)

lemma initial_rate: "window_to_rate 2896 TCP_RTT_INIT = Some 463360"
  by (simp add: window_to_rate_def)

end
