(* ===== verification/Ctl_Conn.thy ===== *)
theory Ctl_Conn
  imports Ctl_Kernel "HOL-Library.AList"
begin

text \<open>
  The handlers of the TCP control plane (\<open>micro_kernel/tcp.cc\<close>): the handshake, the
  commands of the application, the two polling loops and the release of an
  application's resources.  A handler that the code declares \<open>int\<close> returns whether it
  succeeded.  \<open>DEBUG_TCP\<close> is not defined; the locks are taken and released inside
  single handlers of the one control thread and have no state here.
\<close>

section \<open>The table of connections\<close>

fun find_entry :: "u64 \<Rightarrow> (flow_tuple \<times> nat) list \<Rightarrow> ctl_state \<Rightarrow> ctl_error + nat option" where
  "find_entry opaque [] k = Inr None"
| "find_entry opaque ((t, i) # es) k =
    andthen (get_conn i k) (\<lambda>c. if tc_opaque c = opaque then Inr (Some i) else find_entry opaque es k)"

definition find_tcp_conn_slowpath :: "u64 \<Rightarrow> ctl_state \<Rightarrow> ctl_error + nat option" where
  "find_tcp_conn_slowpath opaque k = find_entry opaque (k_connections k) k"

definition reg_tcp_conn_slowpath :: "nat \<Rightarrow> tcp_connection \<Rightarrow> ctl_state \<Rightarrow> ctl_state" where
  "reg_tcp_conn_slowpath i c k =
    (if map_of (k_connections k) (conn_tuple c) = None
     then k\<lparr>k_connections := k_connections k @ [(conn_tuple c, i)]\<rparr> else k)"

fun remove_conn :: "nat \<Rightarrow> (flow_tuple \<times> nat) list \<Rightarrow> (flow_tuple \<times> nat) list" where
  "remove_conn i [] = []"
| "remove_conn i (e # es) = (if snd e = i then es else e # remove_conn i es)"

definition unreg_tcp_conn_slowpath :: "nat \<Rightarrow> ctl_state \<Rightarrow> ctl_state" where
  "unreg_tcp_conn_slowpath i k = k\<lparr>k_connections := remove_conn i (k_connections k)\<rparr>"

definition delete_conn :: "nat \<Rightarrow> ctl_state \<Rightarrow> ctl_state" where
  "delete_conn i k = k\<lparr>k_conns := (k_conns k)(i := None)\<rparr>"

definition tcp_connection_close :: "ctl_env \<Rightarrow> nat \<Rightarrow> ctl_state \<Rightarrow> ctl_error + ctl_state" where
  "tcp_connection_close env i k =
    andthen (get_conn i k) (\<lambda>c.
      let app = ke_actx env (tc_tctx c)
      in if tc_type c = TCP_CONN_TYPE_FAKE
         then let k = free_port (tc_local_port c) (unrecord_port env app (tc_local_port c) k)
              in Inr (delete_conn i (k\<lparr>k_connections := AList.delete (conn_tuple c) (k_connections k)\<rparr>))
         else let k = unreg_tcp_conn_slowpath i k;
                  k = (if tc_status c = CONN_OPEN \<or> tc_status c = CONN_WAIT_TX_SYNACK
                       then unreg_tcp_conn_ebpf c k else k);
                  k = (if tc_listener c = None
                       then free_port (tc_local_port c) (unrecord_port env app (tc_local_port c) k) else k);
                  k = send_tcp_control env c TCP_RST False 0 0 k
              in Inr (delete_conn i k))"

definition tcp_conn_put :: "ctl_env \<Rightarrow> nat \<Rightarrow> ctl_state \<Rightarrow> ctl_error + ctl_state" where
  "tcp_conn_put env i k =
    andthen (get_conn i k) (\<lambda>c.
      let c = c\<lparr>tc_ref := tc_ref c - 1\<rparr>; k = put_kconn i c k
      in if tc_ref c = 0 then tcp_connection_close env i k else Inr k)"

section \<open>The handshake\<close>

text \<open>Words of the timestamp option in network order.\<close>

definition opt_ts_val :: "bytes \<Rightarrow> nat \<Rightarrow> u32" where
  "opt_ts_val p off = bpf_ntohl (ld32 (off + 2) p)"

definition tcp_synack_pkt ::
  "ctl_env \<Rightarrow> nat \<Rightarrow> bytes \<Rightarrow> tcp_opts \<Rightarrow> ctl_state \<Rightarrow> ctl_error + bool \<times> ctl_state" where
  "tcp_synack_pkt env i p opts k =
    andthen (get_conn i k) (\<lambda>c0.
      let c = c0\<lparr>tc_next_timeout_tsc := 0\<rparr>;
          ecn_flags = tcph_flags p AND (TCP_ECE OR TCP_CWR);
          fail = (\<lambda>k. andthen (get_conn i k) (\<lambda>c.
            Inr (False, put_kconn i (c\<lparr>tc_local_mac := replicate 6 0, tc_remote_mac := replicate 6 0,
              tc_remote_seq := 0, tc_local_seq := 0, tc_syn_ts := 0, tc_flags := 0,
              tc_next_timeout_tsc := ke_cycles env + ke_us_to_cycles env HANDSHAKE_US\<rparr>) k)))
      in if tcph_flags p AND (TCP_SYN OR TCP_ACK) \<noteq> TCP_SYN OR TCP_ACK then fail (put_kconn i c k)
         else case op_ts opts of
             None \<Rightarrow> fail (put_kconn i c k)
           | Some ts \<Rightarrow>
               let c = c\<lparr>tc_local_mac := take 6 p, tc_remote_mac := take 6 (drop 6 p),
                         tc_remote_seq := bpf_ntohl (ld32 38 p) + 1, tc_local_seq := bpf_ntohl (ld32 42 p),
                         tc_syn_ts := opt_ts_val p ts,
                         tc_flags := (if ecn_flags = TCP_ECE then tc_flags c OR ECN_ENABLE else tc_flags c)\<rparr>
               in andthen (reg_tcp_conn_ebpf env i c False (put_kconn i c k)) (\<lambda>(ok, k).
                    if \<not> ok then fail k
                    else andthen (get_conn i k) (\<lambda>c.
                      let c = c\<lparr>tc_status := CONN_OPEN\<rparr>;
                          k = put_kconn i c k;
                          k = notify_app_tcp_conn_open env (tc_tctx c) (tc_opaque c) (tc_fd c) 1 c k
                      in Inr (True, send_tcp_control env c TCP_ACK True (tc_syn_ts c) 0 k))))"

text \<open>
  The code pops the backlog before it reads the slot; the slot is read here as it was.
\<close>

definition tcp_listener_accept :: "ctl_env \<Rightarrow> nat \<Rightarrow> ctl_state \<Rightarrow> ctl_error + ctl_state" where
  "tcp_listener_accept env li k =
    andthen (get_listener li k) (\<lambda>l.
      case tl_pending l of
        None \<Rightarrow> Inr k
      | Some i \<Rightarrow>
         (case tl_backlog l of
            [] \<Rightarrow> Inl Assert_Failed
          | slot # rest \<Rightarrow>
              let l = l\<lparr>tl_backlog := rest\<rparr>; k = put_listener li l k; p = bs_pkt slot
              in andthen (parse_tcp_opts p) (\<lambda>r.
                 case r of
                   None \<Rightarrow> Inr k
                 | Some opts \<Rightarrow>
                    (case (op_ts opts, op_mss opts) of
                       (Some ts, Some _) \<Rightarrow>
                         andthen (get_conn i k) (\<lambda>c.
                           let ecn_flags = tcph_flags p AND (TCP_ECE OR TCP_CWR);
                               c = c\<lparr>tc_qid := bs_qid slot, tc_local_mac := take 6 p, tc_remote_mac := take 6 (drop 6 p),
                                     tc_remote_ip := bpf_ntohl (ld32 26 p), tc_remote_port := bpf_ntohs (ld16 34 p),
                                     tc_local_ip := ke_local_ip env, tc_local_port := tl_port l,
                                     tc_remote_seq := bpf_ntohl (ld32 38 p) + 1, tc_local_seq := 1,
                                     tc_syn_ts := opt_ts_val p ts,
                                     tc_flags := (if ecn_flags = TCP_ECE OR TCP_CWR then tc_flags c OR ECN_ENABLE
                                                  else tc_flags c)\<rparr>
                           in andthen (reg_tcp_conn_ebpf env i c True (put_kconn i c k)) (\<lambda>(ok, k).
                                if \<not> ok then Inr k
                                else andthen (get_conn i k) (\<lambda>c.
                                  let k = reg_tcp_conn_slowpath i c k;
                                      k = put_kconn i (c\<lparr>tc_status := CONN_WAIT_TX_SYNACK, tc_listen_fd := tl_fd l\<rparr>) k;
                                      k = put_listener li (l\<lparr>tl_pending := None\<rparr>) k
                                  in Inr (k\<lparr>k_handshake := k_handshake k @ [i]\<rparr>))))
                     | _ \<Rightarrow> Inr k))))"

definition tcp_connection_pkt ::
  "ctl_env \<Rightarrow> nat \<Rightarrow> bytes \<Rightarrow> u32 \<Rightarrow> tcp_opts \<Rightarrow> ctl_state \<Rightarrow> ctl_error + ctl_state" where
  "tcp_connection_pkt env i p q opts k =
    andthen (get_conn i k) (\<lambda>c.
      if tc_status c = CONN_WAIT_RX_SYNACK
      then andthen (tcp_synack_pkt env i p opts (put_kconn i (c\<lparr>tc_qid := q\<rparr>) k)) (\<lambda>(ok, k). Inr k)
      else if tc_status c = CONN_OPEN \<and> tcph_flags p = TCP_SYN
      then (case op_ts opts of
              None \<Rightarrow> tcp_conn_put env i k
            | Some ts \<Rightarrow>
                let ecn_flags = (if tc_flags c AND ECN_ENABLE \<noteq> 0 then TCP_ECE else 0)
                in Inr (send_tcp_control env c (TCP_SYN OR TCP_ACK OR ecn_flags) True (opt_ts_val p ts) TCP_MSS k))
      else if tc_status c = CONN_OPEN \<and> tcph_flags p AND TCP_SYN \<noteq> 0 then Inr k
      else if tc_status c = CONN_OPEN \<and> tcph_flags p AND TCP_RST \<noteq> 0
      then tcp_conn_put env i (notify_app_tcp_status_close env (tc_tctx c) (tc_opaque c) (tc_fd c) 0 k)
      else if tc_status c = CONN_CLOSED \<and> tcph_flags p AND TCP_FIN \<noteq> 0
      then Inr (send_tcp_control env c TCP_ACK True 0 0 k)
      else Inr k)"

definition same_flow :: "bytes \<Rightarrow> bytes \<Rightarrow> bool" where
  "same_flow p q = (ld32 26 p = ld32 26 q \<and> ld16 34 p = ld16 34 q \<and> ld32 30 p = ld32 30 q \<and> ld16 36 p = ld16 36 q)"

text \<open>
  A backlog slot has 256 bytes; copying a longer packet writes past it.
\<close>

definition tcp_listener_pkt :: "ctl_env \<Rightarrow> nat \<Rightarrow> bytes \<Rightarrow> u32 \<Rightarrow> ctl_state \<Rightarrow> ctl_error + ctl_state" where
  "tcp_listener_pkt env li p q k =
    andthen (get_listener li k) (\<lambda>l.
      let len = 14 + bpf_ntohs (ld16 16 p)
      in if tcph_flags p AND NOT (TCP_ECE OR TCP_CWR) \<noteq> TCP_SYN then Inr k
         else if unat (tl_max_backlog l) \<le> length (tl_backlog l) then Inr k
         else if list_ex (\<lambda>slot. same_flow (bs_pkt slot) p) (tl_backlog l) then Inr k
         else if len > 256 then Inl Out_Of_Bounds
         else let slot = \<lparr>bs_pkt = take (unat len) p, bs_len = len, bs_qid = q\<rparr>;
                  k = put_listener li (l\<lparr>tl_backlog := tl_backlog l @ [slot]\<rparr>) k;
                  k = notify_app_tcp_event_newconn env (tl_tctx l) (tl_opaque l) (tl_fd l)
                        (bpf_ntohl (ld32 26 p)) (bpf_ntohs (ld16 34 p)) k
              in if tl_pending l \<noteq> None then tcp_listener_accept env li k else Inr k)"

definition pkt_tuple :: "bytes \<Rightarrow> flow_tuple" where
  "pkt_tuple p = \<lparr> fl_remote_ip = bpf_ntohl (ld32 26 p), fl_remote_port = bpf_ntohs (ld16 34 p),
     fl_local_ip = bpf_ntohl (ld32 30 p), fl_local_port = bpf_ntohs (ld16 36 p) \<rparr>"

definition tcp_conn_lookup :: "bytes \<Rightarrow> ctl_state \<Rightarrow> nat option" where
  "tcp_conn_lookup p k = map_of (k_connections k) (pkt_tuple p)"

definition tcp_listener_lookup :: "bytes \<Rightarrow> ctl_state \<Rightarrow> nat option" where
  "tcp_listener_lookup p k =
    (let t = pkt_tuple p
     in case map_of (k_listeners k) (fl_local_ip t, fl_local_port t) of
          None \<Rightarrow> None
        | Some [] \<Rightarrow> None
        | Some ls \<Rightarrow>
            Some (ls ! (unat (fl_remote_ip t XOR fl_local_ip t XOR ucast (fl_remote_port t) XOR ucast (fl_local_port t))
                        mod length ls)))"

definition tcp_packet :: "ctl_env \<Rightarrow> nat \<Rightarrow> bytes \<Rightarrow> u32 \<Rightarrow> ctl_state \<Rightarrow> ctl_error + bool \<times> ctl_state" where
  "tcp_packet env app p q k =
    andthen (parse_tcp_opts p) (\<lambda>r.
      case r of
        None \<Rightarrow> Inr (False, k)
      | Some opts \<Rightarrow>
         (case tcp_conn_lookup p k of
            Some i \<Rightarrow> andthen (tcp_connection_pkt env i p q opts k) (\<lambda>k. Inr (True, k))
          | None \<Rightarrow>
             (case tcp_listener_lookup p k of
                Some li \<Rightarrow> andthen (tcp_listener_pkt env li p q k) (\<lambda>k. Inr (True, k))
              | None \<Rightarrow>
                  Inr (False, if tcph_flags p AND TCP_RST = 0 then send_tcp_reset env app p k else k))))"

section \<open>Polling\<close>

fun poll_conns ::
  "ctl_env \<Rightarrow> (flow_tuple \<times> nat) list \<Rightarrow> nat list \<Rightarrow> ctl_state \<Rightarrow> ctl_error + nat list \<times> ctl_state" where
  "poll_conns env [] to_put k = Inr (to_put, k)"
| "poll_conns env ((t, i) # es) to_put k =
    andthen (get_conn i k) (\<lambda>c.
      if tc_type c = TCP_CONN_TYPE_FAKE then poll_conns env es to_put k
      else if tc_status c \<noteq> CONN_OPEN
      then if tc_next_timeout_tsc c \<noteq> 0 \<and> tc_next_timeout_tsc c \<le> ke_cycles env
           then if tc_status c = CONN_WAIT_RX_SYNACK \<and> tc_syn_attempts c \<le> 3
                then let c = c\<lparr>tc_status := CONN_WAIT_TX_SYN, tc_syn_attempts := tc_syn_attempts c + 1\<rparr>;
                         k = put_kconn i c k
                     in poll_conns env es to_put (k\<lparr>k_handshake := k_handshake k @ [i]\<rparr>)
                else if tc_syn_attempts c > 3 then poll_conns env es (to_put @ [i]) k
                else poll_conns env es to_put k
           else poll_conns env es to_put k
      else let next = tc_cc_last_tsc c + ke_us_to_cycles env (ucast (tc_cc_last_rtt c) * CC_INTERVAL_RTT);
               k = k\<lparr>k_next_cc := min (k_next_cc k) next\<rparr>
           in if \<not> cc_due (ke_cycles_to_us env) (ke_cycles env) c then poll_conns env es to_put k
              else case mtp_cc_interval (ke_cycles_to_us env) (ke_cycles env) (cc_map (k_bpf k)) c of
                     None \<Rightarrow> Inl Assert_Failed
                   | Some (m, c, rexmit) \<Rightarrow>
                       let k = put_kconn i c (k\<lparr>k_bpf := (k_bpf k)\<lparr>cc_map := m\<rparr>\<rparr>);
                           k = (if rexmit then issue_retransmit env c k else k)
                       in poll_conns env es to_put k)"

fun put_all :: "ctl_env \<Rightarrow> nat list \<Rightarrow> ctl_state \<Rightarrow> ctl_error + ctl_state" where
  "put_all env [] k = Inr k"
| "put_all env (i # is) k = andthen (tcp_conn_put env i k) (put_all env is)"

definition poll_tcp_cc_to :: "ctl_env \<Rightarrow> ctl_state \<Rightarrow> ctl_error + ctl_state" where
  "poll_tcp_cc_to env k =
    andthen (poll_conns env (k_connections k) [] (k\<lparr>k_next_cc := 0xffffffffffffffff\<rparr>))
      (\<lambda>(to_put, k). put_all env to_put k)"

definition handshake_event :: "ctl_env \<Rightarrow> nat \<Rightarrow> ctl_state \<Rightarrow> ctl_error + nat \<times> ctl_state" where
  "handshake_event env i k =
    andthen (get_conn i k) (\<lambda>c.
      if tc_status c = CONN_WAIT_TX_SYN
      then let c = c\<lparr>tc_status := CONN_WAIT_RX_SYNACK,
                     tc_next_timeout_tsc := ke_cycles env + ke_us_to_cycles env HANDSHAKE_US\<rparr>;
               k = put_kconn i c k
           in Inr (1, send_tcp_control env c (TCP_SYN OR TCP_ECE OR TCP_CWR) True 0 TCP_MSS k)
      else if tc_status c = CONN_WAIT_TX_SYNACK
      then let c = c\<lparr>tc_status := CONN_OPEN\<rparr>;
               k = put_kconn i c k;
               k = send_tcp_control env c (if tc_flags c AND ECN_ENABLE \<noteq> 0 then TCP_SYN OR TCP_ACK OR TCP_ECE
                     else TCP_SYN OR TCP_ACK) True (tc_syn_ts c) TCP_MSS k
           in case tc_listener c of
                None \<Rightarrow> Inl Use_After_Free
              | Some li \<Rightarrow>
                  andthen (get_listener li k) (\<lambda>l.
                    Inr (1, notify_app_tcp_event_accept env (tc_tctx c) (tc_opaque c) (tc_listen_fd c) (tc_fd c) 0
                      (tc_rx_buf_size c) (tc_tx_buf_size c) (tc_remote_ip c) (tc_remote_port c) (tc_qid c)
                      (tl_backlog l \<noteq> []) k))
      else Inr (0, k))"

fun handshake_loop :: "ctl_env \<Rightarrow> nat list \<Rightarrow> ctl_state \<Rightarrow> ctl_error + nat \<times> ctl_state" where
  "handshake_loop env [] k = Inr (0, k)"
| "handshake_loop env (i # is) k =
    andthen (handshake_event env i (k\<lparr>k_handshake := is\<rparr>)) (\<lambda>(n, k).
      andthen (handshake_loop env is k) (\<lambda>(m, k). Inr (n + m, k)))"

definition poll_tcp_handshake_events :: "ctl_env \<Rightarrow> ctl_state \<Rightarrow> ctl_error + nat \<times> ctl_state" where
  "poll_tcp_handshake_events env k = handshake_loop env (k_handshake k) k"

section \<open>Commands of the application\<close>

datatype tcp_cmd =
    APPOUT_TCP_OPEN u64 u32 u32 u16
  | APPOUT_TCP_BIND u64 u32 bool u16
  | APPOUT_TCP_LISTEN u64 u64 u32 u32
  | APPOUT_TCP_ACCEPT u64 u64 u32 u32 u16
  | APPOUT_TCP_CLOSE u64 u32

definition add_listener :: "listen_tuple \<Rightarrow> nat \<Rightarrow> ctl_state \<Rightarrow> ctl_state" where
  "add_listener t li k =
    (case map_of (k_listeners k) t of
       None \<Rightarrow> k\<lparr>k_listeners := k_listeners k @ [(t, [li])]\<rparr>
     | Some ls \<Rightarrow> k\<lparr>k_listeners := AList.update t (ls @ [li]) (k_listeners k)\<rparr>)"

definition tcp_listen ::
  "ctl_env \<Rightarrow> nat \<Rightarrow> u64 \<Rightarrow> u64 \<Rightarrow> u32 \<Rightarrow> ctl_state \<Rightarrow> ctl_error + bool \<times> ctl_state" where
  "tcp_listen env t opaque opaque_l backlog k =
    andthen (find_tcp_conn_slowpath opaque k) (\<lambda>r.
      case r of
        None \<Rightarrow> Inr (False, k)
      | Some i \<Rightarrow>
          andthen (get_conn i k) (\<lambda>c.
            if tc_type c \<noteq> TCP_CONN_TYPE_FAKE then Inr (False, k)
            else let li = k_next k;
                     l = \<lparr>tl_tctx = t, tl_opaque = opaque_l, tl_max_backlog = backlog, tl_backlog = [],
                          tl_port = tc_local_port c, tl_pending = None, tl_c = i, tl_fd = tc_fd c\<rparr>;
                     k = put_listener li l (k\<lparr>k_next := li + 1\<rparr>);
                     k = k\<lparr>k_thread_listeners := (k_thread_listeners k)(t := k_thread_listeners k t @ [li])\<rparr>;
                     k = add_listener (ke_local_ip env, tc_local_port c) li k
                 in Inr (True, notify_app_tcp_status_listen env t opaque_l (tc_fd c) 0 k)))"

fun find_listener :: "u16 \<Rightarrow> u64 \<Rightarrow> nat list \<Rightarrow> ctl_state \<Rightarrow> ctl_error + nat option" where
  "find_listener port opaque [] k = Inr None"
| "find_listener port opaque (li # ls) k =
    andthen (get_listener li k) (\<lambda>l.
      if tl_port l = port \<and> tl_opaque l = opaque then Inr (Some li) else find_listener port opaque ls k)"

definition accepted_conn :: "ctl_env \<Rightarrow> nat \<Rightarrow> nat \<Rightarrow> tcp_listener \<Rightarrow> u64 \<Rightarrow> u32 \<Rightarrow> tcp_connection" where
  "accepted_conn env t li l opaque newfd =
    new_connection\<lparr>tc_type := TCP_CONN_TYPE_NORMAL, tc_tctx := t, tc_listener := Some li, tc_opaque := opaque,
      tc_local_ip := ke_local_ip env, tc_local_port := tl_port l, tc_rx_buf_size := ke_rx_buf env,
      tc_tx_buf_size := ke_tx_buf env, tc_status := CONN_WAIT_RX_SYN, tc_cc_last_rtt := TCP_RTT_INIT,
      tc_cc_rate := CC_TIMELY_INIT_RATE, tc_qid := POISON_32, tc_fd := newfd\<rparr>"

definition tcp_accept ::
  "ctl_env \<Rightarrow> nat \<Rightarrow> u64 \<Rightarrow> u64 \<Rightarrow> u32 \<Rightarrow> u16 \<Rightarrow> ctl_state \<Rightarrow> ctl_error + bool \<times> ctl_state" where
  "tcp_accept env t opaque_l opaque newfd port k =
    andthen (find_listener port opaque_l (k_thread_listeners k t) k) (\<lambda>r.
      case r of
        None \<Rightarrow> Inr (False, k)
      | Some li \<Rightarrow>
          andthen (get_listener li k) (\<lambda>l.
            if tl_pending l \<noteq> None then Inr (False, k)
            else if length (k_connections k) > 65536 then Inr (False, k)
            else let i = k_next k;
                     k = put_kconn i (accepted_conn env t li l opaque newfd) (k\<lparr>k_next := i + 1\<rparr>);
                     k = put_listener li (l\<lparr>tl_pending := Some i\<rparr>) k
                 in if tl_backlog l \<noteq> []
                    then andthen (tcp_listener_accept env li k) (\<lambda>k. Inr (True, k))
                    else Inr (True, k)))"

definition opened_conn ::
  "ctl_env \<Rightarrow> nat \<Rightarrow> u64 \<Rightarrow> u32 \<Rightarrow> u32 \<Rightarrow> u16 \<Rightarrow> u16 \<Rightarrow> tcp_connection \<Rightarrow> tcp_connection" where
  "opened_conn env t opaque fd rip rport lport c =
    c\<lparr>tc_type := TCP_CONN_TYPE_NORMAL, tc_tctx := t, tc_listener := None, tc_reuseport := False,
      tc_opaque := opaque, tc_fd := fd, tc_remote_ip := rip, tc_remote_port := rport,
      tc_local_ip := ke_local_ip env, tc_local_port := (if lport \<noteq> 0 then lport else tc_local_port c),
      tc_rx_buf_size := ke_rx_buf env, tc_tx_buf_size := ke_tx_buf env, tc_status := CONN_WAIT_TX_SYN,
      tc_algorithm := CC_NONE, tc_cc_idx := POISON_32, tc_cc_last_rtt := TCP_RTT_INIT,
      tc_cc_rate := CC_TIMELY_INIT_RATE, tc_qid := POISON_32, tc_flags := 0, tc_remote_seq := 0,
      tc_local_seq := 0\<rparr>"

definition start_open :: "ctl_env \<Rightarrow> nat \<Rightarrow> nat \<Rightarrow> tcp_connection \<Rightarrow> ctl_state \<Rightarrow> ctl_state" where
  "start_open env t i c k =
    (let k = reg_tcp_conn_slowpath i c (put_kconn i c k);
         k = k\<lparr>k_handshake := k_handshake k @ [i]\<rparr>
     in notify_app_tcp_conn_open env t (tc_opaque c) (tc_fd c) 0 c k)"

definition tcp_open ::
  "ctl_env \<Rightarrow> nat \<Rightarrow> u64 \<Rightarrow> u32 \<Rightarrow> u32 \<Rightarrow> u16 \<Rightarrow> ctl_state \<Rightarrow> ctl_error + bool \<times> ctl_state" where
  "tcp_open env t opaque fd rip rport k =
    andthen (find_tcp_conn_slowpath opaque k) (\<lambda>r.
      case r of
        None \<Rightarrow>
          andthen (alloc_port k) (\<lambda>(port, k).
            case port of
              None \<Rightarrow> Inr (False, k)
            | Some lport \<Rightarrow>
                let i = k_next k;
                    k = record_port env (ke_actx env t) lport rport (k\<lparr>k_next := i + 1\<rparr>)
                in Inr (True, start_open env t i (opened_conn env t opaque fd rip rport lport new_connection) k))
      | Some i \<Rightarrow>
          andthen (get_conn i k) (\<lambda>c.
            Inr (True, start_open env t i (opened_conn env t opaque fd rip rport 0 c) k)))"

definition tcp_bind ::
  "ctl_env \<Rightarrow> nat \<Rightarrow> u64 \<Rightarrow> u32 \<Rightarrow> bool \<Rightarrow> u16 \<Rightarrow> ctl_state \<Rightarrow> ctl_error + bool \<times> ctl_state" where
  "tcp_bind env t opaque fd reuseport lport k =
    andthen (find_tcp_conn_slowpath opaque k) (\<lambda>r.
      if r \<noteq> None then Inr (False, k)
      else let (ok, k) = alloc_port_at lport k; app = ke_actx env t
           in if \<not> ok \<and> \<not> (reuseport \<and> lport \<in> k_app_ports k app) then Inr (False, k)
              else let i = k_next k;
                       c = new_connection\<lparr>tc_type := TCP_CONN_TYPE_FAKE, tc_reuseport := reuseport, tc_fd := fd,
                         tc_tctx := t, tc_local_port := lport, tc_remote_port := ucast opaque,
                         tc_local_ip := ucast (ucast (drop_bit 32 opaque) :: u16),
                         tc_remote_ip := ucast (ucast (drop_bit 16 opaque) :: u16), tc_opaque := opaque, tc_flags := 0\<rparr>;
                       k = record_port env app lport 0 (put_kconn i c (k\<lparr>k_next := i + 1\<rparr>))
                   in Inr (True, notify_app_tcp_status_bind env t opaque fd 0 (reg_tcp_conn_slowpath i c k)))"

definition tcp_close :: "ctl_env \<Rightarrow> nat \<Rightarrow> u64 \<Rightarrow> u32 \<Rightarrow> ctl_state \<Rightarrow> ctl_error + bool \<times> ctl_state" where
  "tcp_close env t opaque fd k =
    andthen (find_tcp_conn_slowpath opaque k) (\<lambda>r.
      case r of
        None \<Rightarrow> Inr (False, k)
      | Some i \<Rightarrow> andthen (tcp_conn_put env i k) (\<lambda>k. Inr (True, notify_app_tcp_status_close env t opaque fd 1 k)))"

fun process_tcp_cmd :: "ctl_env \<Rightarrow> nat \<Rightarrow> tcp_cmd \<Rightarrow> ctl_state \<Rightarrow> ctl_error + ctl_state" where
  "process_tcp_cmd env t (APPOUT_TCP_OPEN opaque fd rip rport) k =
    andthen (tcp_open env t opaque fd rip rport k) (\<lambda>(ok, k).
      Inr (if ok then k else notify_app_tcp_conn_open env t opaque fd (-1) new_connection k))"
| "process_tcp_cmd env t (APPOUT_TCP_BIND opaque fd reuseport lport) k =
    andthen (tcp_bind env t opaque fd reuseport lport k) (\<lambda>(ok, k).
      Inr (if ok then k else notify_app_tcp_status_bind env t opaque fd (-1) k))"
| "process_tcp_cmd env t (APPOUT_TCP_LISTEN opaque opaque_l fd backlog) k =
    andthen (tcp_listen env t opaque opaque_l backlog k) (\<lambda>(ok, k).
      Inr (if ok then k else notify_app_tcp_status_listen env t opaque_l fd (-1) k))"
| "process_tcp_cmd env t (APPOUT_TCP_ACCEPT opaque_l opaque fd newfd port) k =
    andthen (tcp_accept env t opaque_l opaque newfd port k) (\<lambda>(ok, k).
      Inr (if ok then k
           else notify_app_tcp_event_accept env t opaque fd newfd (-1) 0 0 0 0 0 False k))"
| "process_tcp_cmd env t (APPOUT_TCP_CLOSE opaque fd) k =
    andthen (tcp_close env t opaque fd k) (\<lambda>(ok, k).
      Inr (if ok then k else notify_app_tcp_status_close env t opaque fd (-1) k))"

section \<open>Release of an application\<close>

fun app_conns :: "ctl_env \<Rightarrow> nat \<Rightarrow> (flow_tuple \<times> nat) list \<Rightarrow> ctl_state \<Rightarrow> ctl_error + nat list" where
  "app_conns env app [] k = Inr []"
| "app_conns env app ((t, i) # es) k =
    andthen (get_conn i k) (\<lambda>c. andthen (app_conns env app es k) (\<lambda>is.
      Inr (if ke_actx env (tc_tctx c) = app then i # is else is)))"

definition free_connections :: "ctl_env \<Rightarrow> nat \<Rightarrow> ctl_state \<Rightarrow> ctl_error + ctl_state" where
  "free_connections env app k =
    andthen (app_conns env app (k_connections k) k) (\<lambda>is. put_all env is k)"

fun free_listener_list :: "ctl_env \<Rightarrow> nat \<Rightarrow> nat list \<Rightarrow> ctl_state \<Rightarrow> ctl_error + bool \<times> ctl_state" where
  "free_listener_list env app [] k = Inr (False, k)"
| "free_listener_list env app (li # ls) k =
    andthen (get_listener li k) (\<lambda>l.
      if ke_actx env (tl_tctx l) = app
      then let k = (case tl_pending l of None \<Rightarrow> k | Some i \<Rightarrow> delete_conn i k);
               k = k\<lparr>k_lsts := (k_lsts k)(li := None)\<rparr>
           in andthen (free_listener_list env app ls k) (\<lambda>(_, k). Inr (True, k))
      else free_listener_list env app ls k)"

text \<open>One deleted listener erases the whole list of its address.\<close>

fun free_listener_table ::
  "ctl_env \<Rightarrow> nat \<Rightarrow> (listen_tuple \<times> nat list) list \<Rightarrow> ctl_state
    \<Rightarrow> ctl_error + (listen_tuple \<times> nat list) list \<times> ctl_state" where
  "free_listener_table env app [] k = Inr ([], k)"
| "free_listener_table env app ((t, ls) # es) k =
    andthen (free_listener_list env app ls k) (\<lambda>(del, k).
      andthen (free_listener_table env app es k) (\<lambda>(es, k). Inr (if del then es else (t, ls) # es, k)))"

definition free_listeners :: "ctl_env \<Rightarrow> nat \<Rightarrow> ctl_state \<Rightarrow> ctl_error + ctl_state" where
  "free_listeners env app k =
    andthen (free_listener_table env app (k_listeners k) k) (\<lambda>(tab, k). Inr (k\<lparr>k_listeners := tab\<rparr>))"

definition free_tcp_resources :: "ctl_env \<Rightarrow> nat \<Rightarrow> ctl_state \<Rightarrow> ctl_error + ctl_state" where
  "free_tcp_resources env app k = andthen (free_connections env app k) (free_listeners env app)"

text \<open>The control plane before any application has registered.\<close>

definition empty_ctl :: "u32 list \<Rightarrow> u16 list \<Rightarrow> ctl_state" where
  "empty_ctl ccs ports = \<lparr> k_conns = Map.empty, k_lsts = Map.empty, k_next = 0, k_connections = [], k_listeners = [],
     k_thread_listeners = (\<lambda>_. []), k_handshake = [], k_avail_cc = ccs, k_bpf = init_state,
     k_avail_ports = ports, k_port_ok = (\<lambda>p. p \<in> set ports),
     k_app_ports = (\<lambda>_. {}), k_rule_dst = {}, k_rule_src = {}, k_app_rules = (\<lambda>_. []),
     k_next_cc = 0xffffffffffffffff, k_sent = [], k_msgs = [] \<rparr>"

definition init_ctl :: ctl_state where
  "init_ctl = empty_ctl (map of_nat [0..<65536]) (map of_nat [1000..<60001])"

end
