(* ===== verification/Handshake.thy ===== *)
theory Handshake
  imports Ctl_Conn
begin

text \<open>
  The connection handshake between two instances of the control plane: what a control
  segment says to the instance that parses it, what each handler of the handshake
  does, and the agreement of the two entries that the data paths start from.
\<close>

text \<open>The NIC takes a packet and the maps take an entry.\<close>

definition net_ok :: "ctl_env \<Rightarrow> bool" where
  "net_ok env = (ke_map_ok env \<and> ke_buf_ok env \<and> 1 \<le> ke_ring_free env)"

lemma control_sent:
  assumes "net_ok env"
  shows "\<exists>q. k_sent (send_tcp_control env c f ts e mss k) = k_sent k @ [(q, False, control_segment env c f ts e mss)]"
  using assms by (auto simp: send_tcp_control_def slow_path_send_tcp_def Let_def net_ok_def)

lemma reg_ebpf_success:
  assumes "net_ok env" "k_avail_cc k = idx # is"
  shows "\<exists>k'. reg_tcp_conn_ebpf env i c listen k = Inr (True, k')
      \<and> k_conns k' = (k_conns k)(i \<mapsto> start_cc idx 463360 c)
      \<and> conn_map (k_bpf k') = (conn_map (k_bpf k))(conn_key c \<mapsto> ebpf_entry env c listen idx 463360)
      \<and> k_lsts k' = k_lsts k \<and> k_connections k' = k_connections k \<and> k_handshake k' = k_handshake k
      \<and> k_sent k' = k_sent k"
  using assms unfolding reg_tcp_conn_ebpf_def initial_rate
  by (simp add: alloc_cc_idx_def net_ok_def Let_def)

section \<open>Control segments as the peer reads them\<close>

lemma hdrlen_flags:
  fixes flags :: u16
  assumes "flags \<le> 0x1ff"
  shows "(0x9000 OR flags) AND 0x1ff = flags" and "drop_bit 12 (0x9000 OR flags) = 9"
proof -
  have f: "unat flags < 2 ^ 9" using assms by (simp add: word_le_nat_alt)
  have "take_bit 9 flags = flags"
    using f by (intro word_unat_eq_iff [THEN iffD2]) (simp add: unsigned_take_bit_eq take_bit_nat_eq_self)
  then have a: "flags AND 0x1ff = flags" by (simp add: take_bit_eq_mask mask_eq_exp_minus_1)
  have d: "drop_bit 12 flags = 0" using f by (simp add: word_unat_eq_iff drop_bit_eq_div unat_div)
  show "(0x9000 OR flags) AND 0x1ff = flags" using a by (simp add: bit.conj_disj_distrib2)
  show "drop_bit 12 (0x9000 OR flags) = 9" using d by simp
qed

lemma ld8_zeros [simp]: "ld8 i (replicate n 0) = 0"
  by (simp add: ld8_def nth_default_def)

lemma control_segment_fields:
  fixes env :: ctl_env and c :: tcp_connection and ts :: u32 and flags :: u16
  defines "p \<equiv> control_segment env c flags True ts TCP_MSS"
  shows "length p = 70" "ld16 16 p = bpf_htons 56"
    "ld32 26 p = bpf_htonl (tc_local_ip c)" "ld32 30 p = bpf_htonl (tc_remote_ip c)"
    "ld16 34 p = bpf_htons (tc_local_port c)" "ld16 36 p = bpf_htons (tc_remote_port c)"
    "ld32 38 p = bpf_htonl (tc_local_seq c)" "ld32 42 p = bpf_htonl (tc_remote_seq c)"
    "ld16 46 p = bpf_htons (0x9000 OR flags)"
    "ld8 54 p = 2" "ld8 55 p = 4" "ld8 58 p = 8" "ld8 59 p = 10" "ld8 68 p = 0" "ld32 60 p = 0" "ld32 64 p = bpf_htonl ts"
  unfolding p_def control_segment_def Let_def
  by (simp_all add: mem_simps)

lemma control_segment_parses:
  fixes env :: ctl_env and c :: tcp_connection and ts :: u32 and flags :: u16
  assumes "flags \<le> 0x1ff"
  defines "p \<equiv> control_segment env c flags True ts TCP_MSS"
  shows "tcph_flags p = flags" "parse_tcp_opts p = Inr (Some \<lparr>op_mss = Some 54, op_ts = Some 58\<rparr>)"
    "opt_ts_val p 58 = 0"
proof -
  note f = control_segment_fields [of env c flags ts, folded p_def]
  show "tcph_flags p = flags" by (simp add: tcph_flags_def f hdrlen_flags [OF assms(1)])
  have h: "tcph_hdrlen p = 9" unfolding tcph_hdrlen_def f bswap16_bswap16 by (rule hdrlen_flags(2) [OF assms(1)])
  show "parse_tcp_opts p = Inr (Some \<lparr>op_mss = Some 54, op_ts = Some 58\<rparr>)"
    by (simp add: parse_tcp_opts_def h f parse_opts_loop.simps [of p 16])
  show "opt_ts_val p 58 = 0" by (simp add: opt_ts_val_def f bswap32_def bswap16_def)
qed

section \<open>The steps of the handshake\<close>

lemma reg_slowpath_simps [simp]:
  "k_conns (reg_tcp_conn_slowpath i c k) = k_conns k" "k_lsts (reg_tcp_conn_slowpath i c k) = k_lsts k"
  "k_handshake (reg_tcp_conn_slowpath i c k) = k_handshake k" "k_avail_cc (reg_tcp_conn_slowpath i c k) = k_avail_cc k"
  "k_bpf (reg_tcp_conn_slowpath i c k) = k_bpf k" "k_sent (reg_tcp_conn_slowpath i c k) = k_sent k"
  by (simp_all add: reg_tcp_conn_slowpath_def)

lemma client_sends_syn:
  assumes "net_ok env" "k_handshake k = [j]" "k_conns k j = Some c" "tc_status c = CONN_WAIT_TX_SYN"
  defines "c' \<equiv> c\<lparr>tc_status := CONN_WAIT_RX_SYNACK,
    tc_next_timeout_tsc := ke_cycles env + ke_us_to_cycles env HANDSHAKE_US\<rparr>"
  shows "\<exists>q k'. poll_tcp_handshake_events env k = Inr (1, k')
      \<and> k_sent k' = k_sent k @ [(q, False, control_segment env c' (TCP_SYN OR TCP_ECE OR TCP_CWR) True 0 TCP_MSS)]
      \<and> k_conns k' = (k_conns k)(j \<mapsto> c') \<and> k_connections k' = k_connections k \<and> k_avail_cc k' = k_avail_cc k
      \<and> k_bpf k' = k_bpf k"
proof -
  let ?k = "put_kconn j c' (k\<lparr>k_handshake := []\<rparr>)"
  obtain q where q: "k_sent (send_tcp_control env c' (TCP_SYN OR TCP_ECE OR TCP_CWR) True 0 TCP_MSS ?k)
      = k_sent ?k @ [(q, False, control_segment env c' (TCP_SYN OR TCP_ECE OR TCP_CWR) True 0 TCP_MSS)]"
    using control_sent [OF assms(1)] by blast
  show ?thesis
    using assms(2-4) q
    by (auto simp: poll_tcp_handshake_events_def handshake_event_def Let_def c'_def)
qed

lemma server_takes_syn:
  fixes envC :: ctl_env and c :: tcp_connection
  defines "syn \<equiv> control_segment envC c (TCP_SYN OR TCP_ECE OR TCP_CWR) True 0 TCP_MSS"
  assumes "net_ok env" "tcp_conn_lookup syn k = None" "tcp_listener_lookup syn k = Some li"
    and "k_lsts k li = Some l" "tl_pending l = Some i" "tl_backlog l = []" "0 < tl_max_backlog l"
    and "k_conns k i = Some s" "tl_port l = tc_remote_port c" "ke_local_ip env = tc_remote_ip c"
    and "k_avail_cc k = idx # is"
  shows "\<exists>k' s'. tcp_packet env app syn q k = Inr (True, k')
      \<and> k_conns k' i = Some ((start_cc idx 463360 s')\<lparr>tc_status := CONN_WAIT_TX_SYNACK, tc_listen_fd := tl_fd l\<rparr>)
      \<and> conn_map (k_bpf k') (conn_key s') = Some (ebpf_entry env s' True idx 463360)
      \<and> tc_local_ip s' = tc_remote_ip c \<and> tc_remote_ip s' = tc_local_ip c
      \<and> tc_local_port s' = tc_remote_port c \<and> tc_remote_port s' = tc_local_port c
      \<and> tc_local_seq s' = 1 \<and> tc_remote_seq s' = tc_local_seq c + 1 \<and> tc_flags s' = tc_flags s OR ECN_ENABLE
      \<and> tc_listener s' = tc_listener s \<and> k_lsts k' li = Some (l\<lparr>tl_pending := None\<rparr>)
      \<and> k_handshake k' = k_handshake k @ [i] \<and> k_sent k' = k_sent k"
proof -
  note f = control_segment_fields [of envC c "TCP_SYN OR TCP_ECE OR TCP_CWR" 0, folded syn_def]
  have le: "TCP_SYN OR TCP_ECE OR TCP_CWR \<le> (0x1ff :: u16)" by simp
  note g = control_segment_parses [OF le, of envC c 0, folded syn_def]
  let ?slot = "\<lparr>bs_pkt = syn, bs_len = 70, bs_qid = q\<rparr>"
  define k1 where "k1 = notify_app_tcp_event_newconn env (tl_tctx l) (tl_opaque l) (tl_fd l)
    (tc_local_ip c) (tc_local_port c) (put_listener li (l\<lparr>tl_backlog := [?slot]\<rparr>) k)"
  have len: "(14 + bpf_ntohs (ld16 16 syn) :: u16) = 70" by (simp add: f)
  have pkt: "tcp_packet env app syn q k = andthen (tcp_listener_accept env li k1) (\<lambda>k. Inr (True, k))"
    using assms(3-8) by (simp add: tcp_packet_def tcp_listener_pkt_def Let_def len g f k1_def word_less_nat_alt)
  define s1 where "s1 = s\<lparr>tc_qid := q, tc_local_mac := take 6 syn, tc_remote_mac := take 6 (drop 6 syn),
    tc_remote_ip := tc_local_ip c, tc_remote_port := tc_local_port c, tc_local_ip := ke_local_ip env,
    tc_local_port := tl_port l, tc_remote_seq := tc_local_seq c + 1, tc_local_seq := 1, tc_syn_ts := 0,
    tc_flags := tc_flags s OR ECN_ENABLE\<rparr>"
  let ?k2 = "put_kconn i s1 (put_listener li (l\<lparr>tl_backlog := []\<rparr>) k1)"
  have av: "k_avail_cc ?k2 = idx # is" using assms(12) by (simp add: k1_def notify_defs)
  obtain k3 where r: "reg_tcp_conn_ebpf env i s1 True ?k2 = Inr (True, k3)"
      "k_conns k3 = (k_conns ?k2)(i \<mapsto> start_cc idx 463360 s1)"
      "conn_map (k_bpf k3) = (conn_map (k_bpf ?k2))(conn_key s1 \<mapsto> ebpf_entry env s1 True idx 463360)"
      "k_lsts k3 = k_lsts ?k2" "k_connections k3 = k_connections ?k2" "k_handshake k3 = k_handshake ?k2"
      "k_sent k3 = k_sent ?k2"
    using reg_ebpf_success [OF assms(2) av, of i s1 True] by blast
  let ?s2 = "start_cc idx 463360 s1"
  have l0: "l\<lparr>tl_backlog := [], tl_pending := None\<rparr> = l\<lparr>tl_pending := None\<rparr>" using assms(7) by (cases l) simp
  have acc: "tcp_listener_accept env li k1 = Inr (let k = reg_tcp_conn_slowpath i ?s2 k3;
      k = put_kconn i (?s2\<lparr>tc_status := CONN_WAIT_TX_SYNACK, tc_listen_fd := tl_fd l\<rparr>) k;
      k = put_listener li (l\<lparr>tl_backlog := [], tl_pending := None\<rparr>) k in k\<lparr>k_handshake := k_handshake k @ [i]\<rparr>)"
    using assms(5,6,9) r(1,2)
    by (simp add: tcp_listener_accept_def k1_def notify_defs g f s1_def [symmetric] Let_def)
  show ?thesis unfolding pkt acc l0 using r assms(10,11)
    by (auto simp: Let_def s1_def k1_def notify_defs conn_key_def)
qed

lemma server_sends_synack:
  assumes "net_ok env" "k_handshake k = [i]" "k_conns k i = Some s" "tc_status s = CONN_WAIT_TX_SYNACK"
    and "tc_listener s = Some li" "k_lsts k li = Some l" "tc_flags s AND ECN_ENABLE \<noteq> 0"
  shows "\<exists>q k'. poll_tcp_handshake_events env k = Inr (1, k')
      \<and> k_sent k' = k_sent k @ [(q, False, control_segment env (s\<lparr>tc_status := CONN_OPEN\<rparr>)
          (TCP_SYN OR TCP_ACK OR TCP_ECE) True (tc_syn_ts s) TCP_MSS)]
      \<and> k_conns k' = (k_conns k)(i \<mapsto> s\<lparr>tc_status := CONN_OPEN\<rparr>) \<and> k_bpf k' = k_bpf k"
proof -
  let ?s = "s\<lparr>tc_status := CONN_OPEN\<rparr>" and ?f = "TCP_SYN OR TCP_ACK OR TCP_ECE"
  let ?k = "put_kconn i ?s (k\<lparr>k_handshake := []\<rparr>)"
  obtain q where q: "k_sent (send_tcp_control env ?s ?f True (tc_syn_ts s) TCP_MSS ?k)
      = k_sent ?k @ [(q, False, control_segment env ?s ?f True (tc_syn_ts s) TCP_MSS)]"
    using control_sent [OF assms(1)] by blast
  show ?thesis
    using assms(2-7) q
    by (auto simp: poll_tcp_handshake_events_def handshake_event_def Let_def notify_defs)
qed

lemma client_takes_synack:
  fixes envS :: ctl_env and s :: tcp_connection and ts :: u32
  defines "synack \<equiv> control_segment envS s (TCP_SYN OR TCP_ACK OR TCP_ECE) True ts TCP_MSS"
  assumes "net_ok env" "k_conns k j = Some c" "tc_status c = CONN_WAIT_RX_SYNACK"
    and "map_of (k_connections k) (conn_tuple c) = Some j" "k_avail_cc k = idx # is"
    and "tc_local_ip s = tc_remote_ip c" "tc_remote_ip s = tc_local_ip c"
    and "tc_local_port s = tc_remote_port c" "tc_remote_port s = tc_local_port c"
  shows "\<exists>k' c'. tcp_packet env app synack q k = Inr (True, k')
      \<and> k_conns k' j = Some ((start_cc idx 463360 c')\<lparr>tc_status := CONN_OPEN\<rparr>)
      \<and> conn_map (k_bpf k') (conn_key c) = Some (ebpf_entry env c' False idx 463360)
      \<and> tc_local_seq c' = tc_remote_seq s \<and> tc_remote_seq c' = tc_local_seq s + 1
      \<and> tc_flags c' = tc_flags c OR ECN_ENABLE \<and> conn_key c' = conn_key c"
proof -
  note f = control_segment_fields [of envS s "TCP_SYN OR TCP_ACK OR TCP_ECE" ts, folded synack_def]
  have le: "TCP_SYN OR TCP_ACK OR TCP_ECE \<le> (0x1ff :: u16)" by simp
  note g = control_segment_parses [OF le, of envS s ts, folded synack_def]
  have look: "tcp_conn_lookup synack k = Some j"
    using assms(5,7-10) by (simp add: tcp_conn_lookup_def pkt_tuple_def conn_tuple_def f)
  define c1 where "c1 = c\<lparr>tc_qid := q, tc_next_timeout_tsc := 0, tc_local_mac := take 6 synack,
    tc_remote_mac := take 6 (drop 6 synack), tc_remote_seq := tc_local_seq s + 1, tc_local_seq := tc_remote_seq s,
    tc_syn_ts := 0, tc_flags := tc_flags c OR ECN_ENABLE\<rparr>"
  let ?k2 = "put_kconn j c1 (put_kconn j (c\<lparr>tc_qid := q\<rparr>) k)"
  have av: "k_avail_cc ?k2 = idx # is" using assms(6) by simp
  obtain k3 where r: "reg_tcp_conn_ebpf env j c1 False ?k2 = Inr (True, k3)"
      "k_conns k3 = (k_conns ?k2)(j \<mapsto> start_cc idx 463360 c1)"
      "conn_map (k_bpf k3) = (conn_map (k_bpf ?k2))(conn_key c1 \<mapsto> ebpf_entry env c1 False idx 463360)"
    using reg_ebpf_success [OF assms(2) av, of j c1 False] by blast
  let ?c2 = "(start_cc idx 463360 c1)\<lparr>tc_status := CONN_OPEN\<rparr>"
  have "tcp_packet env app synack q k = Inr (True, send_tcp_control env ?c2 TCP_ACK True (tc_syn_ts ?c2) 0
      (notify_app_tcp_conn_open env (tc_tctx ?c2) (tc_opaque ?c2) (tc_fd ?c2) 1 ?c2 (put_kconn j ?c2 k3)))"
    using assms(3,4) r(1,2) look
    by (simp add: tcp_packet_def g f tcp_connection_pkt_def tcp_synack_pkt_def Let_def c1_def [symmetric])
  moreover have "conn_key c1 = conn_key c" by (simp add: c1_def conn_key_def)
  ultimately show ?thesis using r(2,3) by (auto simp: notify_defs c1_def)
qed

section \<open>Agreement of the two ends\<close>

definition peer_key :: "ebpf_flow_tuple \<Rightarrow> ebpf_flow_tuple" where
  "peer_key f = \<lparr> ft_local_ip = ft_remote_ip f, ft_remote_ip = ft_local_ip f,
     ft_local_port = ft_remote_port f, ft_remote_port = ft_local_port f \<rparr>"

definition peer_tuple :: "tcp_connection \<Rightarrow> flow_tuple" where
  "peer_tuple c = \<lparr> fl_remote_ip = tc_local_ip c, fl_remote_port = tc_local_port c,
     fl_local_ip = tc_remote_ip c, fl_local_port = tc_remote_port c \<rparr>"

text \<open>What the two entries of a connection have to agree on before the first data segment.\<close>

definition in_sync :: "bpf_tcp_conn \<Rightarrow> bpf_tcp_conn \<Rightarrow> bool" where
  "in_sync a b = (flow_key b = peer_key (flow_key a)
     \<and> tx_next_seq a = rx_next_seq b \<and> rx_next_seq a = tx_next_seq b
     \<and> send_una a = recv_next b \<and> send_una b = recv_next a
     \<and> buf_curr_seq a = recv_init_seq b \<and> buf_curr_seq b = recv_init_seq a
     \<and> ecn_enable a = 1 \<and> ecn_enable b = 1)"

lemma entries_in_sync:
  assumes "conn_key s = peer_key (conn_key c)" "tc_local_seq s = 1" "tc_local_seq c' = tc_remote_seq s"
    and "tc_remote_seq c' = tc_local_seq s + 1" "conn_key c' = conn_key c"
    and "tc_flags s = fs OR ECN_ENABLE" "tc_flags c' = fc OR ECN_ENABLE"
  shows "in_sync (ebpf_entry envC c' False ci r) (ebpf_entry envS s True si r')"
proof -
  have b: "(f OR ECN_ENABLE) AND ECN_ENABLE = (ECN_ENABLE :: u32)" for f by (simp add: bit.conj_disj_distrib2)
  have k: "flow_key (ebpf_entry env d m x y) = conn_key d" for env d m x y
    by (simp add: flow_key_def ebpf_entry_def conn_key_def Let_def)
  show ?thesis using assms unfolding in_sync_def k by (simp add: ebpf_entry_def Let_def b)
qed


text \<open>A client at 10.0.0.1 that opens a connection to a server at 10.0.0.2, port 2000.\<close>

definition demo_env :: "u32 \<Rightarrow> ctl_env" where
  "demo_env ip = \<lparr> ke_local_ip = ip, ke_rx_buf = 65536, ke_tx_buf = 65536, ke_actx = (\<lambda>_. 0), ke_is_tcp = (\<lambda>_. True),
     ke_nic_qid = (\<lambda>_. [0]), ke_xsk_keys = (\<lambda>_. [5]), ke_map_ok = True, ke_rule_id = None, ke_hash = (\<lambda>_. 0),
     ke_ring_free = 2048, ke_buf_ok = True, ke_chan_ok = (\<lambda>_. True), ke_heap_addr = 0, ke_heap_tail = replicate 512 0,
     ke_cycles = 1000, ke_us_to_cycles = (\<lambda>x. x), ke_cycles_to_us = ucast \<rparr>"

definition small_ctl :: ctl_state where
  "small_ctl = empty_ctl [3] [1000, 2000]"

definition demo_client :: ctl_state where
  "demo_client = (case process_tcp_cmd (demo_env 0x0a000001) 0 (APPOUT_TCP_OPEN 77 4 0x0a000002 2000) small_ctl of
     Inr k \<Rightarrow> k)"

fun run_cmds :: "ctl_env \<Rightarrow> tcp_cmd list \<Rightarrow> ctl_state \<Rightarrow> ctl_error + ctl_state" where
  "run_cmds env [] k = Inr k"
| "run_cmds env (a # as) k = andthen (process_tcp_cmd env 0 a k) (run_cmds env as)"

definition demo_server :: ctl_state where
  "demo_server = (case run_cmds (demo_env 0x0a000002)
       [APPOUT_TCP_BIND 88 5 False 2000, APPOUT_TCP_LISTEN 88 99 5 16, APPOUT_TCP_ACCEPT 99 100 5 6 2000] small_ctl of
     Inr k \<Rightarrow> k)"

lemmas demo_eval = small_ctl_def empty_ctl_def demo_env_def find_tcp_conn_slowpath_def alloc_port_def alloc_port_at_def
  tcp_open_def tcp_bind_def tcp_listen_def tcp_accept_def start_open_def record_port_def reg_tcp_conn_slowpath_def
  opened_conn_def accepted_conn_def add_listener_def notify_defs notify_def put_kconn_def put_listener_def
  get_conn_def get_listener_def conn_tuple_def peer_tuple_def new_connection_def Let_def

lemma demo_client_state:
  "k_handshake demo_client = [0]" "k_avail_cc demo_client = [3]"
  "\<exists>c. k_conns demo_client 0 = Some c \<and> tc_status c = CONN_WAIT_TX_SYN
     \<and> map_of (k_connections demo_client) (conn_tuple c) = Some 0
     \<and> tc_remote_ip c = 0x0a000002 \<and> tc_remote_port c = 2000 \<and> tc_local_ip c = 0x0a000001 \<and> tc_local_port c = 1000"
  by (simp_all add: demo_client_def demo_eval)

lemma demo_server_state:
  "k_handshake demo_server = []" "k_avail_cc demo_server = [3]"
  "map_of (k_connections demo_server) \<lparr> fl_remote_ip = 0x0a000001, fl_remote_port = 1000, fl_local_ip = 0x0a000002,
     fl_local_port = 2000 \<rparr> = None"
  "map_of (k_listeners demo_server) (0x0a000002, 2000) = Some [1]"
  "\<exists>l. k_lsts demo_server 1 = Some l \<and> tl_pending l = Some 2 \<and> tl_backlog l = [] \<and> tl_max_backlog l = 16 \<and> tl_port l = 2000"
  "\<exists>s. k_conns demo_server 2 = Some s \<and> tc_listener s = Some 1"
  by (simp_all add: demo_server_def demo_eval)


end
