(* ===== verification/Id_Pool.thy ===== *)
theory Id_Pool
  imports Main "HOL-Library.Multiset"
begin

text \<open>
  The contract of a pool of identifiers: what the ports of the control plane and the
  congestion-control indices of the data path have in common.  A provider promises
  what a request takes out of the list of available identifiers and what a release
  puts back; from that follows, for every sequence of requests and of releases by
  holders, that no identifier is held twice and none is lost.
\<close>

datatype 'i pool_op = Take | Take_At 'i | Give 'i

fun run_pool ::
  "('s \<Rightarrow> ('i \<times> 's) option) \<Rightarrow> ('i \<Rightarrow> 's \<Rightarrow> 's option) \<Rightarrow> ('i \<Rightarrow> 's \<Rightarrow> 's) \<Rightarrow> 'i pool_op list \<Rightarrow> 's \<times> 'i list \<Rightarrow> 's \<times> 'i list" where
  "run_pool get get_at give [] (s, held) = (s, held)"
| "run_pool get get_at give (Take # ops) (s, held) =
    (case get s of None \<Rightarrow> run_pool get get_at give ops (s, held)
     | Some (i, s') \<Rightarrow> run_pool get get_at give ops (s', i # held))"
| "run_pool get get_at give (Take_At i # ops) (s, held) =
    (case get_at i s of None \<Rightarrow> run_pool get get_at give ops (s, held)
     | Some s' \<Rightarrow> run_pool get get_at give ops (s', i # held))"
| "run_pool get get_at give (Give i # ops) (s, held) =
    (if i \<in> set held then run_pool get get_at give ops (give i s, remove1 i held)
     else run_pool get get_at give ops (s, held))"

locale id_pool =
  fixes avail :: "'s \<Rightarrow> 'i list" and inv :: "'s \<Rightarrow> bool" and valid :: "'i \<Rightarrow> bool"
    and get :: "'s \<Rightarrow> ('i \<times> 's) option" and get_at :: "'i \<Rightarrow> 's \<Rightarrow> 's option" and give :: "'i \<Rightarrow> 's \<Rightarrow> 's"
  assumes inv_distinct: "inv s \<Longrightarrow> distinct (avail s)"
    and inv_valid: "inv s \<Longrightarrow> i \<in> set (avail s) \<Longrightarrow> valid i"
    and get_none: "inv s \<Longrightarrow> get s = None \<Longrightarrow> avail s = []"
    and get_some: "inv s \<Longrightarrow> get s = Some (i, s') \<Longrightarrow> avail s = i # avail s' \<and> inv s'"
    and get_at_some: "inv s \<Longrightarrow> get_at i s = Some s' \<Longrightarrow> i \<in> set (avail s) \<and> avail s' = remove1 i (avail s) \<and> inv s'"
    and give_back: "inv s \<Longrightarrow> valid i \<Longrightarrow> i \<notin> set (avail s) \<Longrightarrow> avail (give i s) = avail s @ [i] \<and> inv (give i s)"
begin

text \<open>Everything is available or held, once.\<close>

lemma run_pool_conserves:
  assumes "run_pool get get_at give ops (s, held) = (s', held')" and "inv s" and "distinct (avail s @ held)"
    and "\<forall>i\<in>set held. valid i"
  shows "inv s' \<and> distinct (avail s' @ held') \<and> mset (avail s' @ held') = mset (avail s @ held)"
  using assms
proof (induction ops arbitrary: s held)
  case (Cons op ops)
  have step: "?case" if "run_pool get get_at give ops (t, h) = (s', held')" "inv t" "mset (avail t @ h) = mset (avail s @ held)" for t h
  proof -
    have "distinct (avail t @ h)" using Cons.prems(3) that(3) mset_eq_imp_distinct_iff by blast
    moreover have "set h \<subseteq> set (avail s) \<union> set held" using mset_eq_setD [OF that(3)] by auto
    then have "\<forall>i\<in>set h. valid i" using Cons.prems(2,4) inv_valid by blast
    ultimately show ?thesis using Cons.IH [OF that(1,2)] that(3) by simp
  qed
  show ?case
  proof (cases op)
    case Take
    show ?thesis
    proof (cases "get s")
      case None
      then show ?thesis using Cons.prems Take by (intro step [of s held]) simp_all
    next
      case (Some x)
      then obtain i t where x: "get s = Some (i, t)" by (cases x) simp
      show ?thesis using Cons.prems Take x get_some [OF Cons.prems(2) x] by (intro step [of t "i # held"]) simp_all
    qed
  next
    case (Take_At i)
    show ?thesis
    proof (cases "get_at i s")
      case None
      then show ?thesis using Cons.prems Take_At by (intro step [of s held]) simp_all
    next
      case (Some t)
      show ?thesis using Cons.prems Take_At Some get_at_some [OF Cons.prems(2) Some]
        by (intro step [of t "i # held"]) simp_all
    qed
  next
    case (Give i)
    show ?thesis
    proof (cases "i \<in> set held")
      case True
      then have "valid i" "i \<notin> set (avail s)" using Cons.prems(3,4) by auto
      then show ?thesis using Cons.prems Give True give_back [OF Cons.prems(2)]
        by (intro step [of "give i s" "remove1 i held"]) simp_all
    next
      case False
      then show ?thesis using Cons.prems Give by (intro step [of s held]) simp_all
    qed
  qed
qed simp

end

end
