(* ===== verification/Ctl_Safety.thy ===== *)
theory Ctl_Safety
  imports Handshake Id_Pool
begin

text \<open>
  Resources of the control plane: ports and congestion-control indices as pools of
  identifiers, the registration of connections with the data path, and the two ways
  a packet or an application can make the control plane touch memory it does not own.
\<close>

section \<open>The pool of ports\<close>

definition ports_wf :: "ctl_state \<Rightarrow> bool" where
  "ports_wf k = (distinct (k_avail_ports k) \<and> (\<forall>p. k_port_ok k p = (p \<in> set (k_avail_ports k)))
     \<and> (\<forall>p\<in>set (k_avail_ports k). PORT_MIN \<le> p \<and> p \<le> PORT_MAX))"

definition port_get :: "ctl_state \<Rightarrow> (u16 \<times> ctl_state) option" where
  "port_get k = (case alloc_port k of Inr (Some p, k') \<Rightarrow> Some (p, k') | _ \<Rightarrow> None)"

definition port_get_at :: "u16 \<Rightarrow> ctl_state \<Rightarrow> ctl_state option" where
  "port_get_at p k = (case alloc_port_at p k of (True, k') \<Rightarrow> Some k' | _ \<Rightarrow> None)"

interpretation port_pool: id_pool k_avail_ports ports_wf "\<lambda>p. PORT_MIN \<le> p \<and> p \<le> PORT_MAX"
  port_get port_get_at free_port
proof
  fix s s' i
  assume wf: "ports_wf s"
  show "distinct (k_avail_ports s)" using wf by (simp add: ports_wf_def)
  show "i \<in> set (k_avail_ports s) \<Longrightarrow> PORT_MIN \<le> i \<and> i \<le> PORT_MAX" using wf by (simp add: ports_wf_def)
  show "port_get s = None \<Longrightarrow> k_avail_ports s = []"
    using wf by (auto simp: port_get_def alloc_port_def ports_wf_def split: list.splits)
  show "port_get s = Some (i, s') \<Longrightarrow> k_avail_ports s = i # k_avail_ports s' \<and> ports_wf s'"
    using wf by (auto simp: port_get_def alloc_port_def ports_wf_def split: list.splits if_splits)
  show "port_get_at i s = Some s' \<Longrightarrow> i \<in> set (k_avail_ports s) \<and> k_avail_ports s' = remove1 i (k_avail_ports s) \<and> ports_wf s'"
    using wf by (auto simp: port_get_at_def alloc_port_at_def ports_wf_def distinct_remove1_removeAll distinct_removeAll split: if_splits bool.splits)
  show "PORT_MIN \<le> i \<and> i \<le> PORT_MAX \<Longrightarrow> i \<notin> set (k_avail_ports s) \<Longrightarrow>
      k_avail_ports (free_port i s) = k_avail_ports s @ [i] \<and> ports_wf (free_port i s)"
    using wf by (auto simp: free_port_def ports_wf_def)
qed

lemma of_nat_range:
  fixes dummy :: "'a::len word"
  assumes "b \<le> 2 ^ LENGTH('a)"
  shows "set (map of_nat [a..<b]) = {w :: 'a word. a \<le> unat w \<and> unat w < b}"
    and "distinct (map of_nat [a..<b] :: 'a word list)"
proof -
  have u: "unat (of_nat n :: 'a word) = n" if "n < b" for n
    using that assms by (simp add: unat_of_nat)
  have "w \<in> of_nat ` {a..<b}" if "a \<le> unat w" "unat w < b" for w :: "'a word"
    using that by (intro image_eqI [of _ _ "unat w"]) simp_all
  then show "set (map of_nat [a..<b]) = {w :: 'a word. a \<le> unat w \<and> unat w < b}"
    using u by auto
  have "inj_on (of_nat :: nat \<Rightarrow> 'a word) {a..<b}" by (rule inj_on_inverseI [of _ unat]) (use u in auto)
  then show "distinct (map of_nat [a..<b] :: 'a word list)" by (simp add: distinct_map)
qed

lemma init_ports_wf: "ports_wf init_ctl" "set (k_avail_ports init_ctl) = {p. PORT_MIN \<le> p \<and> p \<le> PORT_MAX}"
proof -
  have b: "60001 \<le> (2::nat) ^ LENGTH(16)" by simp
  have a: "k_avail_ports init_ctl = map of_nat [1000..<60001]" "k_port_ok init_ctl = (\<lambda>p. p \<in> set (k_avail_ports init_ctl))"
    unfolding init_ctl_def empty_ctl_def ctl_state.select_convs by (rule refl)+
  show s: "set (k_avail_ports init_ctl) = {p. PORT_MIN \<le> p \<and> p \<le> PORT_MAX}"
    unfolding a(1) of_nat_range(1) [OF b] by (auto simp: word_le_nat_alt)
  have "distinct (k_avail_ports init_ctl)" unfolding a(1) by (rule of_nat_range(2) [OF b])
  then show "ports_wf init_ctl" using s a(2) by (simp add: ports_wf_def)
qed

text \<open>C13: over every sequence of port requests (any port, or one chosen by \<open>bind\<close>) and of
  releases by holders, from start-up, no port is held twice or both held and available,
  no port between 1000 and 60000 is lost, and no other port is ever handed out.\<close>

theorem ports_never_shared:
  "case run_pool port_get port_get_at free_port ops (init_ctl, []) of
     (k, held) \<Rightarrow> distinct (k_avail_ports k @ held)
       \<and> set (k_avail_ports k) \<union> set held = {p. PORT_MIN \<le> p \<and> p \<le> PORT_MAX}"
proof -
  obtain k held where r: "run_pool port_get port_get_at free_port ops (init_ctl, []) = (k, held)" by fastforce
  have "distinct (k_avail_ports init_ctl @ [])" using init_ports_wf(1) by (simp add: ports_wf_def)
  note c = port_pool.run_pool_conserves [OF r init_ports_wf(1) this]
  then have "set (k_avail_ports k @ held) = set (k_avail_ports init_ctl)"
    by (metis append_Nil2 empty_iff list.set(1) mset_eq_setD)
  then show ?thesis unfolding r using c init_ports_wf(2) by simp
qed

section \<open>The pool of congestion-control indices\<close>

definition cc_list_wf :: "ctl_state \<Rightarrow> bool" where
  "cc_list_wf k = (distinct (k_avail_cc k) \<and> (\<forall>i\<in>set (k_avail_cc k). i < MAX_TCP_FLOWS))"

interpretation cc_pool: id_pool k_avail_cc cc_list_wf "\<lambda>i. i < MAX_TCP_FLOWS" alloc_cc_idx "\<lambda>_ _. None" free_cc_idx
  by unfold_locales
    (auto simp: cc_list_wf_def alloc_cc_idx_def free_cc_idx_def split: list.splits)

text \<open>The indices of registered connections.\<close>

definition used_cc :: "ctl_state \<Rightarrow> u32 set" where
  "used_cc k = {cc_idx e | f e. conn_map (k_bpf k) f = Some e}"

definition idx_wf :: "ctl_state \<Rightarrow> bool" where
  "idx_wf k \<longleftrightarrow> cc_list_wf k \<and> set (k_avail_cc k) \<inter> used_cc k = {}
     \<and> set (k_avail_cc k) \<union> used_cc k = {i. i < MAX_TCP_FLOWS}
     \<and> (\<forall>f g e e'. conn_map (k_bpf k) f = Some e \<longrightarrow> conn_map (k_bpf k) g = Some e' \<longrightarrow> cc_idx e = cc_idx e' \<longrightarrow> f = g)"

text \<open>Registrations of new flows, successful or not, and removals of registered ones.\<close>

inductive reg_run :: "ctl_state \<Rightarrow> bool" where
  reg_start: "reg_run init_ctl"
| reg_add: "reg_run k \<Longrightarrow> conn_map (k_bpf k) (conn_key c) = None \<Longrightarrow>
    reg_tcp_conn_ebpf env i c listen k = Inr (ok, k') \<Longrightarrow> reg_run k'"
| reg_del: "reg_run k \<Longrightarrow> conn_map (k_bpf k) (conn_key c) = Some e \<Longrightarrow> reg_run (unreg_tcp_conn_ebpf c k)"

lemma used_cc_put:
  assumes "conn_map (k_bpf k') = (conn_map (k_bpf k))(f \<mapsto> e)" "conn_map (k_bpf k) f = None"
  shows "used_cc k' = insert (cc_idx e) (used_cc k)"
  using assms by (auto simp: used_cc_def split: if_splits) (metis option.distinct(1))

lemma idx_wf_add:
  assumes "idx_wf k" "conn_map (k_bpf k) (conn_key c) = None" "reg_tcp_conn_ebpf env i c listen k = Inr (ok, k')"
  shows "idx_wf k'"
proof (cases "k_avail_cc k")
  case Nil
  then have "k' = k" using assms(3) by (simp add: reg_tcp_conn_ebpf_def alloc_cc_idx_def)
  then show ?thesis using assms(1) by simp
next
  case (Cons idx rest)
  have eq: "cc_idx (ebpf_entry env c listen idx r) = idx" for r by (simp add: ebpf_entry_def Let_def)
  show ?thesis
  proof (cases "ke_map_ok env")
    case False
    then have "k_avail_cc k' = rest @ [idx]" "conn_map (k_bpf k') = conn_map (k_bpf k)"
      using assms(3) Cons unfolding reg_tcp_conn_ebpf_def initial_rate
      by (auto simp: alloc_cc_idx_def free_cc_idx_def Let_def)
    then show ?thesis using assms(1) Cons by (auto simp: idx_wf_def cc_list_wf_def used_cc_def)
  next
    case True
    then have k': "k_avail_cc k' = rest"
        "conn_map (k_bpf k') = (conn_map (k_bpf k))(conn_key c \<mapsto> ebpf_entry env c listen idx 463360)"
      using assms(3) Cons unfolding reg_tcp_conn_ebpf_def initial_rate
      by (auto simp: alloc_cc_idx_def Let_def)
    have u: "used_cc k' = insert idx (used_cc k)" using used_cc_put [OF k'(2) assms(2)] eq by simp
    have n: "idx \<notin> used_cc k" using assms(1) Cons by (auto simp: idx_wf_def)
    have inj: "f = g" if "conn_map (k_bpf k') f = Some e" "conn_map (k_bpf k') g = Some e'" "cc_idx e = cc_idx e'" for f g e e'
      using that assms(1) n eq unfolding k'(2) idx_wf_def used_cc_def
      by (auto split: if_splits)
    then show ?thesis using assms(1) Cons u n k'(1) unfolding idx_wf_def cc_list_wf_def by auto
  qed
qed

lemma idx_wf_del:
  assumes "idx_wf k" "conn_map (k_bpf k) (conn_key c) = Some e"
  shows "idx_wf (unreg_tcp_conn_ebpf c k)"
proof -
  let ?k = "unreg_tcp_conn_ebpf c k"
  have k: "k_avail_cc ?k = k_avail_cc k @ [cc_idx e]" "conn_map (k_bpf ?k) = (conn_map (k_bpf k))(conn_key c := None)"
    using assms(2) by (simp_all add: unreg_tcp_conn_ebpf_def free_cc_idx_def Let_def)
  have inj: "f = g" if "conn_map (k_bpf k) f = Some d" "conn_map (k_bpf k) g = Some d'" "cc_idx d = cc_idx d'" for f g d d'
    using assms(1) that unfolding idx_wf_def by blast
  have "used_cc k = insert (cc_idx e) (used_cc ?k)" "cc_idx e \<notin> used_cc ?k"
    using assms(2) inj unfolding used_cc_def k(2) by (auto split: if_splits) (metis option.inject)
  moreover have "f = g" if "conn_map (k_bpf ?k) f = Some d" "conn_map (k_bpf ?k) g = Some d'" "cc_idx d = cc_idx d'" for f g d d'
    using that inj unfolding k(2) by (auto split: if_splits)
  ultimately show ?thesis using assms(1) k(1) unfolding idx_wf_def cc_list_wf_def by auto
qed

lemma idx_wf_init: "idx_wf init_ctl"
proof -
  have b: "65536 \<le> (2::nat) ^ LENGTH(32)" by simp
  have a: "k_avail_cc init_ctl = map of_nat [0..<65536]" "k_bpf init_ctl = init_state"
    unfolding init_ctl_def empty_ctl_def ctl_state.select_convs by (rule refl)+
  have s: "set (k_avail_cc init_ctl) = {i. i < MAX_TCP_FLOWS}"
    unfolding a(1) of_nat_range(1) [OF b] by (auto simp: word_less_nat_alt)
  have "distinct (k_avail_cc init_ctl)" unfolding a(1) by (rule of_nat_range(2) [OF b])
  then show ?thesis using s unfolding idx_wf_def cc_list_wf_def used_cc_def a(2) by (simp add: init_state_def)
qed


lemma cc_first_index: "k_avail_cc init_ctl = 0 # map of_nat [1..<65536]"
  unfolding init_ctl_def empty_ctl_def ctl_state.select_convs
  by (subst upt_conv_Cons) (simp_all only: list.map semiring_1_class.of_nat_0 One_nat_def zero_less_numeral)


section \<open>Memory the control plane does not own\<close>

text \<open>
  A SYN for a listener whose IP header announces more than 242 bytes is copied into a
  backlog slot of 256 bytes without a check.
\<close>

lemma oversized_syn_overflows:
  assumes "parse_tcp_opts p = Inr (Some opts)" "tcp_conn_lookup p k = None" "tcp_listener_lookup p k = Some li"
    and "k_lsts k li = Some l" "tcph_flags p AND NOT (TCP_ECE OR TCP_CWR) = TCP_SYN"
    and "length (tl_backlog l) < unat (tl_max_backlog l)" "\<not> list_ex (\<lambda>slot. same_flow (bs_pkt slot) p) (tl_backlog l)"
    and "14 + bpf_ntohs (ld16 16 p) > 256"
  shows "tcp_packet env app p q k = Inl Out_Of_Bounds"
  using assms by (simp add: tcp_packet_def tcp_listener_pkt_def Let_def)

lemma port_ops_simps [simp]:
  "k_conns (free_port p k) = k_conns k" "k_handshake (free_port p k) = k_handshake k"
  "k_connections (free_port p k) = k_connections k" "k_sent (free_port p k) = k_sent k" "k_msgs (free_port p k) = k_msgs k"
  "k_conns (unrecord_port env app p k) = k_conns k" "k_handshake (unrecord_port env app p k) = k_handshake k"
  "k_connections (unrecord_port env app p k) = k_connections k" "k_sent (unrecord_port env app p k) = k_sent k"
  "k_msgs (unrecord_port env app p k) = k_msgs k"
  "k_conns (record_port env app p r k) = k_conns k" "k_handshake (record_port env app p r k) = k_handshake k"
  "k_connections (record_port env app p r k) = k_connections k"
  by (simp_all add: free_port_def unrecord_port_def record_port_def Let_def)

text \<open>
  Closing a connection that is still on the handshake list frees it and leaves it there.
\<close>

lemma unreg_ebpf_simps [simp]:
  "k_conns (unreg_tcp_conn_ebpf c k) = k_conns k" "k_handshake (unreg_tcp_conn_ebpf c k) = k_handshake k"
  by (simp_all add: unreg_tcp_conn_ebpf_def free_cc_idx_def Let_def)

lemma last_put_deletes:
  assumes "k_conns k i = Some c" "tc_ref c = 1"
  shows "\<exists>k1. tcp_conn_put env i k = Inr k1 \<and> k_conns k1 = (k_conns k)(i := None) \<and> k_handshake k1 = k_handshake k"
  using assms
  by (simp add: tcp_conn_put_def tcp_connection_close_def delete_conn_def unreg_tcp_conn_slowpath_def Let_def)

lemma close_queued_dangles:
  assumes "find_tcp_conn_slowpath opaque k = Inr (Some i)" "k_conns k i = Some c" "tc_ref c = 1" "k_handshake k = i # is"
  shows "\<exists>k1. process_tcp_cmd env t (APPOUT_TCP_CLOSE opaque fd) k = Inr k1
    \<and> poll_tcp_handshake_events env k1 = Inl Use_After_Free"
proof -
  obtain k1 where "tcp_conn_put env i k = Inr k1" "k_conns k1 = (k_conns k)(i := None)" "k_handshake k1 = i # is"
    using last_put_deletes [OF assms(2,3)] assms(4) by auto
  then show ?thesis
    using assms(1)
    by (simp add: tcp_close_def notify_defs poll_tcp_handshake_events_def handshake_event_def get_conn_def)
qed

end
