(* ===== verification/Ctl_Loop.thy ===== *)
theory Ctl_Loop
  imports Ctl_Safety
begin

text \<open>
  The main loop of the control plane (\<open>micro_kernel/control_plane.cc\<close>) as far as TCP is
  concerned: one iteration takes the waiting commands, the packets of the slow path, the
  handshake list and the timers, in this order.  Shown are that an unanswered connect
  ends, and what happens to a connection closed between a timeout and the next SYN.
\<close>

section \<open>One iteration\<close>

text \<open>The waiting commands: at most one of each thread.\<close>

fun poll_lrpc :: "ctl_env \<Rightarrow> (nat \<times> tcp_cmd) list \<Rightarrow> ctl_state \<Rightarrow> ctl_error + ctl_state" where
  "poll_lrpc env [] k = Inr k"
| "poll_lrpc env ((t, cmd) # cs) k = andthen (process_tcp_cmd env t cmd k) (poll_lrpc env cs)"

text \<open>The packets received, with the application of their queue and its number.\<close>

fun process_packet :: "ctl_env \<Rightarrow> (nat \<times> bytes \<times> u32) list \<Rightarrow> ctl_state \<Rightarrow> ctl_error + ctl_state" where
  "process_packet env [] k = Inr k"
| "process_packet env ((app, p, q) # ps) k =
    (if ld8 23 p = 6 then andthen (tcp_packet env app p q k) (\<lambda>(_, k). process_packet env ps k)
     else process_packet env ps k)"

definition ctl_round ::
  "ctl_env \<Rightarrow> (nat \<times> tcp_cmd) list \<Rightarrow> (nat \<times> bytes \<times> u32) list \<Rightarrow> ctl_state \<Rightarrow> ctl_error + ctl_state" where
  "ctl_round env cmds pkts k =
    andthen (poll_lrpc env cmds k) (\<lambda>k.
      andthen (process_packet env pkts k) (\<lambda>k.
        andthen (poll_tcp_handshake_events env k) (\<lambda>(_, k). poll_tcp_cc_to env k)))"

fun silent_rounds :: "ctl_env list \<Rightarrow> ctl_state \<Rightarrow> ctl_error + ctl_state" where
  "silent_rounds [] k = Inr k"
| "silent_rounds (env # es) k = andthen (ctl_round env [] [] k) (silent_rounds es)"

section \<open>A connection that waits for its SYN-ACK\<close>

definition listeners_only :: "ctl_state \<Rightarrow> nat \<Rightarrow> (flow_tuple \<times> nat) list \<Rightarrow> bool" where
  "listeners_only k i es = list_all (\<lambda>(_, j). j \<noteq> i \<and>
     (case k_conns k j of None \<Rightarrow> False | Some c \<Rightarrow> tc_type c = TCP_CONN_TYPE_FAKE)) es"

definition syn_conn :: "tcp_connection \<Rightarrow> connection_status \<Rightarrow> u16 \<Rightarrow> u64 \<Rightarrow> tcp_connection" where
  "syn_conn c s a d = c\<lparr>tc_status := s, tc_syn_attempts := a, tc_next_timeout_tsc := d\<rparr>"

definition syn_state ::
  "nat \<Rightarrow> tcp_connection \<Rightarrow> ctl_state \<Rightarrow> connection_status \<Rightarrow> u16 \<Rightarrow> u64 \<Rightarrow> nat list \<Rightarrow> (u32 \<times> bool \<times> bytes) list \<Rightarrow> u64 \<Rightarrow> ctl_state" where
  "syn_state i c k s a d hs snt nc =
    k\<lparr>k_conns := (k_conns k)(i \<mapsto> syn_conn c s a d),
      k_handshake := hs, k_sent := snt, k_next_cc := nc\<rparr>"

lemma poll_listeners:
  assumes "listeners_only k i es" "\<And>j. j \<noteq> i \<Longrightarrow> k_conns k' j = k_conns k j"
  shows "poll_conns env (es @ fs) tp k' = poll_conns env fs tp k'"
  using assms
proof (induction es)
  case (Cons e es)
  then show ?case by (cases e) (auto simp: listeners_only_def get_conn_def split: option.splits)
qed simp

lemma poll_listeners_end:
  assumes "listeners_only k i es" "\<And>j. j \<noteq> i \<Longrightarrow> k_conns k' j = k_conns k j"
  shows "poll_conns env es tp k' = Inr (tp, k')"
  using poll_listeners [OF assms, where fs = "[]"] by simp

lemma remove_conn_mid: "listeners_only k i es \<Longrightarrow> remove_conn i (es @ (t, i) # fs) = es @ fs"
  by (induction es) (auto simp: listeners_only_def)

lemma send_appends:
  assumes "net_ok env"
  shows "\<exists>x. send_tcp_control env c f ts e mss k = k\<lparr>k_sent := k_sent k @ [x]\<rparr>"
  using assms by (auto simp: send_tcp_control_def slow_path_send_tcp_def net_ok_def Let_def)

lemma syn_conn_simps [simp]:
  "tc_status (syn_conn c s a d) = s" "tc_syn_attempts (syn_conn c s a d) = a" "tc_next_timeout_tsc (syn_conn c s a d) = d"
  "tc_type (syn_conn c s a d) = tc_type c" "tc_ref (syn_conn c s a d) = tc_ref c"
  "tc_listener (syn_conn c s a d) = tc_listener c" "tc_local_port (syn_conn c s a d) = tc_local_port c"
  "tc_opaque (syn_conn c s a d) = tc_opaque c"
  "(syn_conn c s a d)\<lparr>tc_status := s'\<rparr> = syn_conn c s' a d" "(syn_conn c s a d)\<lparr>tc_syn_attempts := a'\<rparr> = syn_conn c s a' d"
  "(syn_conn c s a d)\<lparr>tc_next_timeout_tsc := d'\<rparr> = syn_conn c s a d'"
  "(syn_conn c s a d)\<lparr>tc_status := s', tc_syn_attempts := a'\<rparr> = syn_conn c s' a' d"
  "(syn_conn c s a d)\<lparr>tc_status := s', tc_next_timeout_tsc := d'\<rparr> = syn_conn c s' a d'"
  by (simp_all add: syn_conn_def)

lemma syn_state_simps [simp]:
  "k_sent (syn_state i c k s a d hs snt nc) = snt" "k_connections (syn_state i c k s a d hs snt nc) = k_connections k"
  "k_handshake (syn_state i c k s a d hs snt nc) = hs"
  "k_conns (syn_state i c k s a d hs snt nc)
     = (k_conns k)(i \<mapsto> syn_conn c s a d)"
  "(syn_state i c k s a d hs snt nc)\<lparr>k_sent := snt'\<rparr> = syn_state i c k s a d hs snt' nc"
  "(syn_state i c k s a d hs snt nc)\<lparr>k_handshake := hs'\<rparr> = syn_state i c k s a d hs' snt nc"
  "(syn_state i c k s a d hs snt nc)\<lparr>k_next_cc := nc'\<rparr> = syn_state i c k s a d hs snt nc'"
  "put_kconn i (syn_conn c s' a' d') (syn_state i c k s a d hs snt nc)
     = syn_state i c k s' a' d' hs snt nc"
  by (simp_all add: syn_state_def put_kconn_def)

lemma syn_state_self:
  assumes "k_conns k i = Some c"
  shows "syn_state i c k (tc_status c) (tc_syn_attempts c) (tc_next_timeout_tsc c) (k_handshake k) (k_sent k) (k_next_cc k) = k"
  using assms by (simp add: syn_state_def syn_conn_def fun_upd_idem)

text \<open>The table holds the connection and otherwise only listeners.\<close>

definition alone :: "ctl_state \<Rightarrow> nat \<Rightarrow> tcp_connection \<Rightarrow> (flow_tuple \<times> nat) list \<Rightarrow> flow_tuple \<Rightarrow> (flow_tuple \<times> nat) list \<Rightarrow> bool" where
  "alone k i c es t fs = (k_connections k = es @ (t, i) # fs \<and> listeners_only k i es \<and> listeners_only k i fs
     \<and> tc_type c = TCP_CONN_TYPE_NORMAL \<and> tc_ref c = 1 \<and> tc_listener c = None)"

lemma aloneD:
  assumes "alone k i c es t fs"
  shows "listeners_only k i es" "listeners_only k i fs" "k_connections k = es @ (t, i) # fs"
    "tc_type c = TCP_CONN_TYPE_NORMAL" "tc_ref c = 1" "tc_listener c = None"
  using assms by (simp_all add: alone_def)

lemma syn_round_send:
  assumes "net_ok env" "alone k i c es t fs" "ke_cycles env < ke_cycles env + ke_us_to_cycles env HANDSHAKE_US"
  shows "\<exists>x nc'. ctl_round env [] [] (syn_state i c k CONN_WAIT_TX_SYN a d [i] snt nc)
      = Inr (syn_state i c k CONN_WAIT_RX_SYNACK a (ke_cycles env + ke_us_to_cycles env HANDSHAKE_US) [] (snt @ [x]) nc')"
proof -
  let ?d = "ke_cycles env + ke_us_to_cycles env HANDSHAKE_US"
  let ?c = "syn_conn c CONN_WAIT_RX_SYNACK a ?d"
  obtain x where x: "send_tcp_control env ?c (TCP_SYN OR TCP_ECE OR TCP_CWR) True 0 TCP_MSS
      (syn_state i c k CONN_WAIT_RX_SYNACK a ?d [] snt nc) = syn_state i c k CONN_WAIT_RX_SYNACK a ?d [] (snt @ [x]) nc"
    using send_appends [OF assms(1), of ?c "TCP_SYN OR TCP_ECE OR TCP_CWR" True 0 TCP_MSS
        "syn_state i c k CONN_WAIT_RX_SYNACK a ?d [] snt nc"] by (simp only: syn_state_simps) blast
  note l = aloneD [OF assms(2)]
  have "poll_tcp_handshake_events env (syn_state i c k CONN_WAIT_TX_SYN a d [i] snt nc)
      = Inr (1, syn_state i c k CONN_WAIT_RX_SYNACK a ?d [] (snt @ [x]) nc)"
    using x by (simp add: poll_tcp_handshake_events_def handshake_event_def get_conn_def Let_def)
  moreover have "poll_tcp_cc_to env (syn_state i c k CONN_WAIT_RX_SYNACK a ?d [] (snt @ [x]) nc)
      = Inr (syn_state i c k CONN_WAIT_RX_SYNACK a ?d [] (snt @ [x]) 0xffffffffffffffff)"
    using assms(3) l(4)
    by (simp add: poll_tcp_cc_to_def l(3) poll_listeners [OF l(1)] poll_listeners_end [OF l(2)] get_conn_def not_le [symmetric])
  ultimately show ?thesis
    by (intro exI [of _ x] exI [of _ "0xffffffffffffffff"]) (simp add: ctl_round_def)
qed

lemma syn_round_wait:
  assumes "alone k i c es t fs" "ke_cycles env < d"
  shows "ctl_round env [] [] (syn_state i c k CONN_WAIT_RX_SYNACK a d [] snt nc)
      = Inr (syn_state i c k CONN_WAIT_RX_SYNACK a d [] snt 0xffffffffffffffff)"
proof -
  note l = aloneD [OF assms(1)]
  show ?thesis using assms(2) l(4)
    by (simp add: ctl_round_def poll_tcp_handshake_events_def poll_tcp_cc_to_def l(3) poll_listeners [OF l(1)]
        poll_listeners_end [OF l(2)] get_conn_def not_le [symmetric])
qed

lemma syn_round_again:
  assumes "alone k i c es t fs" "d \<noteq> 0" "d \<le> ke_cycles env" "a \<le> 3"
  shows "ctl_round env [] [] (syn_state i c k CONN_WAIT_RX_SYNACK a d [] snt nc)
      = Inr (syn_state i c k CONN_WAIT_TX_SYN (a + 1) d [i] snt 0xffffffffffffffff)"
proof -
  note l = aloneD [OF assms(1)]
  show ?thesis using assms(2-4) l(4)
    by (simp add: ctl_round_def poll_tcp_handshake_events_def poll_tcp_cc_to_def l(3) poll_listeners [OF l(1)]
        poll_listeners_end [OF l(2)] get_conn_def Let_def)
qed

text \<open>What is left when the control plane has given the connection up.\<close>

definition given_up :: "nat \<Rightarrow> tcp_connection \<Rightarrow> ctl_state \<Rightarrow> (flow_tuple \<times> nat) list \<Rightarrow> nat \<Rightarrow> ctl_state \<Rightarrow> bool" where
  "given_up i c k es n K = (k_conns K = (k_conns k)(i := None) \<and> k_connections K = es \<and> k_handshake K = []
     \<and> length (k_sent K) = n \<and> k_msgs K = k_msgs k \<and> k_port_ok K (tc_local_port c))"

lemma last_put_gives_up:
  assumes "net_ok env" "k_conns k i = Some c" "tc_ref c = 1" "tc_type c = TCP_CONN_TYPE_NORMAL" "tc_listener c = None"
    and "tc_status c = CONN_WAIT_RX_SYNACK" "PORT_MIN \<le> tc_local_port c" "tc_local_port c \<le> PORT_MAX"
  shows "\<exists>K. tcp_conn_put env i k = Inr K
    \<and> given_up i c k (remove_conn i (k_connections k)) (Suc (length (k_sent k))) (K\<lparr>k_handshake := []\<rparr>)
    \<and> k_handshake K = k_handshake k"
proof -
  let ?c = "c\<lparr>tc_ref := 0\<rparr>"
  let ?k = "free_port (tc_local_port c) (unrecord_port env (ke_actx env (tc_tctx c)) (tc_local_port c)
    (unreg_tcp_conn_slowpath i (put_kconn i ?c k)))"
  obtain x where x: "send_tcp_control env ?c TCP_RST False 0 0 ?k = ?k\<lparr>k_sent := k_sent ?k @ [x]\<rparr>"
    using send_appends [OF assms(1)] by blast
  have p: "k_port_ok (free_port (tc_local_port c) K) (tc_local_port c)" for K
    using assms(7,8) by (simp add: free_port_def not_less [symmetric])
  have m: "k_msgs (put_kconn i ?c k) = k_msgs k" by (simp add: put_kconn_def)
  have "tcp_conn_put env i k = Inr (delete_conn i (?k\<lparr>k_sent := k_sent ?k @ [x]\<rparr>))"
    using assms(2-6) x by (simp add: tcp_conn_put_def tcp_connection_close_def Let_def)
  then show ?thesis
    by (simp add: given_up_def delete_conn_def p unreg_tcp_conn_slowpath_def m)
qed

lemma syn_round_give_up:
  assumes "net_ok env" "alone k i c es t fs" "d \<noteq> 0" "d \<le> ke_cycles env" "a > 3"
    and "PORT_MIN \<le> tc_local_port c" "tc_local_port c \<le> PORT_MAX"
  shows "\<exists>K. ctl_round env [] [] (syn_state i c k CONN_WAIT_RX_SYNACK a d [] snt nc) = Inr K
      \<and> given_up i c k (es @ fs) (Suc (length snt)) K"
proof -
  note l = aloneD [OF assms(2)]
  let ?S = "syn_state i c k CONN_WAIT_RX_SYNACK a d [] snt 0xffffffffffffffff"
  let ?c = "syn_conn c CONN_WAIT_RX_SYNACK a d"
  have "\<exists>K. tcp_conn_put env i ?S = Inr K
      \<and> given_up i ?c ?S (remove_conn i (k_connections ?S)) (Suc (length (k_sent ?S))) (K\<lparr>k_handshake := []\<rparr>)
      \<and> k_handshake K = k_handshake ?S"
    by (rule last_put_gives_up) (use assms(1,6,7) l(4-6) in simp_all)
  then obtain K where K: "tcp_conn_put env i ?S = Inr K" "given_up i c k (es @ fs) (Suc (length snt)) K"
    by (auto simp: given_up_def l(3) remove_conn_mid [OF l(1)] syn_state_def)
  have "\<not> a \<le> 3" using assms(5) by simp
  then have "ctl_round env [] [] (syn_state i c k CONN_WAIT_RX_SYNACK a d [] snt nc) = Inr K"
    using assms(3-5) l(4) K(1)
    by (simp add: ctl_round_def poll_tcp_handshake_events_def poll_tcp_cc_to_def l(3) poll_listeners [OF l(1)]
        poll_listeners_end [OF l(2)] get_conn_def)
  then show ?thesis using K(2) by blast
qed

lemma given_up_round:
  assumes "alone k i c es t fs" "given_up i c k (es @ fs) n K"
  shows "\<exists>K'. ctl_round env [] [] K = Inr K' \<and> given_up i c k (es @ fs) n K'"
proof -
  note l = aloneD [OF assms(1)]
  have "poll_conns env (es @ fs) [] (K\<lparr>k_next_cc := nc\<rparr>) = Inr ([], K\<lparr>k_next_cc := nc\<rparr>)" for nc
    using assms(2) poll_listeners [OF l(1)] poll_listeners_end [OF l(2)] by (simp add: given_up_def)
  then have "ctl_round env [] [] K = Inr (K\<lparr>k_next_cc := 0xffffffffffffffff\<rparr>)"
    using assms(2) by (simp add: ctl_round_def poll_tcp_handshake_events_def poll_tcp_cc_to_def given_up_def)
  then show ?thesis using assms(2) by (simp add: given_up_def)
qed

section \<open>An unanswered connect ends\<close>

text \<open>
  Before round \<open>n\<close>, at time \<open>\<tau> n\<close>: the connection is queued for its next SYN, or waits for
  an answer, after \<open>a\<close> repetitions, or has been given up.  A repetition takes the timeout
  \<open>T\<close> and at most two rounds of length \<open>D\<close>.
\<close>

definition syn_phase ::
  "nat \<Rightarrow> tcp_connection \<Rightarrow> ctl_state \<Rightarrow> (flow_tuple \<times> nat) list \<Rightarrow> nat \<Rightarrow> nat \<Rightarrow> (nat \<Rightarrow> nat) \<Rightarrow> nat \<Rightarrow> ctl_state \<Rightarrow> bool" where
  "syn_phase i c k es T D \<tau> n K \<longleftrightarrow>
     (\<exists>a d snt nc. a \<le> 4 \<and> length snt = length (k_sent k) + a \<and> \<tau> n \<le> \<tau> 0 + a * (T + 2 * D)
        \<and> K = syn_state i c k CONN_WAIT_TX_SYN (of_nat a) d [i] snt nc)
   \<or> (\<exists>a d snt nc. a \<le> 4 \<and> length snt = length (k_sent k) + a + 1 \<and> 0 < d \<and> d < 2 ^ 64
        \<and> d \<le> \<tau> 0 + a * (T + 2 * D) + T \<and> \<tau> n \<le> d + D
        \<and> K = syn_state i c k CONN_WAIT_RX_SYNACK (of_nat a) (of_nat d) [] snt nc)
   \<or> given_up i c k es (length (k_sent k) + 6) K"

lemma of_nat64:
  assumes "m < 2 ^ 64" "n < 2 ^ 64"
  shows "(of_nat m :: u64) < of_nat n \<longleftrightarrow> m < n" "(of_nat m :: u64) \<le> of_nat n \<longleftrightarrow> m \<le> n" "(of_nat m :: u64) = 0 \<longleftrightarrow> m = 0"
proof -
  have "unat (of_nat m :: u64) = m" "unat (of_nat n :: u64) = n" using assms by (simp_all add: unat_of_nat)
  then show "(of_nat m :: u64) < of_nat n \<longleftrightarrow> m < n" "(of_nat m :: u64) \<le> of_nat n \<longleftrightarrow> m \<le> n" "(of_nat m :: u64) = 0 \<longleftrightarrow> m = 0"
    by (simp_all add: word_less_nat_alt word_le_nat_alt unat_eq_0 [symmetric])
qed

text \<open>The clock of a round and the timeout in its cycles.\<close>

definition clock_ok :: "ctl_env \<Rightarrow> nat \<Rightarrow> nat \<Rightarrow> bool" where
  "clock_ok env now T = (net_ok env \<and> ke_cycles env = of_nat now \<and> ke_us_to_cycles env HANDSHAKE_US = of_nat T
     \<and> 0 < T \<and> now + T < 2 ^ 64)"

lemma syn_phase_step:
  assumes "alone k i c es t fs" "clock_ok env (\<tau> n) T" "\<tau> (Suc n) \<le> \<tau> n + D"
    and "PORT_MIN \<le> tc_local_port c" "tc_local_port c \<le> PORT_MAX" "syn_phase i c k (es @ fs) T D \<tau> n K"
  shows "\<exists>K'. ctl_round env [] [] K = Inr K' \<and> syn_phase i c k (es @ fs) T D \<tau> (Suc n) K'"
proof -
  have e: "net_ok env" "ke_cycles env = of_nat (\<tau> n)" "ke_us_to_cycles env HANDSHAKE_US = of_nat T" "0 < T" "\<tau> n + T < 2 ^ 64"
    using assms(2) by (simp_all add: clock_ok_def)
  consider (send) a d snt nc where "a \<le> 4" "length snt = length (k_sent k) + a" "\<tau> n \<le> \<tau> 0 + a * (T + 2 * D)"
        "K = syn_state i c k CONN_WAIT_TX_SYN (of_nat a) d [i] snt nc"
    | (wait) a d snt nc where "a \<le> 4" "length snt = length (k_sent k) + a + 1" "0 < d" "d < 2 ^ 64"
        "d \<le> \<tau> 0 + a * (T + 2 * D) + T" "\<tau> n \<le> d + D"
        "K = syn_state i c k CONN_WAIT_RX_SYNACK (of_nat a) (of_nat d) [] snt nc"
    | (up) "given_up i c k (es @ fs) (length (k_sent k) + 6) K"
    using assms(6) unfolding syn_phase_def by blast
  then show ?thesis
  proof cases
    case send
    have "ke_cycles env < ke_cycles env + ke_us_to_cycles env HANDSHAKE_US"
      using of_nat64(1) [of "\<tau> n" "\<tau> n + T"] e by simp
    from syn_round_send [OF e(1) assms(1) this, of "of_nat a" d snt nc]
    obtain x nc' where "ctl_round env [] [] K
        = Inr (syn_state i c k CONN_WAIT_RX_SYNACK (of_nat a) (of_nat (\<tau> n + T)) [] (snt @ [x]) nc')"
      using send(4) e(2,3) by auto
    moreover have "length (snt @ [x]) = length (k_sent k) + a + 1" "0 < \<tau> n + T" "\<tau> n + T \<le> \<tau> 0 + a * (T + 2 * D) + T"
        "\<tau> (Suc n) \<le> (\<tau> n + T) + D"
      using send(2,3) e(4) assms(3) by simp_all
    ultimately show ?thesis unfolding syn_phase_def using send(1) e(5) by blast
  next
    case wait
    have c: "(of_nat (\<tau> n) :: u64) < of_nat d \<longleftrightarrow> \<tau> n < d" "(of_nat d :: u64) \<le> of_nat (\<tau> n) \<longleftrightarrow> d \<le> \<tau> n" "(of_nat d :: u64) \<noteq> 0"
      using of_nat64 [of "\<tau> n" d] of_nat64 [of d "\<tau> n"] wait(3,4) e(5) by simp_all
    show ?thesis
    proof (cases "\<tau> n < d")
      case True
      then have "ctl_round env [] [] K
          = Inr (syn_state i c k CONN_WAIT_RX_SYNACK (of_nat a) (of_nat d) [] snt 0xffffffffffffffff)"
        using syn_round_wait [OF assms(1)] c(1) e(2) wait(7) by simp
      moreover have "\<tau> (Suc n) \<le> d + D" using True assms(3) by simp
      ultimately show ?thesis unfolding syn_phase_def using wait(1-5) by blast
    next
      case False
      then have due: "(of_nat d :: u64) \<le> ke_cycles env" using c(2) e(2) by simp
      show ?thesis
      proof (cases "a \<le> 3")
        case True
        then have "(of_nat a :: u16) \<le> 3" by (simp add: word_le_nat_alt unat_of_nat)
        then have "ctl_round env [] [] K
            = Inr (syn_state i c k CONN_WAIT_TX_SYN (of_nat (Suc a)) (of_nat d) [i] snt 0xffffffffffffffff)"
          using syn_round_again [OF assms(1) c(3) due] wait(7) by (simp add: add.commute)
        moreover have "Suc a \<le> 4" "length snt = length (k_sent k) + Suc a" "\<tau> (Suc n) \<le> \<tau> 0 + Suc a * (T + 2 * D)"
          using True wait(2,5,6) assms(3) by simp_all
        ultimately show ?thesis unfolding syn_phase_def by blast
      next
        case a: False
        then have "(of_nat a :: u16) > 3" using wait(1) by (simp add: word_less_nat_alt unat_of_nat)
        moreover have "Suc (length snt) = length (k_sent k) + 6" using a wait(1,2) by simp
        ultimately show ?thesis
          using syn_round_give_up [OF e(1) assms(1) c(3) due _ assms(4,5), of "of_nat a" snt nc]
          unfolding syn_phase_def wait(7) by metis
      qed
    qed
  next
    case up
    then show ?thesis unfolding syn_phase_def using given_up_round [OF assms(1)] by blast
  qed
qed

lemma silent_rounds_append: "silent_rounds (es @ [e]) k = andthen (silent_rounds es k) (ctl_round e [] [])"
  by (induction es arbitrary: k) (auto simp: andthen_def split: sum.splits)

lemma syn_phase_runs:
  assumes "alone k i c es t fs" "\<And>n. n < N \<Longrightarrow> clock_ok (envs n) (\<tau> n) T" "\<And>n. n < N \<Longrightarrow> \<tau> (Suc n) \<le> \<tau> n + D"
    and "PORT_MIN \<le> tc_local_port c" "tc_local_port c \<le> PORT_MAX" "syn_phase i c k (es @ fs) T D \<tau> 0 k"
  shows "\<exists>K. silent_rounds (map envs [0..<N]) k = Inr K \<and> syn_phase i c k (es @ fs) T D \<tau> N K"
  using assms(2,3)
proof (induction N)
  case 0
  then show ?case using assms(6) by simp
next
  case (Suc N)
  then obtain K where K: "silent_rounds (map envs [0..<N]) k = Inr K" "syn_phase i c k (es @ fs) T D \<tau> N K" by auto
  then show ?case
    using syn_phase_step [OF assms(1) Suc.prems(1) Suc.prems(2) assms(4,5) K(2)] by (simp add: silent_rounds_append)
qed


definition demo_clock :: "nat \<Rightarrow> ctl_env" where
  "demo_clock n = (demo_env 0x0a000001)\<lparr>ke_cycles := of_nat (50000 * n)\<rparr>"


section \<open>Closing a connection that waits for its next SYN\<close>

lemma find_alone:
  assumes "listeners_only k i es" "k_conns K = (k_conns k)(i \<mapsto> c)" "tc_opaque c = opaque"
    and "list_all (\<lambda>(_, j). map_option tc_opaque (k_conns k j) \<noteq> Some opaque) es"
  shows "find_entry opaque (es @ (t, i) # fs) K = Inr (Some i)"
  using assms by (induction es) (auto simp: listeners_only_def get_conn_def split: option.splits)

text \<open>C39: when a connect times out and the application closes the connection in the next
  iteration of the main loop, that iteration reads freed memory.  The timer has put the
  connection back on the handshake list; \<open>tcp_close\<close>, which runs before the list is polled,
  drops the last reference and deletes the object without taking it off the list.\<close>

theorem close_after_syn_timeout_dangles:
  assumes "alone k i c es t fs" "k_handshake k = []" "k_conns k i = Some c" "tc_status c = CONN_WAIT_RX_SYNACK"
    and "tc_syn_attempts c \<le> 3" "tc_next_timeout_tsc c \<noteq> 0" "tc_next_timeout_tsc c \<le> ke_cycles env"
    and "list_all (\<lambda>(_, j). map_option tc_opaque (k_conns k j) \<noteq> Some (tc_opaque c)) es"
  shows "\<exists>k1. ctl_round env [] [] k = Inr k1
    \<and> ctl_round env' [(th, APPOUT_TCP_CLOSE (tc_opaque c) fd)] [] k1 = Inl Use_After_Free"
proof -
  note l = aloneD [OF assms(1)]
  let ?c = "syn_conn c CONN_WAIT_TX_SYN (tc_syn_attempts c + 1) (tc_next_timeout_tsc c)"
  define k1 where "k1 = syn_state i c k CONN_WAIT_TX_SYN (tc_syn_attempts c + 1) (tc_next_timeout_tsc c) [i] (k_sent k) 0xffffffffffffffff"
  have r: "ctl_round env [] [] k = Inr k1"
    using syn_round_again [OF assms(1,6,7,5), of "k_sent k" "k_next_cc k"] syn_state_self [OF assms(3)] assms(2,4)
    by (simp add: k1_def)
  have f: "find_tcp_conn_slowpath (tc_opaque c) k1 = Inr (Some i)"
    unfolding find_tcp_conn_slowpath_def k1_def syn_state_simps l(3)
    by (rule find_alone [OF l(1) syn_state_simps(4) _ assms(8)]) simp
  have kc: "k_conns k1 i = Some ?c" and hs: "k_handshake k1 = [i]" by (simp_all add: k1_def)
  obtain k2 where "process_tcp_cmd env' th (APPOUT_TCP_CLOSE (tc_opaque c) fd) k1 = Inr k2"
      "poll_tcp_handshake_events env' k2 = Inl Use_After_Free"
    using close_queued_dangles [OF f kc, of "[]" env' th fd] l(5) hs by auto
  then show ?thesis using r by (simp add: ctl_round_def)
qed

theorem close_after_syn_timeout_dangles_witness:
  "\<exists>k k1. ctl_round (demo_clock 0) [] [] demo_client = Inr k \<and> ctl_round (demo_clock 1) [] [] k = Inr k1
    \<and> ctl_round (demo_clock 2) [(0, APPOUT_TCP_CLOSE 77 4)] [] k1 = Inl Use_After_Free"
proof -
  have s: "k_connections demo_client = [(conn_tuple (the (k_conns demo_client 0)), 0)]"
      "\<exists>c. k_conns demo_client 0 = Some c \<and> tc_status c = CONN_WAIT_TX_SYN \<and> tc_syn_attempts c = 0 \<and> tc_opaque c = 77
        \<and> tc_type c = TCP_CONN_TYPE_NORMAL \<and> tc_ref c = 1 \<and> tc_listener c = None"
    by (simp_all add: demo_client_def demo_eval)
  obtain c where c: "k_conns demo_client 0 = Some c" "tc_status c = CONN_WAIT_TX_SYN" "tc_syn_attempts c = 0" "tc_opaque c = 77"
      "tc_type c = TCP_CONN_TYPE_NORMAL" "tc_ref c = 1" "tc_listener c = None" using s(2) by blast
  have a: "alone demo_client 0 c [] (conn_tuple c) []" using c s(1) by (simp add: alone_def listeners_only_def)
  have n: "net_ok (demo_clock 0)" "ke_cycles (demo_clock 0) = 0" "ke_us_to_cycles (demo_clock 0) = (\<lambda>x. x)"
      "ke_cycles (demo_clock 1) = 50000"
    by (simp_all add: demo_clock_def demo_env_def net_ok_def)
  have self: "syn_state 0 c demo_client CONN_WAIT_TX_SYN 0 (tc_next_timeout_tsc c) [0] (k_sent demo_client) (k_next_cc demo_client)
      = demo_client"
    using syn_state_self [OF c(1)] c(2,3) demo_client_state(1) by simp
  obtain x nc where r: "ctl_round (demo_clock 0) [] [] demo_client
      = Inr (syn_state 0 c demo_client CONN_WAIT_RX_SYNACK 0 50000 [] (k_sent demo_client @ [x]) nc)"
    using syn_round_send [OF n(1) a, of 0 "tc_next_timeout_tsc c" "k_sent demo_client" "k_next_cc demo_client"] n(2,3) self
    by auto
  let ?k = "syn_state 0 c demo_client CONN_WAIT_RX_SYNACK 0 50000 [] (k_sent demo_client @ [x]) nc"
  let ?c = "syn_conn c CONN_WAIT_RX_SYNACK 0 50000"
  have "alone ?k 0 ?c [] (conn_tuple c) []" using a by (simp add: alone_def listeners_only_def)
  then have "\<exists>k1. ctl_round (demo_clock 1) [] [] ?k = Inr k1
      \<and> ctl_round (demo_clock 2) [(0, APPOUT_TCP_CLOSE (tc_opaque ?c) 4)] [] k1 = Inl Use_After_Free"
    by (rule close_after_syn_timeout_dangles) (simp_all add: n(4) [unfolded One_nat_def])
  then show ?thesis using r c(4) by simp
qed

end
