(* ===== verification/Ctl_Opts.thy ===== *)
theory Ctl_Opts
  imports Ctl_Kernel
begin

text \<open>
  The loop of \<open>parse_tcp_opts\<close> with its offset kept at 16 bits and with fuel, and its
  agreement with the total function that the control plane's model uses.  The header
  length is taken from the packet unchecked: below 5 words the length of the options
  wraps to more than 65515, and only the end of the frame stops the loop.
\<close>

fun parse_opts16 :: "nat \<Rightarrow> bytes \<Rightarrow> u16 \<Rightarrow> u16 \<Rightarrow> tcp_opts \<Rightarrow> (ctl_error + tcp_opts option) option" where
  "parse_opts16 0 p opts_len off opts = None"
| "parse_opts16 (Suc n) p opts_len off opts =
    (if off < opts_len
     then if length p \<le> 54 + unat off then Some (Inl Out_Of_Bounds)
          else let opt_kind = ld8 (54 + unat off) p
               in if opt_kind = 0 then Some (Inr (Some opts))
                  else if opt_kind = 1 then parse_opts16 n p opts_len (off + 1) opts
                  else if length p \<le> 54 + unat off + 1 then Some (Inl Out_Of_Bounds)
                  else let opt_len = ld8 (54 + unat off + 1) p
                       in if opt_kind = 2
                          then if opt_len \<noteq> 4 then Some (Inr None)
                               else parse_opts16 n p opts_len (off + ucast opt_len) (opts\<lparr>op_mss := Some (54 + unat off)\<rparr>)
                          else if opt_kind = 8
                          then if opt_len \<noteq> 10 then Some (Inr None)
                               else parse_opts16 n p opts_len (off + ucast opt_len) (opts\<lparr>op_ts := Some (54 + unat off)\<rparr>)
                          else Some (Inr None)
     else Some (Inr (Some opts)))"

lemma off_step:
  fixes off d :: u16
  assumes "unat off + unat d < 65536"
  shows "unat (off + d) = unat off + unat d"
  using assms by (simp add: unat_word_ariths)

lemma parse_opts16_loop:
  assumes "length p < 65536" "unat opts_len - unat off < n"
  shows "parse_opts16 n p opts_len off opts = Some (parse_opts_loop p (unat opts_len) (unat off) opts)"
  using assms(2)
proof (induction n arbitrary: off opts)
  case (Suc n)
  show ?case
  proof (cases "off < opts_len \<and> 54 + unat off < length p")
    case False
    then show ?thesis by (subst parse_opts_loop.simps) (auto simp: word_less_nat_alt)
  next
    case True
    then have o: "unat off < unat opts_len" "54 + unat off < length p" by (simp_all add: word_less_nat_alt)
    have s: "unat (off + 1) = unat off + 1" "unat (off + 4) = unat off + 4" "unat (off + 10) = unat off + 10"
      using off_step [of off 1] off_step [of off 4] off_step [of off 10] o(2) assms(1) by simp_all
    have ih: "parse_opts16 n p opts_len (off + 1) os = Some (parse_opts_loop p (unat opts_len) (unat off + 1) os)"
        "parse_opts16 n p opts_len (off + 4) os = Some (parse_opts_loop p (unat opts_len) (unat off + 4) os)"
        "parse_opts16 n p opts_len (off + 10) os = Some (parse_opts_loop p (unat opts_len) (unat off + 10) os)" for os
      using Suc.IH [of "off + 1" os] Suc.IH [of "off + 4" os] Suc.IH [of "off + 10" os] Suc.prems o(1) unfolding s by simp_all
    show ?thesis
      using True ih [unfolded One_nat_def] o(2) by (subst parse_opts_loop.simps) (auto simp: word_less_nat_alt Let_def not_le)
  qed
qed simp


definition demo_opts :: bytes where
  "demo_opts = replicate 46 0 @ [0x90, 0x02] @ replicate 6 0 @ [2, 4, 5, 0xb4, 8, 10, 0, 0, 0, 0, 0, 0, 0, 0, 1, 1]"


end
