(* ===== verification/Lrpc.thy ===== *)
theory Lrpc
  imports Xdp_Prelude "HOL-Library.Sublist"
begin

text \<open>
  The shared-memory message channels between an application's library and the micro
  kernel (\<open>common/base/lrpc.h\<close>, \<open>common/base/lrpc.cc\<close>).  Sender and receiver are two
  processes; they share the table of messages and the receiver's written-back head.
  The operations are built from the steps between two accesses to shared memory, and
  the step relation interleaves the steps of one sender and one receiver.  Loads and
  stores are sequentially consistent, which the acquire and release operations of the
  code give for the accesses that matter here.
\<close>

section \<open>The channel\<close>

abbreviation (input) LRPC_DONE_PARITY :: u64 where "LRPC_DONE_PARITY \<equiv> 0x8000000000000000"
abbreviation (input) LRPC_CHANNEL_SIZE :: u32 where "LRPC_CHANNEL_SIZE \<equiv> 2048"

record lrpc_msg =
  lm_cmd :: u64
  lm_data :: bytes

record lrpc_chan =
  lc_tbl :: "lrpc_msg list"
  lc_wb :: u32
  lc_send_head :: u32
  lc_send_tail :: u32
  lc_recv_head :: u32
  lc_size :: u32

definition is_power_of_two :: "u32 \<Rightarrow> bool" where
  "is_power_of_two x = (x \<noteq> 0 \<and> x AND (x - 1) = 0)"

text \<open>
  Both ends of a channel, over freshly created (zeroed) shared memory; \<open>None\<close> is \<open>-EINVAL\<close>.
\<close>

definition lrpc_init :: "u32 \<Rightarrow> lrpc_chan option" where
  "lrpc_init sz =
    (if \<not> is_power_of_two sz then None
     else Some \<lparr> lc_tbl = replicate (unat sz) \<lparr>lm_cmd = 0, lm_data = replicate 56 0\<rparr>, lc_wb = 0, lc_send_head = 0,
                 lc_send_tail = 0, lc_recv_head = 0, lc_size = sz \<rparr>)"

definition slot_of :: "u32 \<Rightarrow> lrpc_chan \<Rightarrow> nat" where
  "slot_of head q = unat (head AND (lc_size q - 1))"

definition parity_of :: "u32 \<Rightarrow> lrpc_chan \<Rightarrow> u64" where
  "parity_of head q = (if head AND lc_size q \<noteq> 0 then 0 else LRPC_DONE_PARITY)"

section \<open>Operations\<close>

text \<open>
  The search for room: the sender's own view of the tail first, the receiver's head when
  that is full.  \<open>None\<close> is a failed assertion, \<open>False\<close> the result \<open>-1\<close>.
\<close>

definition send_ready :: "lrpc_chan \<Rightarrow> (bool \<times> lrpc_chan) option" where
  "send_ready q =
    (if lc_send_head q - lc_send_tail q \<ge> lc_size q
     then if lc_send_head q - lc_send_tail q \<noteq> lc_size q then None
          else let q = q\<lparr>lc_send_tail := lc_wb q\<rparr>
               in Some (lc_send_head q - lc_send_tail q \<noteq> lc_size q, q)
     else Some (True, q))"

definition write_data :: "lrpc_msg \<Rightarrow> lrpc_chan \<Rightarrow> lrpc_chan" where
  "write_data m q = (let i = slot_of (lc_send_head q) q
     in q\<lparr>lc_tbl := (lc_tbl q)[i := (lc_tbl q ! i)\<lparr>lm_data := lm_data m\<rparr>]\<rparr>)"

definition store_cmd :: "lrpc_msg \<Rightarrow> lrpc_chan \<Rightarrow> lrpc_chan" where
  "store_cmd m q = (let i = slot_of (lc_send_head q) q
     in q\<lparr>lc_tbl := (lc_tbl q)[i := (lc_tbl q ! i)\<lparr>lm_cmd := lm_cmd m OR parity_of (lc_send_head q) q\<rparr>],
          lc_send_head := lc_send_head q + 1\<rparr>)"

definition lrpc_send :: "lrpc_msg \<Rightarrow> lrpc_chan \<Rightarrow> (bool \<times> lrpc_chan) option" where
  "lrpc_send m q =
    (if lm_cmd m AND LRPC_DONE_PARITY \<noteq> 0 then None
     else case send_ready q of
         None \<Rightarrow> None
       | Some (ok, q) \<Rightarrow> if ok then Some (True, store_cmd m (write_data m q)) else Some (False, q))"

definition lrpc_empty :: "lrpc_chan \<Rightarrow> bool" where
  "lrpc_empty q = (lm_cmd (lc_tbl q ! slot_of (lc_recv_head q) q) AND LRPC_DONE_PARITY \<noteq> parity_of (lc_recv_head q) q)"

definition lrpc_recv :: "lrpc_chan \<Rightarrow> (lrpc_msg \<times> lrpc_chan) option" where
  "lrpc_recv q =
    (let m = lc_tbl q ! slot_of (lc_recv_head q) q
     in if lm_cmd m AND LRPC_DONE_PARITY \<noteq> parity_of (lc_recv_head q) q then None
        else let q = q\<lparr>lc_recv_head := lc_recv_head q + 1\<rparr>
             in Some (\<lparr>lm_cmd = lm_cmd m AND NOT LRPC_DONE_PARITY, lm_data = lm_data m\<rparr>, q\<lparr>lc_wb := lc_recv_head q\<rparr>))"

section \<open>Interleaving\<close>

datatype send_pc = S_Idle | S_Copy lrpc_msg | S_Store lrpc_msg | S_Abort
datatype recv_pc = R_Idle | R_Copy nat u64 | R_Release lrpc_msg

text \<open>The channel, where the two processes are, and the messages sent and received so far.\<close>

record lrpc_sys =
  ls_chan :: lrpc_chan
  ls_send :: send_pc
  ls_recv :: recv_pc
  ls_sent :: "lrpc_msg list"
  ls_rcvd :: "lrpc_msg list"

inductive lrpc_step :: "lrpc_sys \<Rightarrow> lrpc_sys \<Rightarrow> bool" where
  send_begin: "ls_send s = S_Idle \<Longrightarrow> lm_cmd m AND LRPC_DONE_PARITY = 0 \<Longrightarrow> send_ready (ls_chan s) = Some (True, q) \<Longrightarrow>
    lrpc_step s (s\<lparr>ls_chan := q, ls_send := S_Copy m\<rparr>)"
| send_full: "ls_send s = S_Idle \<Longrightarrow> send_ready (ls_chan s) = Some (False, q) \<Longrightarrow> lrpc_step s (s\<lparr>ls_chan := q\<rparr>)"
| send_abort: "ls_send s = S_Idle \<Longrightarrow> send_ready (ls_chan s) = None \<Longrightarrow> lrpc_step s (s\<lparr>ls_send := S_Abort\<rparr>)"
| send_copy: "ls_send s = S_Copy m \<Longrightarrow> lrpc_step s (s\<lparr>ls_chan := write_data m (ls_chan s), ls_send := S_Store m\<rparr>)"
| send_store: "ls_send s = S_Store m \<Longrightarrow>
    lrpc_step s (s\<lparr>ls_chan := store_cmd m (ls_chan s), ls_send := S_Idle, ls_sent := ls_sent s @ [m]\<rparr>)"
| recv_begin: "ls_recv s = R_Idle \<Longrightarrow> \<not> lrpc_empty (ls_chan s) \<Longrightarrow> i = slot_of (lc_recv_head (ls_chan s)) (ls_chan s) \<Longrightarrow>
    lrpc_step s (s\<lparr>ls_chan := (ls_chan s)\<lparr>lc_recv_head := lc_recv_head (ls_chan s) + 1\<rparr>,
      ls_recv := R_Copy i (lm_cmd (lc_tbl (ls_chan s) ! i) AND NOT LRPC_DONE_PARITY)\<rparr>)"
| recv_copy: "ls_recv s = R_Copy i c \<Longrightarrow>
    lrpc_step s (s\<lparr>ls_recv := R_Release \<lparr>lm_cmd = c, lm_data = lm_data (lc_tbl (ls_chan s) ! i)\<rparr>\<rparr>)"
| recv_release: "ls_recv s = R_Release m \<Longrightarrow>
    lrpc_step s (s\<lparr>ls_chan := (ls_chan s)\<lparr>lc_wb := lc_recv_head (ls_chan s)\<rparr>, ls_recv := R_Idle, ls_rcvd := ls_rcvd s @ [m]\<rparr>)"

inductive lrpc_run :: "u32 \<Rightarrow> lrpc_sys \<Rightarrow> bool" where
  run_init: "lrpc_init sz = Some q \<Longrightarrow>
    lrpc_run sz \<lparr>ls_chan = q, ls_send = S_Idle, ls_recv = R_Idle, ls_sent = [], ls_rcvd = []\<rparr>"
| run_step: "lrpc_run sz s \<Longrightarrow> lrpc_step s s' \<Longrightarrow> lrpc_run sz s'"

section \<open>Heads as counters\<close>

definition par :: "nat \<Rightarrow> nat \<Rightarrow> u64" where
  "par e j = (if bit j e then 0 else LRPC_DONE_PARITY)"

lemma par_next: "par e (j + 2 ^ e) \<noteq> par e j"
proof -
  have "(j + 2 ^ e) div 2 ^ e = j div 2 ^ e + 1" by (rule div_add_self2) simp
  then show ?thesis by (simp add: par_def bit_iff_odd)
qed

lemma slot_counter:
  assumes "lc_size q = 2 ^ e" "e < 32"
  shows "slot_of (of_nat j) q = j mod 2 ^ e" "parity_of (of_nat j) q = par e j"
proof -
  have "(of_nat j :: u32) AND (2 ^ e - 1) = take_bit e (of_nat j)" by (simp add: take_bit_eq_mask mask_eq_exp_minus_1)
  also have "unat (take_bit e (of_nat j :: u32)) = take_bit e j"
    using assms(2) by (simp add: unsigned_take_bit_eq unsigned_of_nat min_def)
  finally show "slot_of (of_nat j) q = j mod 2 ^ e" using assms(1) by (simp add: slot_of_def take_bit_eq_mod)
  have "(of_nat j :: u32) AND 2 ^ e = 0 \<longleftrightarrow> \<not> bit j e"
    using assms(2) by (simp add: and_exp_eq_0_iff_not_bit bit_of_nat_iff)
  then show "parity_of (of_nat j) q = par e j" using assms(1) by (simp add: parity_of_def par_def)
qed

lemma counter_diff:
  assumes "t \<le> h" "h - t \<le> 2 ^ e" "e < 32"
  shows "unat (of_nat h - of_nat t :: u32) = h - t" "unat (2 ^ e :: u32) = 2 ^ e"
proof -
  have "(2::nat) ^ e < 2 ^ 32" using assms(3) by (intro power_strict_increasing) simp_all
  moreover have "(of_nat h - of_nat t :: u32) = of_nat (h - t)" "(2 ^ e :: u32) = of_nat (2 ^ e)"
    using assms(1) by (simp_all add: of_nat_diff)
  ultimately show "unat (of_nat h - of_nat t :: u32) = h - t" "unat (2 ^ e :: u32) = 2 ^ e"
    using assms(2) by (simp_all only: unat_of_nat mod_less len_num1 len_bit0 len_of_numeral_defs) simp_all
qed

section \<open>The invariant\<close>

text \<open>
  \<open>w\<close> messages have been released; \<open>msgs\<close> are those published since, so the sender is at
  \<open>w + length msgs\<close>.  The slots from \<open>w\<close> on hold them with the parity of their round, the
  remaining slots carry the other parity.
\<close>

definition chan_ok :: "nat \<Rightarrow> nat \<Rightarrow> nat \<Rightarrow> lrpc_msg list \<Rightarrow> lrpc_chan \<Rightarrow> bool" where
  "chan_ok e t w msgs q \<longleftrightarrow> e < 32 \<and> lc_size q = 2 ^ e \<and> length (lc_tbl q) = 2 ^ e
     \<and> lc_send_head q = of_nat (w + length msgs) \<and> lc_send_tail q = of_nat t \<and> lc_wb q = of_nat w
     \<and> t \<le> w \<and> w + length msgs \<le> t + 2 ^ e \<and> (\<forall>m\<in>set msgs. lm_cmd m AND LRPC_DONE_PARITY = 0)
     \<and> (\<forall>i<length msgs. lc_tbl q ! ((w + i) mod 2 ^ e)
          = \<lparr>lm_cmd = lm_cmd (msgs ! i) OR par e (w + i), lm_data = lm_data (msgs ! i)\<rparr>)
     \<and> (\<forall>i. length msgs \<le> i \<and> i < 2 ^ e \<longrightarrow>
          lm_cmd (lc_tbl q ! ((w + i) mod 2 ^ e)) AND LRPC_DONE_PARITY \<noteq> par e (w + i))"

definition send_ok :: "nat \<Rightarrow> nat \<Rightarrow> nat \<Rightarrow> lrpc_msg list \<Rightarrow> lrpc_chan \<Rightarrow> send_pc \<Rightarrow> bool" where
  "send_ok e t w msgs q pc = (case pc of S_Idle \<Rightarrow> True | S_Abort \<Rightarrow> False
     | S_Copy m \<Rightarrow> lm_cmd m AND LRPC_DONE_PARITY = 0 \<and> w + length msgs < t + 2 ^ e
     | S_Store m \<Rightarrow> lm_cmd m AND LRPC_DONE_PARITY = 0 \<and> w + length msgs < t + 2 ^ e
         \<and> lm_data (lc_tbl q ! ((w + length msgs) mod 2 ^ e)) = lm_data m)"

definition recv_ok :: "nat \<Rightarrow> nat \<Rightarrow> lrpc_msg list \<Rightarrow> lrpc_chan \<Rightarrow> recv_pc \<Rightarrow> bool" where
  "recv_ok e w msgs q pc = (case pc of R_Idle \<Rightarrow> lc_recv_head q = of_nat w
     | R_Copy i c \<Rightarrow> lc_recv_head q = of_nat (Suc w) \<and> msgs \<noteq> [] \<and> i = w mod 2 ^ e \<and> c = lm_cmd (hd msgs)
     | R_Release m \<Rightarrow> lc_recv_head q = of_nat (Suc w) \<and> msgs \<noteq> [] \<and> m = hd msgs)"

definition sys_ok :: "nat \<Rightarrow> nat \<Rightarrow> nat \<Rightarrow> lrpc_msg list \<Rightarrow> lrpc_sys \<Rightarrow> bool" where
  "sys_ok e t w msgs s \<longleftrightarrow> chan_ok e t w msgs (ls_chan s) \<and> send_ok e t w msgs (ls_chan s) (ls_send s)
     \<and> recv_ok e w msgs (ls_chan s) (ls_recv s) \<and> ls_sent s = ls_rcvd s @ msgs"

lemma parity_decode:
  fixes c :: u64
  assumes "c AND LRPC_DONE_PARITY = 0"
  shows "(c OR par e j) AND LRPC_DONE_PARITY = par e j" "(c OR par e j) AND NOT LRPC_DONE_PARITY = c"
proof -
  have "par e j = 0 \<or> par e j = LRPC_DONE_PARITY" by (simp add: par_def)
  then show "(c OR par e j) AND LRPC_DONE_PARITY = par e j" "(c OR par e j) AND NOT LRPC_DONE_PARITY = c"
    using mask_decode [OF assms] by blast+
qed

lemma slot_distinct:
  assumes "i < j" "j - i < (n::nat)"
  shows "i mod n \<noteq> j mod n"
proof
  assume "i mod n = j mod n"
  then have "n dvd j - i" using assms(1) by (metis less_imp_le mod_eq_dvd_iff_nat)
  then show False using assms by (auto dest: dvd_imp_le)
qed

lemma ready_cases:
  assumes "chan_ok e t w msgs q"
  shows "\<exists>t'. chan_ok e t' w msgs (q\<lparr>lc_send_tail := of_nat t'\<rparr>)
    \<and> send_ready q = Some (w + length msgs < t' + 2 ^ e, q\<lparr>lc_send_tail := of_nat t'\<rparr>)"
proof -
  have q: "e < 32" "lc_size q = 2 ^ e" "lc_send_head q = of_nat (w + length msgs)" "lc_send_tail q = of_nat t"
      "lc_wb q = of_nat w" "t \<le> w" "w + length msgs \<le> t + 2 ^ e"
    using assms by (simp_all add: chan_ok_def)
  have d: "unat (lc_send_head q - lc_send_tail q) = w + length msgs - t" "unat (lc_size q) = 2 ^ e"
      "unat (lc_send_head q - lc_wb q) = length msgs"
    using counter_diff [of t "w + length msgs" e] counter_diff [of w "w + length msgs" e] q by simp_all
  have c: "x = lc_size q \<longleftrightarrow> unat x = 2 ^ e" "lc_size q \<le> x \<longleftrightarrow> 2 ^ e \<le> unat x" for x
    unfolding word_unat_eq_iff word_le_nat_alt d(2) by (rule refl)+
  show ?thesis
  proof (cases "w + length msgs = t + 2 ^ e")
    case True
    then have "send_ready q = Some (w + length msgs < w + 2 ^ e, q\<lparr>lc_send_tail := lc_wb q\<rparr>)"
      unfolding send_ready_def Let_def lrpc_chan.simps c d using q(6) c(1) [of "lc_send_head q - lc_wb q"] d(3) by auto
    moreover have "chan_ok e w w msgs (q\<lparr>lc_send_tail := of_nat w\<rparr>)" using assms q(6,7) by (simp add: chan_ok_def)
    ultimately show ?thesis using q(5) by auto
  next
    case False
    then have "send_ready q = Some (w + length msgs < t + 2 ^ e, q)"
      unfolding send_ready_def Let_def lrpc_chan.simps c d using q(6,7) by auto
    moreover have "q\<lparr>lc_send_tail := of_nat t\<rparr> = q" using q(4) by simp
    ultimately show ?thesis using assms by metis
  qed
qed

lemma chan_okD:
  assumes "chan_ok e t w msgs q"
  shows "e < 32" "lc_size q = 2 ^ e" "length (lc_tbl q) = 2 ^ e" "lc_send_head q = of_nat (w + length msgs)"
    "t \<le> w" "w + length msgs \<le> t + 2 ^ e" "\<And>m. m \<in> set msgs \<Longrightarrow> lm_cmd m AND LRPC_DONE_PARITY = 0"
    "\<And>i. i < length msgs \<Longrightarrow> lc_tbl q ! ((w + i) mod 2 ^ e)
       = \<lparr>lm_cmd = lm_cmd (msgs ! i) OR par e (w + i), lm_data = lm_data (msgs ! i)\<rparr>"
    "\<And>i. length msgs \<le> i \<Longrightarrow> i < 2 ^ e \<Longrightarrow> lm_cmd (lc_tbl q ! ((w + i) mod 2 ^ e)) AND LRPC_DONE_PARITY \<noteq> par e (w + i)"
  using assms unfolding chan_ok_def by blast+

lemma head_slot:
  assumes "chan_ok e t w msgs q" "w + length msgs < t + 2 ^ e"
  shows "slot_of (lc_send_head q) q = (w + length msgs) mod 2 ^ e" "parity_of (lc_send_head q) q = par e (w + length msgs)"
    "length msgs < 2 ^ e" "\<And>i. i < 2 ^ e \<Longrightarrow> i \<noteq> length msgs \<Longrightarrow> (w + length msgs) mod 2 ^ e \<noteq> (w + i) mod 2 ^ e"
proof -
  note q = chan_okD [OF assms(1)]
  show "slot_of (lc_send_head q) q = (w + length msgs) mod 2 ^ e" "parity_of (lc_send_head q) q = par e (w + length msgs)"
    unfolding q(4) by (rule slot_counter [OF q(2,1)])+
  show l: "length msgs < 2 ^ e" using assms(2) q(5) by simp
  show "(w + length msgs) mod 2 ^ e \<noteq> (w + i) mod 2 ^ e" if "i < 2 ^ e" "i \<noteq> length msgs" for i
    using slot_distinct [of "w + i" "w + length msgs" "2 ^ e"] slot_distinct [of "w + length msgs" "w + i" "2 ^ e"] that l
    by (cases "i < length msgs") (auto simp: less_imp_diff_less)
qed

lemma write_data_ok:
  assumes "chan_ok e t w msgs q" "w + length msgs < t + 2 ^ e"
  shows "chan_ok e t w msgs (write_data m q)" "lm_data (lc_tbl (write_data m q) ! ((w + length msgs) mod 2 ^ e)) = lm_data m"
    "lc_recv_head (write_data m q) = lc_recv_head q"
proof -
  note q = chan_okD [OF assms(1)] and h = head_slot [OF assms]
  let ?j = "(w + length msgs) mod 2 ^ e"
  have j: "?j < length (lc_tbl q)" using q(3) by simp
  have tbl: "lc_tbl (write_data m q) = (lc_tbl q)[?j := (lc_tbl q ! ?j)\<lparr>lm_data := lm_data m\<rparr>]"
    by (simp add: write_data_def h(1) Let_def)
  show "lm_data (lc_tbl (write_data m q) ! ?j) = lm_data m" unfolding tbl using j by simp
  show "lc_recv_head (write_data m q) = lc_recv_head q" by (simp add: write_data_def Let_def)
  have "lc_tbl (write_data m q) ! ((w + i) mod 2 ^ e) = lc_tbl q ! ((w + i) mod 2 ^ e)" if "i < length msgs" for i
    unfolding tbl using h(4) [of i] h(3) that by simp
  moreover have "lm_cmd (lc_tbl (write_data m q) ! k) = lm_cmd (lc_tbl q ! k)" for k
    unfolding tbl using j by (cases "k = ?j") simp_all
  moreover have "lc_size (write_data m q) = lc_size q" "length (lc_tbl (write_data m q)) = length (lc_tbl q)"
      "lc_send_head (write_data m q) = lc_send_head q" "lc_send_tail (write_data m q) = lc_send_tail q"
      "lc_wb (write_data m q) = lc_wb q"
    by (simp_all add: write_data_def Let_def)
  ultimately show "chan_ok e t w msgs (write_data m q)" using assms(1) unfolding chan_ok_def by simp
qed

lemma store_cmd_ok:
  assumes "chan_ok e t w msgs q" "w + length msgs < t + 2 ^ e" "lm_cmd m AND LRPC_DONE_PARITY = 0"
    and "lm_data (lc_tbl q ! ((w + length msgs) mod 2 ^ e)) = lm_data m"
  shows "chan_ok e t w (msgs @ [m]) (store_cmd m q)" "lc_recv_head (store_cmd m q) = lc_recv_head q"
proof -
  note q = chan_okD [OF assms(1)] and h = head_slot [OF assms(1,2)]
  let ?j = "(w + length msgs) mod 2 ^ e" and ?q = "store_cmd m q"
  have j: "?j < length (lc_tbl q)" using q(3) by simp
  have "(lc_tbl q ! ?j)\<lparr>lm_cmd := x\<rparr> = \<lparr>lm_cmd = x, lm_data = lm_data m\<rparr>" for x
    using assms(4) by (cases "lc_tbl q ! ?j") simp
  then have tbl: "lc_tbl ?q = (lc_tbl q)[?j := \<lparr>lm_cmd = lm_cmd m OR par e (w + length msgs), lm_data = lm_data m\<rparr>]"
    by (simp add: store_cmd_def h(1,2) Let_def)
  show "lc_recv_head ?q = lc_recv_head q" by (simp add: store_cmd_def Let_def)
  have same: "lc_tbl ?q ! ((w + i) mod 2 ^ e) = lc_tbl q ! ((w + i) mod 2 ^ e)" if "i < 2 ^ e" "i \<noteq> length msgs" for i
    unfolding tbl using h(4) [OF that] by simp
  have "lc_tbl ?q ! ((w + i) mod 2 ^ e)
      = \<lparr>lm_cmd = lm_cmd ((msgs @ [m]) ! i) OR par e (w + i), lm_data = lm_data ((msgs @ [m]) ! i)\<rparr>" if "i < length (msgs @ [m])" for i
  proof (cases "i = length msgs")
    case True
    then show ?thesis unfolding tbl using j by simp
  next
    case False
    then show ?thesis using same [of i] q(8) [of i] h(3) that by (simp add: nth_append)
  qed
  moreover have "lm_cmd (lc_tbl ?q ! ((w + i) mod 2 ^ e)) AND LRPC_DONE_PARITY \<noteq> par e (w + i)"
    if "length (msgs @ [m]) \<le> i" "i < 2 ^ e" for i
    using same [of i] q(9) [of i] that by simp
  moreover have "lc_size ?q = lc_size q" "length (lc_tbl ?q) = length (lc_tbl q)" "lc_send_tail ?q = lc_send_tail q" "lc_wb ?q = lc_wb q"
      "lc_send_head ?q = of_nat (w + length (msgs @ [m]))"
    using q(4) by (simp_all add: store_cmd_def Let_def)
  ultimately show "chan_ok e t w (msgs @ [m]) ?q" using assms(1-3) unfolding chan_ok_def by auto
qed

lemma not_empty_head:
  assumes "chan_ok e t w msgs q" "lc_recv_head q = of_nat w"
  shows "lrpc_empty q \<longleftrightarrow> msgs = []" "slot_of (lc_recv_head q) q = w mod 2 ^ e"
    "msgs \<noteq> [] \<Longrightarrow> lm_cmd (lc_tbl q ! (w mod 2 ^ e)) AND NOT LRPC_DONE_PARITY = lm_cmd (hd msgs)"
    "msgs \<noteq> [] \<Longrightarrow> lm_data (lc_tbl q ! (w mod 2 ^ e)) = lm_data (hd msgs)"
proof -
  note q = chan_okD [OF assms(1)]
  have s: "slot_of (lc_recv_head q) q = w mod 2 ^ e" "parity_of (lc_recv_head q) q = par e w"
    unfolding assms(2) by (rule slot_counter [OF q(2,1)])+
  show "slot_of (lc_recv_head q) q = w mod 2 ^ e" by (rule s(1))
  have f: "lc_tbl q ! (w mod 2 ^ e) = \<lparr>lm_cmd = lm_cmd (hd msgs) OR par e w, lm_data = lm_data (hd msgs)\<rparr>"
      "lm_cmd (hd msgs) AND LRPC_DONE_PARITY = 0" if "msgs \<noteq> []"
    using q(7) q(8) [of 0] that hd_in_set [OF that] by (simp_all add: hd_conv_nth)
  show "lm_cmd (lc_tbl q ! (w mod 2 ^ e)) AND NOT LRPC_DONE_PARITY = lm_cmd (hd msgs)" if n: "msgs \<noteq> []"
    unfolding f(1) [OF n] lrpc_msg.simps by (rule parity_decode(2) [OF f(2) [OF n]])
  show "lm_data (lc_tbl q ! (w mod 2 ^ e)) = lm_data (hd msgs)" if n: "msgs \<noteq> []"
    unfolding f(1) [OF n] by simp
  show "lrpc_empty q \<longleftrightarrow> msgs = []"
  proof (cases "msgs = []")
    case True
    then show ?thesis using q(9) [of 0] by (simp add: lrpc_empty_def s)
  next
    case False
    then show ?thesis using f [OF False] parity_decode(1) [OF f(2) [OF False]] by (simp only: lrpc_empty_def s lrpc_msg.simps) simp
  qed
qed

lemma release_ok:
  assumes "chan_ok e t w (m # msgs) q" "lc_recv_head q = of_nat (Suc w)"
  shows "chan_ok e t (Suc w) msgs (q\<lparr>lc_wb := lc_recv_head q\<rparr>)"
proof -
  note q = chan_okD [OF assms(1)]
  have "lc_tbl q ! ((Suc w + i) mod 2 ^ e) = \<lparr>lm_cmd = lm_cmd (msgs ! i) OR par e (Suc w + i), lm_data = lm_data (msgs ! i)\<rparr>"
    if "i < length msgs" for i
    using q(8) [of "Suc i"] that by simp
  moreover have "lm_cmd (lc_tbl q ! ((Suc w + i) mod 2 ^ e)) AND LRPC_DONE_PARITY \<noteq> par e (Suc w + i)"
    if i: "length msgs \<le> i" "i < 2 ^ e" for i
  proof (cases "Suc i < 2 ^ e")
    case True
    then show ?thesis using q(9) [of "Suc i"] i by simp
  next
    case False
    then have w: "Suc w + i = w + 2 ^ e" using i by simp
    have "lm_cmd (lc_tbl q ! (w mod 2 ^ e)) AND LRPC_DONE_PARITY = par e w"
      using q(8) [of 0] parity_decode(1) [of "lm_cmd m" e w] q(7) [of m] by simp
    then show ?thesis unfolding w mod_add_self2 using par_next [of e w] by simp
  qed
  ultimately show ?thesis using assms unfolding chan_ok_def by auto
qed

lemma recv_ok_keep:
  assumes "recv_ok e w msgs q pc" "lc_recv_head q' = lc_recv_head q"
  shows "recv_ok e w msgs q' pc" "recv_ok e w (msgs @ ms) q' pc"
  using assms by (auto simp: recv_ok_def split: recv_pc.splits)

lemma sys_ok_step:
  assumes "sys_ok e t w msgs s" "lrpc_step s s'"
  shows "\<exists>t w msgs. sys_ok e t w msgs s'"
proof -
  let ?q = "ls_chan s"
  have q: "chan_ok e t w msgs ?q" and so: "send_ok e t w msgs ?q (ls_send s)" and ro: "recv_ok e w msgs ?q (ls_recv s)"
      and sent: "ls_sent s = ls_rcvd s @ msgs"
    using assms(1) by (simp_all add: sys_ok_def)
  obtain t' where r: "chan_ok e t' w msgs (?q\<lparr>lc_send_tail := of_nat t'\<rparr>)"
      "send_ready ?q = Some (w + length msgs < t' + 2 ^ e, ?q\<lparr>lc_send_tail := of_nat t'\<rparr>)"
    using ready_cases [OF q] by blast
  have rt: "recv_ok e w msgs (?q\<lparr>lc_send_tail := of_nat t'\<rparr>) (ls_recv s)" by (rule recv_ok_keep(1) [OF ro]) simp
  show ?thesis using assms(2)
proof cases
  case (send_begin m q')
  then have "sys_ok e t' w msgs s'" using r rt sent by (simp add: sys_ok_def send_ok_def)
  then show ?thesis by blast
next
  case (send_full q')
  then have "sys_ok e t' w msgs s'" using r rt sent by (simp add: sys_ok_def send_ok_def)
  then show ?thesis by blast
next
  case send_abort
  then show ?thesis using r(2) by simp
next
  case (send_copy m)
  then have m: "lm_cmd m AND LRPC_DONE_PARITY = 0" "w + length msgs < t + 2 ^ e" using so by (simp_all add: send_ok_def)
  have "sys_ok e t w msgs s'"
    using send_copy write_data_ok [OF q m(2), of m] recv_ok_keep(1) [OF ro write_data_ok(3) [OF q m(2)]] m sent
    by (simp add: sys_ok_def send_ok_def)
  then show ?thesis by blast
next
  case (send_store m)
  then have m: "w + length msgs < t + 2 ^ e" "lm_cmd m AND LRPC_DONE_PARITY = 0"
      "lm_data (lc_tbl ?q ! ((w + length msgs) mod 2 ^ e)) = lm_data m" using so by (simp_all add: send_ok_def)
  note st = store_cmd_ok [OF q m]
  have "sys_ok e t w (msgs @ [m]) s'"
    using send_store st(1) recv_ok_keep(2) [OF ro st(2)] sent by (simp add: sys_ok_def send_ok_def)
  then show ?thesis by blast
next
  case (recv_begin i)
  have h: "lc_recv_head ?q = of_nat w" using ro recv_begin by (simp add: recv_ok_def)
  note n = not_empty_head [OF q h]
  have "chan_ok e t w msgs (?q\<lparr>lc_recv_head := of_nat (Suc w)\<rparr>)" using q by (simp add: chan_ok_def)
  moreover have "msgs \<noteq> []" "i = w mod 2 ^ e" using n recv_begin by simp_all
  moreover have "send_ok e t w msgs (?q\<lparr>lc_recv_head := of_nat (Suc w)\<rparr>) (ls_send s)"
    using so by (simp add: send_ok_def split: send_pc.splits)
  moreover have "lc_recv_head ?q + 1 = of_nat (Suc w)" using h by (simp add: add.commute)
  ultimately have "sys_ok e t w msgs s'"
    unfolding recv_begin(1) sys_ok_def recv_ok_def using n(3) sent by (simp only: lrpc_sys.simps recv_pc.simps) simp
  then show ?thesis by blast
next
  case (recv_copy i c)
  then have c: "msgs \<noteq> []" "i = w mod 2 ^ e" "c = lm_cmd (hd msgs)" "lc_recv_head ?q = of_nat (Suc w)"
    using ro by (simp_all add: recv_ok_def)
  have "lm_data (lc_tbl ?q ! i) = lm_data (hd msgs)"
    using chan_okD(8) [OF q, of 0] c(1,2) by (simp add: hd_conv_nth)
  then have "sys_ok e t w msgs s'" using recv_copy c q so sent by (simp add: sys_ok_def recv_ok_def)
  then show ?thesis by blast
next
  case (recv_release m)
  then obtain ms where m: "lc_recv_head ?q = of_nat (Suc w)" "msgs = m # ms"
    using ro by (cases msgs) (auto simp: recv_ok_def)
  have "send_ok e t (Suc w) ms (?q\<lparr>lc_wb := lc_recv_head ?q\<rparr>) (ls_send s)"
    using so m(2) by (simp add: send_ok_def split: send_pc.splits)
  then have "sys_ok e t (Suc w) ms s'"
    using recv_release release_ok [OF q [unfolded m(2)] m(1)] m sent by (simp add: sys_ok_def recv_ok_def)
  then show ?thesis by blast
qed
qed

lemma sys_ok_init:
  assumes "lrpc_init (2 ^ e) = Some q" "e < 32"
  shows "sys_ok e 0 0 [] \<lparr>ls_chan = q, ls_send = S_Idle, ls_recv = R_Idle, ls_sent = [], ls_rcvd = []\<rparr>"
proof -
  have "par e i = LRPC_DONE_PARITY" if "i < 2 ^ e" for i using that by (simp add: par_def bit_iff_odd)
  then show ?thesis using assms counter_diff(2) [of 0 0 e]
    by (auto simp: sys_ok_def send_ok_def recv_ok_def chan_ok_def lrpc_init_def split: if_splits)
qed

lemma run_sys_ok:
  assumes "lrpc_run sz s" "sz = 2 ^ e" "e < 32"
  shows "\<exists>t w msgs. sys_ok e t w msgs s"
  using assms
proof induction
  case (run_init sz q)
  then show ?case using sys_ok_init by blast
next
  case (run_step sz s s')
  then show ?case using sys_ok_step by blast
qed

section \<open>The operations as sequences of steps\<close>

lemma send_is_steps:
  assumes "lrpc_run sz s" "ls_send s = S_Idle" "lrpc_send m (ls_chan s) = Some (True, q)"
  shows "lrpc_run sz (s\<lparr>ls_chan := q, ls_send := S_Idle, ls_sent := ls_sent s @ [m]\<rparr>)"
proof -
  obtain q0 where q0: "lm_cmd m AND LRPC_DONE_PARITY = 0" "send_ready (ls_chan s) = Some (True, q0)"
      "q = store_cmd m (write_data m q0)"
    using assms(3) by (auto simp: lrpc_send_def split: if_splits option.splits)
  let ?s1 = "s\<lparr>ls_chan := q0, ls_send := S_Copy m\<rparr>"
  let ?s2 = "?s1\<lparr>ls_chan := write_data m q0, ls_send := S_Store m\<rparr>"
  have "lrpc_step s ?s1" by (rule lrpc_step.send_begin [OF assms(2) q0(1,2)])
  moreover have "lrpc_step ?s1 ?s2" using lrpc_step.send_copy [of ?s1 m] by simp
  moreover have "lrpc_step ?s2 (s\<lparr>ls_chan := q, ls_send := S_Idle, ls_sent := ls_sent s @ [m]\<rparr>)"
    using lrpc_step.send_store [of ?s2 m] assms(2) q0(3) by simp
  ultimately show ?thesis using assms(1) by (blast intro: run_step)
qed

lemma recv_is_steps:
  assumes "lrpc_run sz s" "ls_recv s = R_Idle" "lrpc_recv (ls_chan s) = Some (m, q)"
  shows "lrpc_run sz (s\<lparr>ls_chan := q, ls_recv := R_Idle, ls_rcvd := ls_rcvd s @ [m]\<rparr>)"
proof -
  let ?q = "ls_chan s" and ?i = "slot_of (lc_recv_head (ls_chan s)) (ls_chan s)"
  define c where "c = lm_cmd (lc_tbl ?q ! ?i) AND NOT LRPC_DONE_PARITY"
  have r: "\<not> lrpc_empty ?q" "m = \<lparr>lm_cmd = c, lm_data = lm_data (lc_tbl ?q ! ?i)\<rparr>"
      "q = ?q\<lparr>lc_recv_head := lc_recv_head ?q + 1, lc_wb := lc_recv_head ?q + 1\<rparr>"
    using assms(3) unfolding lrpc_recv_def lrpc_empty_def Let_def c_def by (simp_all only: option.simps prod.inject split: if_splits) simp_all
  let ?s1 = "s\<lparr>ls_chan := ?q\<lparr>lc_recv_head := lc_recv_head ?q + 1\<rparr>, ls_recv := R_Copy ?i c\<rparr>"
  let ?s2 = "?s1\<lparr>ls_recv := R_Release m\<rparr>"
  have "lrpc_step s ?s1" unfolding c_def by (rule lrpc_step.recv_begin [OF assms(2) r(1) refl])
  moreover have "lrpc_step ?s1 ?s2" using lrpc_step.recv_copy [of ?s1 ?i c] r(2) by simp
  moreover have "lrpc_step ?s2 (s\<lparr>ls_chan := q, ls_recv := R_Idle, ls_rcvd := ls_rcvd s @ [m]\<rparr>)"
    using lrpc_step.recv_release [of ?s2 m] assms(2) r(3) by simp
  ultimately show ?thesis using assms(1) by (blast intro: run_step)
qed

text \<open>C6: however the steps of a sender and a receiver of a channel interleave, the messages
  received are a prefix of the messages sent: none is lost, duplicated, reordered or read
  half written, also across the wrap-around of the 32-bit heads.  The sender is never more
  than the 2048 messages of the channel ahead and its assertion never fails.\<close>

theorem lrpc_channel_fifo:
  assumes "lrpc_run LRPC_CHANNEL_SIZE s"
  shows "prefix (ls_rcvd s) (ls_sent s) \<and> length (ls_sent s) \<le> length (ls_rcvd s) + 2048 \<and> ls_send s \<noteq> S_Abort"
proof -
  have "(LRPC_CHANNEL_SIZE :: u32) = 2 ^ 11" by simp
  then obtain t w msgs where s: "sys_ok 11 t w msgs s" using run_sys_ok [OF assms, of 11] by auto
  then show ?thesis by (auto simp: sys_ok_def chan_ok_def send_ok_def)
qed

theorem lrpc_channel_fifo_witness:
  "\<exists>s a b. lrpc_run LRPC_CHANNEL_SIZE s \<and> ls_rcvd s = [a] \<and> ls_sent s = [a, b] \<and> lm_cmd a = 5 \<and> lm_cmd b = 6
    \<and> prefix (ls_rcvd s) (ls_sent s) \<and> length (ls_sent s) \<le> length (ls_rcvd s) + 2048 \<and> ls_send s \<noteq> S_Abort"
proof -
  let ?a = "\<lparr>lm_cmd = 5, lm_data = [1]\<rparr>" and ?b = "\<lparr>lm_cmd = 6, lm_data = [2]\<rparr>"
  note ev = lrpc_send_def send_ready_def store_cmd_def write_data_def slot_of_def parity_of_def lrpc_recv_def Let_def
  obtain q0 where q0: "lrpc_init LRPC_CHANNEL_SIZE = Some q0" "lc_size q0 = 2048" "length (lc_tbl q0) = 2048"
      "lc_send_head q0 = 0" "lc_send_tail q0 = 0" "lc_recv_head q0 = 0"
    by (simp add: lrpc_init_def is_power_of_two_def)
  obtain q1 where q1: "lrpc_send ?a q0 = Some (True, q1)" "lc_size q1 = 2048" "length (lc_tbl q1) = 2048"
      "lc_send_head q1 = 1" "lc_send_tail q1 = 0" "lc_recv_head q1 = 0"
      "lc_tbl q1 ! 0 = \<lparr>lm_cmd = 0x8000000000000005, lm_data = [1]\<rparr>"
    using q0 by (cases "lc_tbl q0 ! 0") (simp add: ev)
  have one: "\<not> 2048 \<le> (1 :: u32)" by (simp add: word_le_nat_alt)
  obtain q2 where q2: "lrpc_send ?b q1 = Some (True, q2)" "lc_size q2 = 2048" "lc_recv_head q2 = 0"
      "lc_tbl q2 ! 0 = \<lparr>lm_cmd = 0x8000000000000005, lm_data = [1]\<rparr>"
    using q1(2-7) one by (simp add: ev)
  obtain q3 where q3: "lrpc_recv q2 = Some (?a, q3)" using q2 by (simp add: ev)
  let ?s0 = "\<lparr>ls_chan = q0, ls_send = S_Idle, ls_recv = R_Idle, ls_sent = [], ls_rcvd = []\<rparr>"
  have "lrpc_run LRPC_CHANNEL_SIZE ?s0" by (rule run_init [OF q0(1)])
  from send_is_steps [OF this _, of ?a q1] q1(1)
  have "lrpc_run LRPC_CHANNEL_SIZE (?s0\<lparr>ls_chan := q1, ls_sent := [?a]\<rparr>)" by simp
  from send_is_steps [OF this _, of ?b q2] q2(1)
  have "lrpc_run LRPC_CHANNEL_SIZE (?s0\<lparr>ls_chan := q2, ls_sent := [?a, ?b]\<rparr>)" by simp
  from recv_is_steps [OF this _, of ?a q3] q3
  have r: "lrpc_run LRPC_CHANNEL_SIZE (?s0\<lparr>ls_chan := q3, ls_sent := [?a, ?b], ls_rcvd := [?a]\<rparr>)" by simp
  show ?thesis using r lrpc_channel_fifo [OF r] by (intro exI conjI) (assumption | simp)+
qed

end
