(* ===== verification/Lb.thy ===== *)
theory Lb
  imports Xdp_Prelude
begin

text \<open>
  Choice of a core for the receive path of Homa (\<open>eBPF/ebpf_lb.h\<close>).  The global
  array \<open>core_info\<close> is a function of the core number; \<open>now\<close> is the reading of the
  nanosecond clock and \<open>busy\<close> the global \<open>gro_busy_usecs\<close>.
\<close>

section \<open>Definitions\<close>

abbreviation (input) LB_MAX_CPU :: u32 where "LB_MAX_CPU \<equiv> 20"
abbreviation (input) CORES_TO_CHECK :: u32 where "CORES_TO_CHECK \<equiv> 4"

record core_info_t =
  last_active :: u64
  last_gro :: u64
  softirq_backlog :: u64
  softirq_offset :: u32

definition set_current_active :: "u32 \<Rightarrow> u64 \<Rightarrow> (u32 \<Rightarrow> core_info_t) \<Rightarrow> u32 \<Rightarrow> core_info_t" where
  "set_current_active this_cpu ktime core_info =
    (let this_cpu = this_cpu mod LB_MAX_CPU
     in core_info(this_cpu := (core_info this_cpu)\<lparr>last_active := ktime\<rparr>))"

definition lb_candidate :: "u32 \<Rightarrow> u32 \<Rightarrow> u32" where
  "lb_candidate cpu i =
    (let candidate = cpu + i;
         candidate = (if candidate \<ge> LB_MAX_CPU then candidate - LB_MAX_CPU else candidate)
     in candidate AND 31)"

definition lb_busy :: "u64 \<Rightarrow> u64 \<Rightarrow> core_info_t \<Rightarrow> bool" where
  "lb_busy busy now info \<longleftrightarrow> softirq_backlog info > 0 \<or> last_gro info + busy > now"

text \<open>The loop over the candidates: \<open>n\<close> iterations are left, the next one is \<open>i\<close>.\<close>

fun lb_scan :: "nat \<Rightarrow> u64 \<Rightarrow> u64 \<Rightarrow> (u32 \<Rightarrow> core_info_t) \<Rightarrow> u32 \<Rightarrow> u32 \<Rightarrow> u32 option" where
  "lb_scan 0 busy now core_info cpu i = None"
| "lb_scan (Suc n) busy now core_info cpu i =
    (let candidate = lb_candidate cpu i
     in if lb_busy busy now (core_info candidate) then lb_scan n busy now core_info cpu (i + 1)
        else Some candidate)"

definition choose_core ::
  "u64 \<Rightarrow> u64 \<Rightarrow> u32 \<Rightarrow> (u32 \<Rightarrow> core_info_t) \<Rightarrow> u32 \<times> (u32 \<Rightarrow> core_info_t)"
where
  "choose_core busy now this_cpu core_info =
    (let cpu = this_cpu;
         (candidate, core_info) =
           (case lb_scan 4 busy now core_info cpu 0 of
              Some candidate \<Rightarrow> (candidate, core_info)
            | None \<Rightarrow>
                let offset = softirq_offset (core_info this_cpu) + 1;
                    offset = (if offset \<ge> CORES_TO_CHECK then 0 else offset);
                    core_info = core_info(this_cpu := (core_info this_cpu)\<lparr>softirq_offset := offset\<rparr>)
                in (lb_candidate cpu offset, core_info));
         core_info = core_info(candidate := (core_info candidate)\<lparr>softirq_backlog := softirq_backlog (core_info candidate) + 1\<rparr>);
         core_info = core_info(candidate := (core_info candidate)\<lparr>last_gro := now\<rparr>)
     in (candidate, core_info))"

section \<open>Lemmas\<close>

lemma lb_candidate_mod:
  assumes "cpu < 20" "i < 4"
  shows "unat (lb_candidate cpu i) = (unat cpu + unat i) mod 20"
proof -
  have b: "unat cpu < 20" "unat i < 4" using assms by (simp_all add: word_less_nat_alt)
  then have s: "unat (cpu + i) = unat cpu + unat i" using unat_add_lem [of cpu i] by simp
  let ?c = "if cpu + i \<ge> 20 then cpu + i - 20 else cpu + i"
  have "(20 :: u32) \<le> cpu + i \<longleftrightarrow> 20 \<le> unat cpu + unat i" by (simp add: word_le_nat_alt s)
  moreover from this have "20 \<le> cpu + i \<Longrightarrow> unat (cpu + i - 20) = unat cpu + unat i - 20"
    using unat_sub [of 20 "cpu + i"] s by simp
  ultimately have c: "unat ?c = (unat cpu + unat i) mod 20"
    using b s by (auto simp: mod_if [of "unat cpu + unat i" 20])
  have "?c AND 31 = take_bit 5 ?c" by (simp add: take_bit_eq_mask mask_eq_exp_minus_1)
  moreover have "unat (take_bit 5 ?c) = unat ?c"
    using b unfolding unsigned_take_bit_eq c by (simp add: take_bit_nat_eq_self)
  ultimately show ?thesis using c unfolding lb_candidate_def Let_def by simp
qed

lemma lb_scan_first:
  "lb_scan n busy now ci cpu i =
    (case find (\<lambda>k. \<not> lb_busy busy now (ci (lb_candidate cpu (i + of_nat k)))) [0..<n] of
       None \<Rightarrow> None | Some k \<Rightarrow> Some (lb_candidate cpu (i + of_nat k)))"
proof (induction n arbitrary: i)
  case (Suc n)
  have "[0..<Suc n] = 0 # map Suc [0..<n]" by (metis map_Suc_upt upt_rec zero_less_Suc)
  moreover have "find P (map Suc xs) = map_option Suc (find (\<lambda>k. P (Suc k)) xs)" for P xs
    by (induction xs) auto
  ultimately show ?case using Suc [of "i + 1"]
    by (auto simp: Let_def ac_simps split: option.splits)
qed simp

lemma upt4: "[0..<4] = [0, 1, 2, 3 :: nat]" by (simp add: upt_rec)

section \<open>Properties\<close>

text \<open>The chosen core is one of the four cores from the current one on, modulo the number
  of cores; it is the first of them that is neither backlogged nor recently busy whenever there
  is one; its backlog grows by one and its time stamp is renewed.\<close>

theorem choose_core_prefers_idle:
  assumes "this_cpu < 20" "softirq_offset (ci this_cpu) < 4"
    and "choose_core busy now this_cpu ci = (candidate, ci')"
  shows "(\<exists>i < 4. unat candidate = (unat this_cpu + i) mod 20
      \<and> ((\<exists>k < 4. \<not> lb_busy busy now (ci (lb_candidate this_cpu (of_nat k))))
         \<longrightarrow> \<not> lb_busy busy now (ci candidate) \<and> (\<forall>k < i. lb_busy busy now (ci (lb_candidate this_cpu (of_nat k))))))
    \<and> softirq_backlog (ci' candidate) = softirq_backlog (ci candidate) + 1 \<and> last_gro (ci' candidate) = now"
proof (cases "lb_scan 4 busy now ci this_cpu 0")
  case None
  let ?o = "softirq_offset (ci this_cpu) + 1"
  let ?k = "if ?o \<ge> 4 then 0 else ?o"
  have "\<not> lb_busy busy now (ci (lb_candidate this_cpu (of_nat k))) \<Longrightarrow> k < 4 \<Longrightarrow> False" for k
    using None by (auto simp: lb_scan_first find_None_iff split: option.splits)
  moreover have "candidate = lb_candidate this_cpu ?k" "softirq_backlog (ci' candidate) = softirq_backlog (ci candidate) + 1"
    "last_gro (ci' candidate) = now"
    using assms(3) None by (auto simp: choose_core_def Let_def)
  moreover have "?k < 4" by (auto simp: not_le)
  ultimately show ?thesis using lb_candidate_mod [OF assms(1), of ?k]
    by (auto simp: word_less_nat_alt intro!: exI [of _ "unat ?k"])
next
  case (Some cand)
  then obtain k where k: "find (\<lambda>k. \<not> lb_busy busy now (ci (lb_candidate this_cpu (of_nat k)))) [0..<4] = Some k"
    "cand = lb_candidate this_cpu (of_nat k)"
    by (auto simp: lb_scan_first split: option.splits)
  then have "k < 4" "\<not> lb_busy busy now (ci cand)" "\<forall>j < k. lb_busy busy now (ci (lb_candidate this_cpu (of_nat j)))"
    by (auto simp: find_Some_iff)
  moreover have "candidate = cand" "softirq_backlog (ci' candidate) = softirq_backlog (ci candidate) + 1"
    "last_gro (ci' candidate) = now"
    using assms(3) Some by (auto simp: choose_core_def Let_def)
  moreover have "unat (of_nat k :: u32) = k" "(of_nat k :: u32) < 4"
    using \<open>k < 4\<close> by (simp_all add: unsigned_of_nat take_bit_nat_eq_self word_less_nat_alt)
  ultimately show ?thesis using lb_candidate_mod [OF assms(1), of "of_nat k"] k(2) by auto
qed

theorem choose_core_prefers_idle_witness:
  "fst (choose_core 10 100 18 ((\<lambda>_. \<lparr>last_active = 0, last_gro = 0, softirq_backlog = 0, softirq_offset = 0\<rparr>)
     (18 := \<lparr>last_active = 0, last_gro = 95, softirq_backlog = 0, softirq_offset = 0\<rparr>,
      19 := \<lparr>last_active = 0, last_gro = 0, softirq_backlog = 1, softirq_offset = 0\<rparr>))) = 0"
proof -
  define ci :: "u32 \<Rightarrow> core_info_t" where "ci = ((\<lambda>_. \<lparr>last_active = 0, last_gro = 0, softirq_backlog = 0, softirq_offset = 0\<rparr>)
     (18 := \<lparr>last_active = 0, last_gro = 95, softirq_backlog = 0, softirq_offset = 0\<rparr>,
      19 := \<lparr>last_active = 0, last_gro = 0, softirq_backlog = 1, softirq_offset = 0\<rparr>))"
  obtain c ci' where c: "choose_core 10 100 18 ci = (c, ci')" by (cases "choose_core 10 100 18 ci")
  have b: "lb_busy 10 100 (ci (lb_candidate 18 (of_nat 0)))" "lb_busy 10 100 (ci (lb_candidate 18 (of_nat 1)))"
    "\<not> lb_busy 10 100 (ci (lb_candidate 18 (of_nat 2)))"
    by (simp_all add: lb_busy_def lb_candidate_def ci_def)
  have n: "lb_busy 10 100 (ci 18)" "lb_busy 10 100 (ci 19)" by (simp_all add: lb_busy_def ci_def)
  have o: "(18 :: u32) < 20" "softirq_offset (ci 18) < 4" "\<exists>k < 4. \<not> lb_busy 10 100 (ci (lb_candidate 18 (of_nat k)))"
    using b(3) by (simp, simp add: ci_def, intro exI [of _ 2]) simp
  obtain i where i: "i < 4" "unat c = (18 + i) mod 20"
    "\<not> lb_busy 10 100 (ci c)" "\<forall>k < i. lb_busy 10 100 (ci (lb_candidate 18 (of_nat k)))"
    using choose_core_prefers_idle [OF o(1,2) c] o(3) by auto
  have "c \<noteq> 18" "c \<noteq> 19" using i(3) n by auto
  then have "i \<noteq> 0" "i \<noteq> 1" using i(2) by (auto simp: word_unat_eq_iff [of c] intro!: Nat.gr0I)
  moreover have "\<not> 2 < i" using i(4) b(3) by auto
  ultimately have "unat c = 0" using i(1,2) by (cases "i = 2") auto
  then show ?thesis using c unfolding ci_def by (simp add: unat_eq_0)
qed

end
