(* ===== verification/Entrance.thy ===== *)
theory Entrance
  imports Net_Headers
begin

text \<open>
  The programs that are attached to the device and hand a packet to a transport
  (\<open>eBPF/entrance/entrance.c\<close>).  A program array is a partial function from
  indices to programs; a tail call to an empty place falls through.  A transport
  program is any function of the packet; \<open>verdict\<close> embeds a bare XDP verdict into
  its results.
\<close>

section \<open>Definitions\<close>

abbreviation (input) TCP_TRAN_XDP_IDX :: u32 where "TCP_TRAN_XDP_IDX \<equiv> 0"
abbreviation (input) HOMA_TRAN_XDP_IDX :: u32 where "HOMA_TRAN_XDP_IDX \<equiv> 1"
abbreviation (input) MAX_TRANSPORTS :: u32 where "MAX_TRANSPORTS \<equiv> 16"
abbreviation (input) MAX_UMEM_ID :: u32 where "MAX_UMEM_ID \<equiv> 16"

type_synonym 'r prog_array = "u32 \<Rightarrow> (bytes \<Rightarrow> 'r) option"

definition tail_call :: "'r prog_array \<Rightarrow> u32 \<Rightarrow> bytes \<Rightarrow> 'r \<Rightarrow> 'r" where
  "tail_call progs i p fallthrough =
    (if i < MAX_TRANSPORTS then (case progs i of Some f \<Rightarrow> f p | None \<Rightarrow> fallthrough) else fallthrough)"

definition entrance_sock :: "(xdp_action \<Rightarrow> 'r) \<Rightarrow> 'r prog_array \<Rightarrow> bytes \<Rightarrow> 'r" where
  "entrance_sock verdict tran_xdp_map p =
    (case parse_ethhdr 0 p of
       None \<Rightarrow> verdict XDP_DROP
     | Some (proto_type, eth, pos) \<Rightarrow>
         if proto_type \<noteq> bpf_htons ETH_P_IP then verdict XDP_DROP
         else case parse_iphdr pos p of
             None \<Rightarrow> verdict XDP_PASS
           | Some (proto_type, iph, pos) \<Rightarrow>
               if proto_type = IPPROTO_TCP then tail_call tran_xdp_map TCP_TRAN_XDP_IDX p (verdict XDP_PASS)
               else if proto_type = IPPROTO_HOMA then tail_call tran_xdp_map HOMA_TRAN_XDP_IDX p (verdict XDP_PASS)
               else verdict XDP_PASS)"

text \<open>The array \<open>umem_id_tran_map\<close> gives the transport of a packet buffer area.\<close>

definition entrance_gen :: "(xdp_action \<Rightarrow> 'r) \<Rightarrow> (u32 \<Rightarrow> u32) \<Rightarrow> 'r prog_array \<Rightarrow> u32 \<Rightarrow> bytes \<Rightarrow> 'r" where
  "entrance_gen verdict umem_id_tran_map tran_xdp_gen_map umem_id p =
    (if umem_id \<ge> MAX_UMEM_ID then verdict XDP_DROP
     else tail_call tran_xdp_gen_map (umem_id_tran_map umem_id) p (verdict XDP_ABORTED))"

definition entrance_egress :: "(xdp_action \<Rightarrow> 'r) \<Rightarrow> (u32 \<Rightarrow> u32) \<Rightarrow> 'r prog_array \<Rightarrow> u32 \<Rightarrow> bytes \<Rightarrow> 'r" where
  "entrance_egress verdict umem_id_tran_map tran_xdp_egress_map umem_id p =
    (if umem_id \<ge> MAX_UMEM_ID then verdict XDP_DROP
     else tail_call tran_xdp_egress_map (umem_id_tran_map umem_id) p (verdict XDP_DROP))"

section \<open>Properties\<close>

text \<open>An IPv4 frame without VLAN tags reaches the transport of its protocol number and no
  other: TCP frames run the program at index 0, Homa frames the one at index 1, and everything
  else is left to the kernel.\<close>

theorem entrance_dispatches_by_protocol:
  assumes "34 \<le> length p" "ld16 12 p = bpf_htons ETH_P_IP" "ld8 14 p = 0x45"
  shows "entrance_sock verdict progs p =
    (if ld8 23 p = IPPROTO_TCP then (case progs 0 of Some f \<Rightarrow> f p | None \<Rightarrow> verdict XDP_PASS)
     else if ld8 23 p = IPPROTO_HOMA then (case progs 1 of Some f \<Rightarrow> f p | None \<Rightarrow> verdict XDP_PASS)
     else verdict XDP_PASS)"
proof -
  have v: "\<not> proto_is_vlan (bpf_htons ETH_P_IP)" by (simp add: proto_is_vlan_def)
  have s: "skip_vlans 2 p (bpf_htons ETH_P_IP) 14 = (bpf_htons ETH_P_IP, 14)"
    using v by (simp add: numeral_2_eq_2)
  have e: "parse_ethhdr 0 p = Some (bpf_htons ETH_P_IP, 0, 14)"
    using assms(1,2) s by (simp add: parse_ethhdr_def Let_def)
  have "drop_bit 4 (0x45 :: u8) = 4" "(0x45 :: u8) AND 0xF = 5" by simp_all
  then have i: "parse_iphdr 14 p = Some (ld8 23 p, 14, 34)"
    using assms(1,3) by (simp add: parse_iphdr_def Let_def)
  show ?thesis unfolding entrance_sock_def e by (simp add: i tail_call_def)
qed

theorem entrance_dispatches_by_protocol_witness:
  "let p = st8 23 6 (st8 14 0x45 (st16 12 (bpf_htons ETH_P_IP) (replicate 60 0)))
   in entrance_sock (\<lambda>v. v) [0 \<mapsto> (\<lambda>_. XDP_TX), 1 \<mapsto> (\<lambda>_. XDP_ABORTED)] p = XDP_TX"
  using entrance_dispatches_by_protocol [of "st8 23 6 (st8 14 0x45 (st16 12 (bpf_htons ETH_P_IP) (replicate 60 0)))"
      "\<lambda>v. v" "[0 \<mapsto> (\<lambda>_. XDP_TX), 1 \<mapsto> (\<lambda>_. XDP_ABORTED)]"]
  by (simp add: Let_def mem_simps)

end
