(* ===== verification/User_Conn.thy ===== *)
theory User_Conn
  imports Tcp_State
begin

text \<open>
  The user library's side of a connection (\<open>lib/eTran_posix.cc\<close>, \<open>lib/funcs_mtp.h\<close>,
  \<open>lib/include/eTran_posix.h\<close>): what it does with the metadata that the receive program
  leaves in front of a packet, how it reads received packets out in order, and how it
  cuts data into packets with metadata for the egress program.

  A packet is its metadata and its frame.  Connections are referred to by the pointer
  that the metadata carries.  The buffers that the pool hands out are an argument; the
  buffers given back are collected in \<open>t_freed\<close>.  A slot of the transmit ring is waited for.
\<close>

section \<open>State\<close>

record upkt =
  up_addr :: u64
  up_meta :: meta_info
  up_frame :: bytes

datatype uconn_status = CONN_CLOSED | CONN_OPEN_REQUESTED | CONN_ACCEPT_REQUESTED | CONN_BIND_REQUESTED | CONN_OPEN
  | CONN_CLOSE_REQUESTED

record eTrantcp_connection =
  rxb_head :: u32
  rxb_used :: u32
  rxb_bump :: u32
  txb_head :: u32
  txb_sent :: u32
  txb_allocated :: u32
  u_local_ip :: u32
  u_remote_ip :: u32
  u_local_port :: u16
  u_remote_port :: u16
  u_rx_buf_size :: u32
  u_tx_buf_size :: u32
  xsk_budget :: u32
  u_qid :: u32
  u_status :: uconn_status
  pending_free_bytes :: u32
  unack_tx_addrs :: "(u64 \<times> u32) list"
  rx_addrs :: "upkt list"
  ooo_rx_addrs :: "upkt list"
  in_rx_bump_pending :: bool
  force_rx_bump :: bool
  try_accept_done :: bool

text \<open>The thread: lists of connections with work, and the fields that reassembly uses.\<close>

type_synonym uflow = "u32 \<times> u16 \<times> u32 \<times> u16"

record utctx =
  open_conns :: "uflow \<rightharpoonup> u64"
  t_freed :: "u64 list"
  free_pending_conns :: "u64 list"
  rx_bump_pending_conns :: "u64 list"
  retransmission_conns :: "(u64 \<times> u32) list"
  following_packets :: bool
  expected_seq :: u32
  t_ooo_start :: u32
  t_ooo_len :: u32
  last_offset :: u32
  t_rx_next_pos :: u32
  t_rx_buf_size :: u32

definition rxmeta_set_pos :: "u32 \<Rightarrow> upkt \<Rightarrow> upkt" where
  "rxmeta_set_pos v p = p\<lparr>up_meta := upd_rx (\<lambda>r. r\<lparr>rx_rx_pos := v\<rparr>) (up_meta p)\<rparr>"

definition rxmeta_set_poff :: "u16 \<Rightarrow> upkt \<Rightarrow> upkt" where
  "rxmeta_set_poff v p = p\<lparr>up_meta := upd_rx (\<lambda>r. r\<lparr>rx_poff := v\<rparr>) (up_meta p)\<rparr>"

definition rxmeta_set_plen :: "u16 \<Rightarrow> upkt \<Rightarrow> upkt" where
  "rxmeta_set_plen v p = p\<lparr>up_meta := upd_rx (\<lambda>r. r\<lparr>rx_plen := v\<rparr>) (up_meta p)\<rparr>"

abbreviation rxmeta_pos :: "upkt \<Rightarrow> u32" where "rxmeta_pos p \<equiv> rx_rx_pos (meta_rx (up_meta p))"
abbreviation rxmeta_poff :: "upkt \<Rightarrow> u16" where "rxmeta_poff p \<equiv> rx_poff (meta_rx (up_meta p))"
abbreviation rxmeta_plen :: "upkt \<Rightarrow> u16" where "rxmeta_plen p \<equiv> rx_plen (meta_rx (up_meta p))"

definition connection_prepare_buffer :: "eTrantcp_connection \<Rightarrow> eTrantcp_connection" where
  "connection_prepare_buffer c = c\<lparr>rxb_head := 0, rxb_used := 0, rxb_bump := 0, txb_head := 0, txb_sent := 0,
     txb_allocated := 0, xsk_budget := push_bit TCP_WND_SCALE 0xFFFF\<rparr>"

section \<open>Receiving\<close>

definition in_order_receive :: "upkt \<Rightarrow> eTrantcp_connection \<Rightarrow> eTrantcp_connection" where
  "in_order_receive p c = c\<lparr>rx_addrs := rx_addrs c @ [p]\<rparr>"

definition out_of_order_receive :: "upkt \<Rightarrow> eTrantcp_connection \<Rightarrow> eTrantcp_connection" where
  "out_of_order_receive p c = c\<lparr>ooo_rx_addrs := ooo_rx_addrs c @ [p]\<rparr>"

definition parse_packet :: "upkt \<Rightarrow> u32 \<Rightarrow> u32 \<times> u32" where
  "parse_packet p py_len =
    (let seq_num = bpf_ntohl (ld32 38 (up_frame p))
     in (seq_num + (ucast (rxmeta_poff p) - 66), seq_num + py_len))"

text \<open>The position in the receive buffer of the byte at a stream offset.\<close>

definition user_pos :: "utctx \<Rightarrow> u32 \<Rightarrow> u32" where
  "user_pos t offset =
    (let rx_pos = t_rx_next_pos t + (offset - last_offset t)
     in if rx_pos \<ge> t_rx_buf_size t then rx_pos - t_rx_buf_size t else rx_pos)"

definition advance_pos :: "u32 \<Rightarrow> utctx \<Rightarrow> utctx" where
  "advance_pos d t =
    (let n = t_rx_next_pos t + d in t\<lparr>t_rx_next_pos := (if n \<ge> t_rx_buf_size t then n - t_rx_buf_size t else n)\<rparr>)"

text \<open>\<open>mtp_add_data_seg_wrapper\<close> of the library; the last component is the bytes added to \<open>cached_rx_bump\<close>.\<close>

definition user_add_data_seg ::
  "u32 \<Rightarrow> u32 \<Rightarrow> u32 \<Rightarrow> u32 \<Rightarrow> upkt \<Rightarrow> utctx \<Rightarrow> eTrantcp_connection \<Rightarrow> utctx \<times> eTrantcp_connection \<times> u32" where
  "user_add_data_seg start_seq end_seq py_len offset p t c =
    (if \<not> following_packets t
     then let t = t\<lparr>expected_seq := end_seq, following_packets := True, t_rx_buf_size := 524288, last_offset := offset\<rparr>
          in (t, in_order_receive (rxmeta_set_pos (user_pos t offset) p) c, py_len)
     else if expected_seq t = start_seq
     then if t_ooo_len t > 0 \<and> end_seq = t_ooo_start t
          then let c = c\<lparr>rx_addrs := rx_addrs c @ ooo_rx_addrs c, ooo_rx_addrs := []\<rparr>;
                   p = rxmeta_set_pos (user_pos t offset) p;
                   bump = py_len + t_ooo_len t;
                   t = advance_pos bump (t\<lparr>last_offset := offset\<rparr>)
               in (t\<lparr>expected_seq := t_ooo_start t + t_ooo_len t, t_ooo_len := 0\<rparr>, in_order_receive p c, bump)
          else let p = rxmeta_set_pos (user_pos t offset) p;
                   t = advance_pos (offset - last_offset t) (t\<lparr>expected_seq := expected_seq t + py_len\<rparr>)
               in (t\<lparr>last_offset := offset\<rparr>, in_order_receive p c, py_len)
     else if t_ooo_len t = 0
     then (t\<lparr>t_ooo_start := start_seq, t_ooo_len := py_len\<rparr>,
           out_of_order_receive (rxmeta_set_pos (user_pos t offset) p) c, 0)
     else if end_seq = t_ooo_start t
     then (t\<lparr>t_ooo_start := start_seq, t_ooo_len := t_ooo_len t + py_len\<rparr>,
           out_of_order_receive (rxmeta_set_pos (user_pos t offset) p) c, 0)
     else if t_ooo_start t + t_ooo_len t = start_seq
     then (t\<lparr>t_ooo_len := t_ooo_len t + py_len\<rparr>, out_of_order_receive (rxmeta_set_pos (user_pos t offset) p) c, 0)
     else (t, c, 0))"

section \<open>Reading\<close>

text \<open>
  The loop over the received packets: the bytes copied so far, the packets kept, the
  buffers given back.  \<open>ok\<close> is the range test on the position.
\<close>

definition copy_payload :: "nat \<Rightarrow> nat \<Rightarrow> upkt \<Rightarrow> bytes" where
  "copy_payload py_off n p = map (\<lambda>j. ld8 (py_off + j) (up_frame p)) [0..<n]"

primrec peek_loop :: "(nat \<Rightarrow> bool) \<Rightarrow> nat \<Rightarrow> nat \<Rightarrow> bytes \<Rightarrow> upkt list \<Rightarrow> bytes \<times> upkt list \<times> u64 list" where
  "peek_loop ok bufsz count out [] = (out, [], [])"
| "peek_loop ok bufsz count out (p # ps) =
    (let py_len = unat (rxmeta_plen p); py_off = unat (rxmeta_poff p); rx_pos = unat (rxmeta_pos p)
     in if ok rx_pos
        then let n = min py_len (count - length out);
                 out = out @ copy_payload py_off n p
             in if n = py_len
                then if length out = count then (out, ps, [up_addr p])
                     else let (out, ps, fr) = peek_loop ok bufsz count out ps in (out, ps, up_addr p # fr)
                else let e = rx_pos + n;
                         p = rxmeta_set_pos (of_nat (if e > bufsz then e - bufsz else e))
                           (rxmeta_set_plen (of_nat (py_len - n)) (rxmeta_set_poff (of_nat (py_off + n)) p))
                     in (out, p # ps, [])
        else if length out = count then (out, p # ps, [])
        else let (out, ps, fr) = peek_loop ok bufsz count out ps in (out, p # ps, fr))"

definition eTran_tcp_rx_peek_count_zc ::
  "nat \<Rightarrow> utctx \<Rightarrow> eTrantcp_connection \<Rightarrow> bytes \<times> utctx \<times> eTrantcp_connection" where
  "eTran_tcp_rx_peek_count_zc count t c =
    (if rxb_used c = 0 then ([], t, c)
     else let count = min count (unat (rxb_used c));
              head = unat (rxb_head c); bufsz = unat (u_rx_buf_size c);
              ok = (if head + count > bufsz then (\<lambda>pos. pos \<ge> head \<or> pos < head + count - bufsz)
                    else (\<lambda>pos. pos \<ge> head \<and> pos < head + count));
              (out, ps, fr) = peek_loop ok bufsz count [] (rx_addrs c)
          in (out, t\<lparr>t_freed := t_freed t @ fr\<rparr>, c\<lparr>rx_addrs := ps\<rparr>))"

definition eTran_tcp_rx_release ::
  "u64 \<Rightarrow> u32 \<Rightarrow> utctx \<Rightarrow> eTrantcp_connection \<Rightarrow> utctx \<times> eTrantcp_connection" where
  "eTran_tcp_rx_release i len t c =
    (if rxb_used c < len then (t, c)
     else let h = rxb_head c + len;
              c = c\<lparr>rxb_used := rxb_used c - len, rxb_bump := rxb_bump c + len,
                    rxb_head := (if h > u_rx_buf_size c then h - u_rx_buf_size c else h)\<rparr>;
              due = (rxb_bump c > c_min (c_min (drop_bit 2 (u_rx_buf_size c)) (push_bit TCP_WND_SCALE 0xFFFF)) 32768
                     \<or> force_rx_bump c) \<and> \<not> in_rx_bump_pending c
          in (if due then t\<lparr>rx_bump_pending_conns := rx_bump_pending_conns t @ [i]\<rparr> else t,
              c\<lparr>in_rx_bump_pending := in_rx_bump_pending c \<or> due, force_rx_bump := False\<rparr>))"

definition conn_recv :: "u64 \<Rightarrow> nat \<Rightarrow> utctx \<Rightarrow> eTrantcp_connection \<Rightarrow> bytes \<times> utctx \<times> eTrantcp_connection" where
  "conn_recv i count t c =
    (let (out, t, c) = eTran_tcp_rx_peek_count_zc count t c
     in if out = [] then (out, t, c)
        else let (t, c) = eTran_tcp_rx_release i (of_nat (length out)) t c in (out, t, c))"

section \<open>Sending\<close>

definition xsk_bytes_avail :: "eTrantcp_connection \<Rightarrow> u32" where
  "xsk_bytes_avail c = (if xsk_budget c > txb_sent c then xsk_budget c - txb_sent c else 0)"

definition txb_bytes_avail :: "eTrantcp_connection \<Rightarrow> u32" where
  "txb_bytes_avail c = c_min (u_tx_buf_size c - txb_sent c - txb_allocated c) (xsk_bytes_avail c)"

text \<open>The result is the number of bytes reserved, or \<open>-EINVAL\<close>.\<close>

definition eTran_tcp_tx_reserve_zc :: "nat \<Rightarrow> eTrantcp_connection \<Rightarrow> int \<times> eTrantcp_connection" where
  "eTran_tcp_tx_reserve_zc reserve_len c =
    (if u_status c \<noteq> CONN_OPEN then (-22, c)
     else let n = min reserve_len (unat (txb_bytes_avail c))
          in (int n, c\<lparr>txb_allocated := txb_allocated c + of_nat n\<rparr>))"

definition advance_head :: "u32 \<Rightarrow> eTrantcp_connection \<Rightarrow> eTrantcp_connection" where
  "advance_head d c =
    (let h = txb_head c + d in c\<lparr>txb_head := (if h \<ge> u_tx_buf_size c then h - u_tx_buf_size c else h)\<rparr>)"

text \<open>Metadata of a packet to send: position and length, and on the first packet the bytes submitted.\<close>

definition tx_meta :: "u32 \<Rightarrow> u32 \<Rightarrow> u32 \<Rightarrow> meta_info" where
  "tx_meta pending pos plen = meta_put_tx \<lparr> tx_slowpath = 0, tx_flag = 0, tx_rx_bump = 0, tx_tx_pending = pending,
     tx_tx_pos = pos, tx_plen = plen \<rparr> (replicate 32 0)"

text \<open>A frame: the addresses are written into what the buffer held before, then the payload.\<close>

definition put_addresses :: "eTrantcp_connection \<Rightarrow> bytes \<Rightarrow> bytes" where
  "put_addresses c b = st16 36 (bpf_htons (u_remote_port c)) (st16 34 (bpf_htons (u_local_port c))
     (st8 23 6 (st32 30 (bpf_htonl (u_remote_ip c)) (st32 26 (bpf_htonl (u_local_ip c)) b))))"

definition data_frame :: "eTrantcp_connection \<Rightarrow> bytes \<Rightarrow> bytes \<Rightarrow> bytes" where
  "data_frame c old payload = take 66 (put_addresses c old) @ payload"

text \<open>
  The loop over the packets of one submission, with the buffers from the pool; \<open>None\<close> is the
  failed assertion that a buffer is available.
\<close>

function segment_loop ::
  "(u64 \<Rightarrow> bytes) \<Rightarrow> u32 \<Rightarrow> u64 list \<Rightarrow> bytes \<Rightarrow> eTrantcp_connection \<Rightarrow> (upkt list \<times> eTrantcp_connection) option" where
  "segment_loop umem pending bufs buf c =
    (if buf = [] then Some ([], c)
     else case bufs of
         [] \<Rightarrow> None
       | a # bufs \<Rightarrow>
           let payload = take TCP_MSS_W_TS buf; plen = of_nat (length payload);
               p = \<lparr>up_addr = a, up_meta = tx_meta pending (txb_head c) plen, up_frame = data_frame c (umem a) payload\<rparr>;
               c = advance_head plen (c\<lparr>unack_tx_addrs := unack_tx_addrs c @ [(a, plen)]\<rparr>)
           in map_option (\<lambda>(ps, c). (p # ps, c)) (segment_loop umem 0 bufs (drop TCP_MSS_W_TS buf) c))"
  by pat_completeness auto
termination
  by (relation "measure (\<lambda>(umem, pending, bufs, buf, c). length buf)") auto

definition tcp_flow_tx_segmentation_zc ::
  "(u64 \<Rightarrow> bytes) \<Rightarrow> u64 list \<Rightarrow> bytes \<Rightarrow> eTrantcp_connection \<Rightarrow> (upkt list \<times> eTrantcp_connection) option" where
  "tcp_flow_tx_segmentation_zc umem bufs buf c = segment_loop umem (of_nat (length buf)) bufs buf c"

definition eTran_tcp_tx_submit_zc ::
  "(u64 \<Rightarrow> bytes) \<Rightarrow> u64 list \<Rightarrow> bytes \<Rightarrow> eTrantcp_connection \<Rightarrow> (upkt list \<times> eTrantcp_connection) option" where
  "eTran_tcp_tx_submit_zc umem bufs buf c =
    (if u_status c \<noteq> CONN_OPEN \<or> unat (txb_allocated c) < length buf then Some ([], c)
     else map_option (\<lambda>(ps, c). (ps, c\<lparr>txb_allocated := txb_allocated c - of_nat (length buf),
                                       txb_sent := txb_sent c + of_nat (length buf)\<rparr>))
            (tcp_flow_tx_segmentation_zc umem bufs buf c))"

definition conn_send ::
  "(u64 \<Rightarrow> bytes) \<Rightarrow> u64 list \<Rightarrow> bytes \<Rightarrow> eTrantcp_connection \<Rightarrow> (int \<times> upkt list \<times> eTrantcp_connection) option" where
  "conn_send umem bufs buf c =
    (let (ret, c) = eTran_tcp_tx_reserve_zc (length buf) c
     in if ret \<le> 0 then Some (ret, [], c)
        else map_option (\<lambda>(ps, c). (ret, ps, c)) (eTran_tcp_tx_submit_zc umem bufs (take (nat ret) buf) c))"

section \<open>Synchronisation with the data path\<close>

text \<open>
  \<open>ack_bytes\<close> and \<open>go_back_pos\<close> are one word of the metadata.  The result is whether the
  transmit buffer was full.
\<close>

definition user_go_back :: "u64 \<Rightarrow> u32 \<Rightarrow> utctx \<Rightarrow> eTrantcp_connection \<Rightarrow> utctx \<times> eTrantcp_connection" where
  "user_go_back i pos t c =
    (let pos = pos AND NOT RECOVERY_MASK
     in if pos = txb_head c then (t, c)
        else let n = (if txb_head c > pos then txb_head c - pos else u_tx_buf_size c - (pos - txb_head c))
             in (t\<lparr>retransmission_conns := retransmission_conns t @ [(i, n)]\<rparr>,
                 c\<lparr>txb_head := pos, txb_allocated := txb_allocated c + n, txb_sent := txb_sent c - n\<rparr>))"

definition sync_state :: "u64 \<Rightarrow> upkt \<Rightarrow> utctx \<Rightarrow> eTrantcp_connection \<Rightarrow> bool \<times> utctx \<times> eTrantcp_connection" where
  "sync_state i p t c =
    (let send_event = (txb_bytes_avail c = 0);
         budget = rx_xsk_budget_avail (meta_rx (up_meta p));
         ack_bytes = rx_ack_bytes (meta_rx (up_meta p));
         go_back_pos = rx_go_back_pos (meta_rx (up_meta p));
         old_txb_sent = txb_sent c;
         (t, c) = (if go_back_pos \<noteq> POISON_32 \<and> go_back_pos AND RECOVERY_MASK \<noteq> 0 then user_go_back i go_back_pos t c else (t, c));
         c = (if budget \<noteq> POISON_32 then c\<lparr>xsk_budget := budget\<rparr> else c)
     in if old_txb_sent \<noteq> txb_sent c then (send_event, t, c)
        else if ack_bytes \<noteq> POISON_32 \<and> ack_bytes \<noteq> 0
        then (send_event,
              if pending_free_bytes c = 0 then t\<lparr>free_pending_conns := free_pending_conns t @ [i]\<rparr> else t,
              c\<lparr>txb_sent := txb_sent c - ack_bytes, pending_free_bytes := pending_free_bytes c + ack_bytes\<rparr>)
        else (send_event, t, c))"

text \<open>
  A round of received packets: the connection of the last packet, the bytes received for
  it, whether it gets an event to send, the events, the queues whose packets are replaced.
\<close>

datatype etran_event =
    ETRANTCP_EV_LISTEN_OPEN u64 u32 int
  | ETRANTCP_EV_LISTEN_NEWCONN u64 u32 u32 u16
  | ETRANTCP_EV_LISTEN_ACCEPT u64 u32 u32 int bool
  | ETRANTCP_EV_CONN_OPEN u64 u32 int
  | ETRANTCP_EV_CONN_BIND u64 u32 int
  | ETRANTCP_EV_CONN_CLOSE u64 u32 int
  | ETRANTCP_EV_CONN_RECVED u64
  | ETRANTCP_EV_CONN_SENDBUF u64

record rx_round =
  rr_t :: utctx
  rr_conns :: "u64 \<Rightarrow> eTrantcp_connection"
  rr_cached :: "u64 option"
  rr_bump :: u32
  rr_sendbuf :: bool
  rr_events :: "etran_event list"
  rr_fill :: "u32 list"

definition lazy_update_prev_conn_rxev :: "u64 \<Rightarrow> rx_round \<Rightarrow> rx_round" where
  "lazy_update_prev_conn_rxev i r =
    (if rr_bump r = 0 then r
     else r\<lparr>rr_events := rr_events r @ [ETRANTCP_EV_CONN_RECVED i],
            rr_conns := (rr_conns r)(i := (rr_conns r i)\<lparr>rxb_used := rxb_used (rr_conns r i) + rr_bump r\<rparr>)\<rparr>)"

definition lazy_update_prev_conn_txev :: "u64 \<Rightarrow> rx_round \<Rightarrow> rx_round" where
  "lazy_update_prev_conn_txev i r =
    (if rr_sendbuf r then r\<lparr>rr_events := rr_events r @ [ETRANTCP_EV_CONN_SENDBUF i]\<rparr> else r)"

definition switch_conn :: "u64 \<Rightarrow> rx_round \<Rightarrow> rx_round" where
  "switch_conn i r =
    (case rr_cached r of
       None \<Rightarrow> r\<lparr>rr_cached := Some i, rr_bump := 0\<rparr>
     | Some j \<Rightarrow>
         if i = j then r
         else (lazy_update_prev_conn_txev j (lazy_update_prev_conn_rxev j r))
                \<lparr>rr_cached := Some i, rr_bump := 0, rr_sendbuf := False\<rparr>)"

definition give_back :: "upkt \<Rightarrow> rx_round \<Rightarrow> rx_round" where
  "give_back p r = r\<lparr>rr_t := (rr_t r)\<lparr>t_freed := t_freed (rr_t r) @ [up_addr p]\<rparr>\<rparr>"

definition put_user :: "u64 \<Rightarrow> utctx \<Rightarrow> eTrantcp_connection \<Rightarrow> rx_round \<Rightarrow> rx_round" where
  "put_user i t c r = r\<lparr>rr_t := t, rr_conns := (rr_conns r)(i := c)\<rparr>"

definition handle_data :: "u64 \<Rightarrow> upkt \<Rightarrow> rx_round \<Rightarrow> rx_round" where
  "handle_data i p r =
    (let py_len = rxmeta_plen p; ooo_bump = rx_ooo_bump (meta_rx (up_meta p)); c = rr_conns r i
     in if py_len = POISON_16
        then give_back p (if ooo_bump AND OOO_CLEAR_MASK \<noteq> 0 then put_user i (rr_t r) (c\<lparr>ooo_rx_addrs := []\<rparr>) r else r)
        else let (start_seq, end_seq) = parse_packet p (ucast py_len);
                 (t, c, bump) = user_add_data_seg start_seq end_seq (ucast py_len) (rxmeta_pos p) p (rr_t r) c
             in (put_user i t c r)\<lparr>rr_bump := rr_bump r + bump\<rparr>)"

definition handle_rx :: "upkt \<Rightarrow> bool \<Rightarrow> rx_round \<Rightarrow> rx_round" where
  "handle_rx p is_last r =
    (let i = rx_conn (meta_rx (up_meta p)); q = rx_qid (meta_rx (up_meta p));
         r = (if i = POISON_64 \<or> i = 0 then give_back p r
              else let r = switch_conn i r
                   in if q = POISON_32
                      then let (ev, t, c) = sync_state i p (rr_t r) (rr_conns r i)
                           in give_back p ((put_user i t c r)\<lparr>rr_sendbuf := rr_sendbuf r \<or> ev\<rparr>)
                      else let c = rr_conns r i;
                               c = (if q AND FORCE_RX_BUMP_MASK \<noteq> 0 then c\<lparr>force_rx_bump := True\<rparr> else c);
                               r = r\<lparr>rr_fill := rr_fill r @ [q AND NOT FORCE_RX_BUMP_MASK]\<rparr>;
                               (ev, t, c) = sync_state i p (rr_t r) c
                           in handle_data i p ((put_user i t c r)\<lparr>rr_sendbuf := rr_sendbuf r \<or> ev\<rparr>))
     in if is_last
        then case rr_cached r of
               None \<Rightarrow> r
             | Some j \<Rightarrow> lazy_update_prev_conn_txev j (lazy_update_prev_conn_rxev j r)
        else r)"

section \<open>Work after a round\<close>

text \<open>
  Buffers of acknowledged bytes: packets are taken from the front until the count is
  exactly zero.  \<open>None\<close> is taking from an empty list.
\<close>

fun free_acked :: "u32 \<Rightarrow> (u64 \<times> u32) list \<Rightarrow> ((u64 \<times> u32) list \<times> u64 list) option" where
  "free_acked n us =
    (if n = 0 then Some (us, [])
     else case us of
         [] \<Rightarrow> None
       | (a, plen) # us \<Rightarrow> map_option (\<lambda>(us, fr). (us, a # fr)) (free_acked (n - plen) us))"

type_synonym uconns = "u64 \<Rightarrow> eTrantcp_connection"

primrec free_buffers_loop :: "u64 list \<Rightarrow> utctx \<Rightarrow> uconns \<Rightarrow> (utctx \<times> uconns) option" where
  "free_buffers_loop [] t cs = Some (t, cs)"
| "free_buffers_loop (i # is) t cs =
    (case free_acked (pending_free_bytes (cs i)) (unack_tx_addrs (cs i)) of
       None \<Rightarrow> None
     | Some (us, fr) \<Rightarrow>
         free_buffers_loop is (t\<lparr>t_freed := t_freed t @ fr, free_pending_conns := is\<rparr>)
           (cs(i := (cs i)\<lparr>unack_tx_addrs := us, pending_free_bytes := 0\<rparr>)))"

definition tcp_free_buffers :: "utctx \<Rightarrow> uconns \<Rightarrow> (utctx \<times> uconns) option" where
  "tcp_free_buffers t cs = free_buffers_loop (free_pending_conns t) t cs"

text \<open>
  Retransmission: the loop over the unacknowledged packets with the bytes still to submit,
  whether one has been submitted and the bytes passed.  A packet keeps its buffer; its
  metadata is written again.
\<close>

function retransmit_loop ::
  "u32 \<Rightarrow> bool \<Rightarrow> u32 \<Rightarrow> (u64 \<times> u32) list \<Rightarrow> eTrantcp_connection \<Rightarrow> (u64 \<times> u32 \<times> u32) list \<times> u32 \<times> eTrantcp_connection" where
  "retransmit_loop len submitted skip_len us c =
    (if len = 0 then ([], len, c)
     else case us of
         [] \<Rightarrow> ([], len, c)
       | (a, plen) # us \<Rightarrow>
           let skip_len = skip_len + plen
           in if skip_len < txb_sent c
              then retransmit_loop len submitted skip_len (if submitted then drop 1 us else us) c
              else let (ps, rest, c') = retransmit_loop (if len > plen then len - plen else 0) True skip_len us (advance_head plen c)
                   in ((a, txb_head c, plen) # ps, rest, c'))"
  by pat_completeness auto
termination
  by (relation "measure (\<lambda>(len, submitted, skip_len, us, c). length us)") (auto split: if_splits)

definition eTran_tcp_tx_submit_zc_retransmission ::
  "u32 \<Rightarrow> eTrantcp_connection \<Rightarrow> (u64 \<times> meta_info) list \<times> eTrantcp_connection" where
  "eTran_tcp_tx_submit_zc_retransmission len c =
    (if u_status c \<noteq> CONN_OPEN then ([], c)
     else let (ps, rest, c) = retransmit_loop len False 0 (unack_tx_addrs c) c;
              n = len - rest;
              metas = (case ps of [] \<Rightarrow> []
                       | (a, pos, plen) # qs \<Rightarrow> (a, tx_meta n pos plen) # map (\<lambda>(a, pos, plen). (a, tx_meta 0 pos plen)) qs)
          in (metas, c\<lparr>txb_allocated := txb_allocated c - n, txb_sent := txb_sent c + n\<rparr>))"

primrec retransmission_loop ::
  "(u64 \<times> u32) list \<Rightarrow> utctx \<Rightarrow> uconns \<Rightarrow> (u64 \<times> meta_info) list \<times> utctx \<times> uconns" where
  "retransmission_loop [] t cs = ([], t, cs)"
| "retransmission_loop (x # xs) t cs =
    (let (i, len) = x;
         (ms, c) = (if unack_tx_addrs (cs i) \<noteq> [] then eTran_tcp_tx_submit_zc_retransmission len (cs i) else ([], cs i));
         (ms', t, cs) = retransmission_loop xs (t\<lparr>retransmission_conns := xs\<rparr>) (cs(i := c))
     in (ms @ ms', t, cs))"

definition tcp_retransmission :: "utctx \<Rightarrow> uconns \<Rightarrow> (u64 \<times> meta_info) list \<times> utctx \<times> uconns" where
  "tcp_retransmission t cs = retransmission_loop (retransmission_conns t) t cs"

text \<open>The synchronisation packet of a connection.\<close>

definition ebpf_sync_pkt :: "(u64 \<Rightarrow> bytes) \<Rightarrow> u64 \<Rightarrow> eTrantcp_connection \<Rightarrow> upkt \<times> eTrantcp_connection" where
  "ebpf_sync_pkt umem a c =
    (\<lparr>up_addr = a, up_meta = meta_put_tx \<lparr> tx_slowpath = 0, tx_flag = FLAG_SYNC, tx_rx_bump = rxb_bump c, tx_tx_pending = 0,
        tx_tx_pos = 0, tx_plen = 0 \<rparr> (replicate 32 0), up_frame = take 66 (put_addresses c (umem a))\<rparr>,
     c\<lparr>rxb_bump := 0, in_rx_bump_pending := False\<rparr>)"

text \<open>
  All connections with consumed bytes to report.  \<open>rsv\<close> says for each attempt whether the
  transmit ring had a free slot; at the first refusal the rest stays pending.
\<close>

fun ebpf_sync_loop ::
  "(u64 \<Rightarrow> bytes) \<Rightarrow> bool list \<Rightarrow> u64 list \<Rightarrow> u64 list \<Rightarrow> utctx \<Rightarrow> uconns \<Rightarrow> (upkt list \<times> utctx \<times> uconns) option" where
  "ebpf_sync_loop umem rsv bufs [] t cs = Some ([], t, cs)"
| "ebpf_sync_loop umem (True # rsv) (a # bufs) (i # is) t cs =
    (let (p, c) = ebpf_sync_pkt umem a (cs i)
     in map_option (\<lambda>(ps, t, cs). (p # ps, t, cs))
          (ebpf_sync_loop umem rsv bufs is (t\<lparr>rx_bump_pending_conns := is\<rparr>) (cs(i := c))))"
| "ebpf_sync_loop umem (True # rsv) [] (i # is) t cs = None"
| "ebpf_sync_loop umem rsv bufs (i # is) t cs = Some ([], t, cs)"

definition tcp_ebpf_sync ::
  "(u64 \<Rightarrow> bytes) \<Rightarrow> bool list \<Rightarrow> u64 list \<Rightarrow> utctx \<Rightarrow> uconns \<Rightarrow> (upkt list \<times> utctx \<times> uconns) option" where
  "tcp_ebpf_sync umem rsv bufs t cs = ebpf_sync_loop umem rsv bufs (rx_bump_pending_conns t) t cs"

section \<open>Polling\<close>

text \<open>The packets taken from the receive rings are handled in order; the last one closes the round.\<close>

fun handle_all :: "upkt list \<Rightarrow> rx_round \<Rightarrow> rx_round" where
  "handle_all [] r = r"
| "handle_all (p # ps) r = handle_all ps (handle_rx p (ps = []) r)"

definition tcp_nic_poll :: "upkt list \<Rightarrow> utctx \<Rightarrow> uconns \<Rightarrow> rx_round" where
  "tcp_nic_poll pkts t cs =
    handle_all pkts \<lparr>rr_t = t, rr_conns = cs, rr_cached = None, rr_bump = 0, rr_sendbuf = False, rr_events = [], rr_fill = []\<rparr>"

section \<open>Unfolding of the loops\<close>

declare segment_loop.simps [simp del] retransmit_loop.simps [simp del] free_acked.simps [simp del]

lemma segment_loop_empty: "segment_loop umem pending bufs [] c = Some ([], c)"
  by (simp add: segment_loop.simps)

lemma segment_loop_no_buffer: "buf \<noteq> [] \<Longrightarrow> segment_loop umem pending [] buf c = None"
  by (simp add: segment_loop.simps)

abbreviation sent_pkt :: "(u64 \<Rightarrow> bytes) \<Rightarrow> u32 \<Rightarrow> u64 \<Rightarrow> bytes \<Rightarrow> eTrantcp_connection \<Rightarrow> upkt" where
  "sent_pkt umem pending a payload c \<equiv> \<lparr>up_addr = a, up_meta = tx_meta pending (txb_head c) (of_nat (length payload)),
     up_frame = data_frame c (umem a) payload\<rparr>"

abbreviation sent_conn :: "u64 \<Rightarrow> bytes \<Rightarrow> eTrantcp_connection \<Rightarrow> eTrantcp_connection" where
  "sent_conn a payload c \<equiv>
     advance_head (of_nat (length payload)) (c\<lparr>unack_tx_addrs := unack_tx_addrs c @ [(a, of_nat (length payload))]\<rparr>)"

lemma segment_loop_packet:
  "buf \<noteq> [] \<Longrightarrow> segment_loop umem pending (a # bufs) buf c =
    map_option (\<lambda>(ps, c'). (sent_pkt umem pending a (take TCP_MSS_W_TS buf) c # ps, c'))
      (segment_loop umem 0 bufs (drop TCP_MSS_W_TS buf) (sent_conn a (take TCP_MSS_W_TS buf) c))"
  by (subst segment_loop.simps) (simp add: Let_def)

lemma retransmit_loop_end: "len = 0 \<or> us = [] \<Longrightarrow> retransmit_loop len submitted skip_len us c = ([], len, c)"
  by (auto simp: retransmit_loop.simps split: list.split)

lemma retransmit_loop_skip:
  "len \<noteq> 0 \<Longrightarrow> skip_len + plen < txb_sent c \<Longrightarrow> retransmit_loop len submitted skip_len ((a, plen) # us) c =
    retransmit_loop len submitted (skip_len + plen) (if submitted then drop 1 us else us) c"
  by (subst retransmit_loop.simps) (simp add: Let_def)

lemma retransmit_loop_submit:
  "len \<noteq> 0 \<Longrightarrow> \<not> skip_len + plen < txb_sent c \<Longrightarrow> retransmit_loop len submitted skip_len ((a, plen) # us) c =
    (let (ps, rest, c') = retransmit_loop (if len > plen then len - plen else 0) True (skip_len + plen) us (advance_head plen c)
     in ((a, txb_head c, plen) # ps, rest, c'))"
  by (subst retransmit_loop.simps) (simp add: Let_def)

end
