(* ===== verification/User_Stream.thy ===== *)
theory User_Stream
  imports User_Conn "HOL-Library.Sublist"
begin

text \<open>
  The byte stream an application reads: packets handed up in order are read out in order,
  whatever the application's read sizes; packets handed up out of order are not.
\<close>

abbreviation (input) RX_BUF :: nat where "RX_BUF \<equiv> 524288"

section \<open>Packets laid out in the receive buffer\<close>

definition plen_of :: "upkt \<Rightarrow> nat" where
  "plen_of p = unat (rxmeta_plen p)"

definition payload_of :: "upkt \<Rightarrow> bytes" where
  "payload_of p = copy_payload (unat (rxmeta_poff p)) (plen_of p) p"

definition pkt_fits :: "upkt \<Rightarrow> bool" where
  "pkt_fits p = (length (up_meta p) = 32 \<and> unat (rxmeta_poff p) + plen_of p < 65536 \<and> 0 < plen_of p)"

text \<open>A position stands for an offset behind the head; the head may be the end of the buffer.\<close>

definition placed :: "nat \<Rightarrow> nat \<Rightarrow> nat \<Rightarrow> bool" where
  "placed h off pos \<longleftrightarrow> pos = h + off \<and> h + off \<le> RX_BUF \<or> pos + RX_BUF = h + off"

fun laid :: "nat \<Rightarrow> nat \<Rightarrow> upkt list \<Rightarrow> bool" where
  "laid h off [] = True"
| "laid h off (p # ps) = (placed h off (unat (rxmeta_pos p)) \<and> pkt_fits p \<and> laid h (off + plen_of p) ps)"

primrec unread :: "upkt list \<Rightarrow> nat" where
  "unread [] = 0"
| "unread (p # ps) = plen_of p + unread ps"

primrec bytes_of :: "upkt list \<Rightarrow> bytes" where
  "bytes_of [] = []"
| "bytes_of (p # ps) = payload_of p @ bytes_of ps"

lemma bytes_of_append [simp]: "unread (ps @ qs) = unread ps + unread qs" "bytes_of (ps @ qs) = bytes_of ps @ bytes_of qs"
  by (induction ps) simp_all

lemma length_payload [simp]: "length (payload_of p) = plen_of p" "length (copy_payload o' n p) = n" "copy_payload o' 0 p = []"
  by (simp_all add: payload_of_def copy_payload_def)

lemma unat_plen: "unat (rxmeta_plen p) = plen_of p"
  by (simp add: plen_of_def)

lemma length_bytes_of [simp]: "length (bytes_of ps) = unread ps"
  by (induction ps) simp_all

lemma laid_unread_0: "laid h off ps \<Longrightarrow> unread ps = 0 \<Longrightarrow> ps = []"
  by (cases ps) (auto simp: pkt_fits_def)

lemma laid_append: "laid h off (ps @ [p]) \<longleftrightarrow> laid h off ps \<and> placed h (off + unread ps) (unat (rxmeta_pos p)) \<and> pkt_fits p"
  by (induction ps arbitrary: off) (auto simp: add.assoc)

lemma laid_shift:
  assumes "laid h (len + off) ps" "h \<le> RX_BUF" "len + off + unread ps \<le> RX_BUF"
  shows "laid (if h + len > RX_BUF then h + len - RX_BUF else h + len) off ps"
  using assms
proof (induction ps arbitrary: off)
  case (Cons p ps)
  then show ?case using Cons.IH [of "off + plen_of p"] by (auto simp: placed_def add.assoc split: if_splits)
qed simp

text \<open>A packet that has been read in part.\<close>

definition cut :: "nat \<Rightarrow> upkt \<Rightarrow> upkt" where
  "cut n p = rxmeta_set_pos (of_nat (let e = unat (rxmeta_pos p) + n in if e > RX_BUF then e - RX_BUF else e))
     (rxmeta_set_plen (of_nat (plen_of p - n)) (rxmeta_set_poff (of_nat (unat (rxmeta_poff p) + n)) p))"

lemma cut_fields:
  assumes "pkt_fits p" "n < plen_of p" "unat (rxmeta_pos p) \<le> RX_BUF"
  shows "plen_of (cut n p) = plen_of p - n" "unat (rxmeta_poff (cut n p)) = unat (rxmeta_poff p) + n"
    "unat (rxmeta_pos (cut n p)) = (let e = unat (rxmeta_pos p) + n in if e > RX_BUF then e - RX_BUF else e)"
    "pkt_fits (cut n p)" "payload_of (cut n p) = drop n (payload_of p)"
proof -
  have m: "length (up_meta p) = 32" "unat (rxmeta_poff p) + plen_of p < 65536" using assms(1) by (simp_all add: pkt_fits_def)
  have n: "n < 65536" "plen_of p < 65536" using assms(2) m(2) by simp_all
  note set = rxmeta_set_pos_def rxmeta_set_plen_def rxmeta_set_poff_def
  have meta: "meta_rx (up_meta (cut n p)) = (meta_rx (up_meta p))\<lparr>rx_poff := of_nat (unat (rxmeta_poff p) + n),
      rx_plen := of_nat (plen_of p - n),
      rx_rx_pos := of_nat (let e = unat (rxmeta_pos p) + n in if e > RX_BUF then e - RX_BUF else e)\<rparr>"
    using m(1) by (simp add: cut_def set)
  have len: "length (up_meta (cut n p)) = 32" using m(1) by (simp add: cut_def set)
  have fr: "up_frame (cut n p) = up_frame p" by (simp add: cut_def set)
  show a: "plen_of (cut n p) = plen_of p - n" using n unfolding plen_of_def [of "cut n p"] meta by (simp add: unat_of_nat)
  have "unat (of_nat (unat (rxmeta_poff p) + n) :: u16) = unat (rxmeta_poff p) + n"
    using m(2) assms(2) by (simp only: unat_of_nat) simp
  then show b: "unat (rxmeta_poff (cut n p)) = unat (rxmeta_poff p) + n" unfolding meta by simp
  show "unat (rxmeta_pos (cut n p)) = (let e = unat (rxmeta_pos p) + n in if e > RX_BUF then e - RX_BUF else e)"
    using assms(3) n(1) unfolding meta by (simp add: unat_of_nat Let_def)
  show "pkt_fits (cut n p)" using len a b m(2) assms(2) by (simp add: pkt_fits_def)
  show "payload_of (cut n p) = drop n (payload_of p)"
    unfolding payload_of_def a b by (rule nth_equalityI) (simp_all add: copy_payload_def fr add.assoc less_diff_conv)
qed

lemma placed_bound: "placed h off pos \<Longrightarrow> h \<le> RX_BUF \<Longrightarrow> off \<le> RX_BUF \<Longrightarrow> pos \<le> RX_BUF"
  by (auto simp: placed_def)

lemma placed_cut:
  assumes "placed h off pos" "h \<le> RX_BUF" "off + n \<le> RX_BUF"
  shows "placed h (off + n) (let e = pos + n in if e > RX_BUF then e - RX_BUF else e)"
  using assms by (auto simp: placed_def Let_def)

section \<open>Reading\<close>

definition in_range :: "nat \<Rightarrow> nat \<Rightarrow> nat \<Rightarrow> bool" where
  "in_range h count = (if h + count > RX_BUF then (\<lambda>pos. pos \<ge> h \<or> pos < h + count - RX_BUF)
     else (\<lambda>pos. pos \<ge> h \<and> pos < h + count))"

lemma in_range_placed: "placed h off pos \<Longrightarrow> off < count \<Longrightarrow> in_range h count pos"
  by (auto simp: placed_def in_range_def)

lemma peek_reads:
  assumes "laid h (length out) ps" "length out < count" "count \<le> length out + unread ps"
    and "h \<le> RX_BUF" "length out + unread ps \<le> RX_BUF"
  shows "\<exists>ps' fr. peek_loop (in_range h count) RX_BUF count out ps = (out @ take (count - length out) (bytes_of ps), ps', fr)
    \<and> laid h count ps' \<and> bytes_of ps' = drop (count - length out) (bytes_of ps)"
  using assms
proof (induction ps arbitrary: out)
  case Nil
  then show ?case by simp
next
  case (Cons p ps)
  let ?n = "min (plen_of p) (count - length out)"
  let ?out = "out @ copy_payload (unat (rxmeta_poff p)) ?n p"
  have pl: "placed h (length out) (unat (rxmeta_pos p))" "pkt_fits p" "laid h (length out + plen_of p) ps"
    using Cons.prems(1) by simp_all
  have ok: "in_range h count (unat (rxmeta_pos p))" using in_range_placed [OF pl(1) Cons.prems(2)] .
  have chunk: "copy_payload (unat (rxmeta_poff p)) k p = take k (payload_of p)" if "k \<le> plen_of p" for k
    using that by (simp add: payload_of_def copy_payload_def take_map)
  show ?case
  proof (cases "plen_of p \<le> count - length out")
    case True
    then have out: "?out = out @ payload_of p" "length ?out = length out + plen_of p" using chunk [of "plen_of p"] by simp_all
    show ?thesis
    proof (cases "length out + plen_of p = count")
      case eq: True
      then have "peek_loop (in_range h count) RX_BUF count out (p # ps) = (out @ payload_of p, ps, [up_addr p])"
        using ok out True by (simp add: plen_of_def Let_def)
      moreover have "count - length out = plen_of p" using eq by simp
      ultimately show ?thesis using pl(3) eq by simp
    next
      case False
      have "\<exists>ps' fr. peek_loop (in_range h count) RX_BUF count ?out ps = (?out @ take (count - length ?out) (bytes_of ps), ps', fr)
          \<and> laid h count ps' \<and> bytes_of ps' = drop (count - length ?out) (bytes_of ps)"
        by (rule Cons.IH) (use pl(3) out Cons.prems True False in simp_all)
      then obtain ps' fr where ih: "peek_loop (in_range h count) RX_BUF count ?out ps = (?out @ take (count - length ?out) (bytes_of ps), ps', fr)"
          "laid h count ps'" "bytes_of ps' = drop (count - length ?out) (bytes_of ps)" by blast
      have "peek_loop (in_range h count) RX_BUF count out (p # ps) = (?out @ take (count - length ?out) (bytes_of ps), ps', up_addr p # fr)"
        using ok out True False ih(1) by (simp add: plen_of_def Let_def)
      then show ?thesis using ih(2,3) out True by simp
    qed
  next
    case False
    let ?k = "count - length out"
    have k: "?k < plen_of p" "?n = ?k" using False by simp_all
    have "unat (rxmeta_pos p) \<le> RX_BUF" using placed_bound [OF pl(1)] Cons.prems(4,5) by simp
    note cf = cut_fields [OF pl(2) k(1) this]
    have r: "peek_loop (in_range h count) RX_BUF count out (p # ps) = (out @ take ?k (payload_of p), cut ?k p # ps, [])"
      using ok k chunk [of ?k] by (simp add: plen_of_def cut_def Let_def)
    have "placed h (length out + ?k) (unat (rxmeta_pos (cut ?k p)))"
      unfolding cf(3) by (rule placed_cut [OF pl(1) Cons.prems(4)]) (use Cons.prems(2,3,5) in simp)
    then have "laid h count (cut ?k p # ps)" using cf(1,4) pl(3) k Cons.prems(2) by (simp add: add.commute)
    then show ?thesis using r cf(5) k(1) by simp
  qed
qed

section \<open>A read of the connection\<close>

lemma wrap_mod: "((if a > RX_BUF then a - RX_BUF else a) + b) mod RX_BUF = (a + b) mod RX_BUF"
  using le_mod_geq [of RX_BUF "a + b"] by simp

lemma wrap_less: "a < 2 * RX_BUF \<Longrightarrow> a mod RX_BUF = (if a < RX_BUF then a else a - RX_BUF)"
  using le_mod_geq [of RX_BUF a] by simp

abbreviation rx_view :: "eTrantcp_connection \<Rightarrow> u32 \<times> u32 \<times> u32 \<times> upkt list \<times> upkt list" where
  "rx_view c \<equiv> (u_rx_buf_size c, rxb_head c, rxb_used c, rx_addrs c, ooo_rx_addrs c)"

abbreviation cursor :: "utctx \<Rightarrow> bool \<times> u32 \<times> u32 \<times> u32 \<times> u32 \<times> u32 \<times> u32" where
  "cursor t \<equiv> (following_packets t, expected_seq t, t_ooo_start t, t_ooo_len t, last_offset t, t_rx_next_pos t, t_rx_buf_size t)"

text \<open>The packets not yet read lie behind the head; \<open>pend\<close> of their bytes are not counted yet.\<close>

definition rx_ok :: "nat \<Rightarrow> eTrantcp_connection \<Rightarrow> bool" where
  "rx_ok pend c \<longleftrightarrow> u_rx_buf_size c = 524288 \<and> unat (rxb_head c) \<le> RX_BUF \<and> laid (unat (rxb_head c)) 0 (rx_addrs c)
     \<and> unat (rxb_used c) + pend = unread (rx_addrs c) \<and> unread (rx_addrs c) \<le> RX_BUF"

abbreviation tail_of :: "eTrantcp_connection \<Rightarrow> nat" where
  "tail_of c \<equiv> unat (rxb_head c) + unread (rx_addrs c)"

lemma peek_zero: "h \<le> RX_BUF \<Longrightarrow> peek_loop (in_range h 0) RX_BUF 0 [] ps = ([], ps, [])"
  by (cases ps) (simp_all add: in_range_def Let_def)

lemma peek_count_loop:
  assumes "rxb_used c \<noteq> 0" "u_rx_buf_size c = 524288"
    and "peek_loop (in_range (unat (rxb_head c)) (min k (unat (rxb_used c)))) RX_BUF (min k (unat (rxb_used c))) [] (rx_addrs c) = (out, ps, fr)"
  shows "eTran_tcp_rx_peek_count_zc k t c = (out, t\<lparr>t_freed := t_freed t @ fr\<rparr>, c\<lparr>rx_addrs := ps\<rparr>)"
  using assms unfolding in_range_def by (simp add: eTran_tcp_rx_peek_count_zc_def Let_def)

lemma peek_step:
  assumes "rx_ok 0 c" "eTran_tcp_rx_peek_count_zc k t c = (out, t', c')"
  obtains ps fr where "out = take k (bytes_of (rx_addrs c))" "t' = t\<lparr>t_freed := t_freed t @ fr\<rparr>" "c' = c\<lparr>rx_addrs := ps\<rparr>"
    "laid (unat (rxb_head c)) (length out) ps" "bytes_of ps = drop k (bytes_of (rx_addrs c))"
proof (cases "rxb_used c = 0")
  case True
  then have "unread (rx_addrs c) = 0" "out = []" "t' = t" "c' = c" using assms by (simp_all add: rx_ok_def eTran_tcp_rx_peek_count_zc_def)
  moreover have "bytes_of (rx_addrs c) = []" using calculation(1) length_bytes_of [of "rx_addrs c"] by (metis length_0_conv)
  ultimately show ?thesis using that [of "[]" "rx_addrs c"] assms(1) by (simp add: rx_ok_def)
next
  case False
  let ?h = "unat (rxb_head c)" and ?n = "min k (unat (rxb_used c))"
  have ok: "u_rx_buf_size c = 524288" "?h \<le> RX_BUF" "laid ?h 0 (rx_addrs c)" "unat (rxb_used c) = unread (rx_addrs c)"
    "unread (rx_addrs c) \<le> RX_BUF" using assms(1) by (simp_all add: rx_ok_def)
  have n: "take ?n (bytes_of (rx_addrs c)) = take k (bytes_of (rx_addrs c))"
    "drop ?n (bytes_of (rx_addrs c)) = drop k (bytes_of (rx_addrs c))" using ok(4) by (simp_all add: min_def)
  have "\<exists>ps fr. peek_loop (in_range ?h ?n) RX_BUF ?n [] (rx_addrs c) = (take ?n (bytes_of (rx_addrs c)), ps, fr)
      \<and> laid ?h ?n ps \<and> bytes_of ps = drop ?n (bytes_of (rx_addrs c))"
  proof (cases "k = 0")
    case True
    then show ?thesis using peek_zero [OF ok(2)] ok(3) by simp
  next
    case k: False
    have "0 < unat (rxb_used c)" using False by (simp add: unat_gt_0)
    then show ?thesis using peek_reads [of ?h "[]" "rx_addrs c" ?n] ok k by simp
  qed
  then obtain ps fr where p: "peek_loop (in_range ?h ?n) RX_BUF ?n [] (rx_addrs c) = (take ?n (bytes_of (rx_addrs c)), ps, fr)"
    "laid ?h ?n ps" "bytes_of ps = drop ?n (bytes_of (rx_addrs c))" by blast
  have "eTran_tcp_rx_peek_count_zc k t c = (take ?n (bytes_of (rx_addrs c)), t\<lparr>t_freed := t_freed t @ fr\<rparr>, c\<lparr>rx_addrs := ps\<rparr>)"
    by (rule peek_count_loop [OF False ok(1) p(1)])
  then show ?thesis using that [of fr ps] assms(2) p(2,3) n ok(4) by (simp add: min.commute)
qed

lemma conn_recv_reads:
  assumes "rx_ok 0 c" "conn_recv i k t c = (out, t', c')"
  shows "out = take k (bytes_of (rx_addrs c))" "bytes_of (rx_addrs c') = drop k (bytes_of (rx_addrs c))" "rx_ok 0 c'"
    "ooo_rx_addrs c' = ooo_rx_addrs c" "tail_of c' mod RX_BUF = tail_of c mod RX_BUF" "cursor t' = cursor t"
    "unat (rxb_head c') \<le> unat (rxb_head c) + length out"
proof -
  obtain o1 t1 c1 where e: "eTran_tcp_rx_peek_count_zc k t c = (o1, t1, c1)" by (metis prod_cases3)
  obtain ps fr where p: "o1 = take k (bytes_of (rx_addrs c))" "t1 = t\<lparr>t_freed := t_freed t @ fr\<rparr>" "c1 = c\<lparr>rx_addrs := ps\<rparr>"
    "laid (unat (rxb_head c)) (length o1) ps" "bytes_of ps = drop k (bytes_of (rx_addrs c))" by (rule peek_step [OF assms(1) e])
  have ok: "u_rx_buf_size c = 524288" "unat (rxb_head c) \<le> RX_BUF" "unat (rxb_used c) = unread (rx_addrs c)"
    "unread (rx_addrs c) \<le> RX_BUF" using assms(1) by (simp_all add: rx_ok_def)
  have tot: "unread ps = unread (rx_addrs c) - k" using arg_cong [OF p(5), of length] by simp
  have len: "length o1 = min k (unread (rx_addrs c))" using p(1) by (simp add: min.commute)
  have out: "out = o1" using assms(2) e by (auto simp: conn_recv_def Let_def split: prod.splits if_splits)
  then show "out = take k (bytes_of (rx_addrs c))" using p(1) by simp
  have "bytes_of (rx_addrs c') = drop k (bytes_of (rx_addrs c)) \<and> rx_ok 0 c' \<and> ooo_rx_addrs c' = ooo_rx_addrs c
      \<and> tail_of c' mod RX_BUF = tail_of c mod RX_BUF \<and> cursor t' = cursor t \<and> unat (rxb_head c') \<le> unat (rxb_head c) + length out"
  proof (cases "o1 = []")
    case True
    then have "c' = c1" "t' = t1" using assms(2) e by (simp_all add: conn_recv_def)
    moreover have "min k (unread (rx_addrs c)) = 0" using len True by simp
    ultimately show ?thesis using p ok tot True by (auto simp: rx_ok_def min_def split: if_splits)
  next
    case False
    let ?n = "length o1" and ?h = "unat (rxb_head c)"
    let ?h' = "if ?h + ?n > RX_BUF then ?h + ?n - RX_BUF else ?h + ?n"
    have n: "?n \<le> unread (rx_addrs c)" "unread ps = unread (rx_addrs c) - ?n" using len tot by auto
    have un: "unat (of_nat ?n :: u32) = ?n" using n(1) ok(4) by (simp add: unat_of_nat)
    have r: "c' = snd (eTran_tcp_rx_release i (of_nat ?n) t1 c1)" "t' = fst (eTran_tcp_rx_release i (of_nat ?n) t1 c1)"
      using assms(2) e False by (auto simp: conn_recv_def Let_def split: prod.splits)
    have ge: "\<not> rxb_used c1 < of_nat ?n" using n(1) ok(3) un p(3) by (simp add: word_less_nat_alt)
    have rel: "rx_addrs c' = ps" "ooo_rx_addrs c' = ooo_rx_addrs c" "u_rx_buf_size c' = 524288" "rxb_used c' = rxb_used c - of_nat ?n"
      "rxb_head c' = (let h = rxb_head c + of_nat ?n in if h > 524288 then h - 524288 else h)" "cursor t' = cursor t"
      using ge ok(1) unfolding r eTran_tcp_rx_release_def p(2,3) by (simp_all add: Let_def)
    have used: "unat (rxb_used c') = unread ps" using rel(4) n ok(3) un by (simp add: unat_sub word_le_nat_alt)
    have head: "unat (rxb_head c') = ?h'" unfolding rel(5) using ok(2,4) n(1) un
      by (simp add: Let_def word_less_nat_alt unat_plus_if' unat_sub_if')
    have "laid ?h' 0 ps" using laid_shift [of ?h ?n 0 ps] p(4) ok(2,4) n by simp
    moreover have "?h + ?n - RX_BUF \<le> RX_BUF" using ok(2,4) n(1) by linarith
    then have "?h' \<le> RX_BUF" by simp
    moreover have "unread ps \<le> RX_BUF" using ok(4) n by linarith
    ultimately have okc: "rx_ok 0 c'" unfolding rx_ok_def head used rel(1,3) add_0_right by blast
    have "tail_of c' mod RX_BUF = tail_of c mod RX_BUF" unfolding head rel(1) n(2)
      using n(1) wrap_mod [of "?h + ?n" "unread (rx_addrs c) - ?n"] by simp
    moreover have "unat (rxb_head c') \<le> ?h + length out" unfolding head out by simp
    ultimately show ?thesis using okc rel(1,2,6) p(5) by simp
  qed
  then show "bytes_of (rx_addrs c') = drop k (bytes_of (rx_addrs c))" "rx_ok 0 c'" "ooo_rx_addrs c' = ooo_rx_addrs c"
    "tail_of c' mod RX_BUF = tail_of c mod RX_BUF" "cursor t' = cursor t"
    "unat (rxb_head c') \<le> unat (rxb_head c) + length out" by blast+
qed

section \<open>Packets of the connection, in order\<close>

text \<open>
  A data packet of connection \<open>i\<close> with the bytes at stream offset \<open>o'\<close>: \<open>base\<close> is the
  sequence number of the stream's first byte, \<open>off\<close> the offset that the receive program gives it.
  The first packet is not trimmed at its start.
\<close>

definition seg_pkt :: "u64 \<Rightarrow> u32 \<Rightarrow> u32 \<Rightarrow> nat \<Rightarrow> upkt \<Rightarrow> bool" where
  "seg_pkt i base off o' p \<longleftrightarrow> pkt_fits p \<and> rx_conn (meta_rx (up_meta p)) = i \<and> rx_qid (meta_rx (up_meta p)) \<noteq> POISON_32
     \<and> rxmeta_pos p = off + of_nat o' \<and> 0 < plen_of p \<and> plen_of p \<le> 1448
     \<and> bpf_ntohl (ld32 38 (up_frame p)) + (ucast (rxmeta_poff p) - 66) = base + of_nat o' \<and> (o' = 0 \<longrightarrow> rxmeta_poff p = 66)"

text \<open>A packet of the connection without data: an acknowledgement or a message of the control plane.\<close>

definition ctl_pkt :: "u64 \<Rightarrow> upkt \<Rightarrow> bool" where
  "ctl_pkt i p \<longleftrightarrow> rx_conn (meta_rx (up_meta p)) = i
     \<and> (rx_qid (meta_rx (up_meta p)) = POISON_32 \<or> rxmeta_plen p = POISON_16)"

fun carries :: "u64 \<Rightarrow> u32 \<Rightarrow> u32 \<Rightarrow> nat \<Rightarrow> upkt list \<Rightarrow> bool" where
  "carries i base off o' [] = True"
| "carries i base off o' (p # ps) =
    (if ctl_pkt i p then carries i base off o' ps
     else seg_pkt i base off o' p \<and> carries i base off (o' + plen_of p) ps)"

primrec carried :: "u64 \<Rightarrow> upkt list \<Rightarrow> bytes" where
  "carried i [] = []"
| "carried i (p # ps) = (if ctl_pkt i p then [] else payload_of p) @ carried i ps"

text \<open>The thread's reassembly fields after \<open>o'\<close> bytes, when the next byte belongs at position \<open>e\<close>.\<close>

definition follows :: "u32 \<Rightarrow> u32 \<Rightarrow> nat \<Rightarrow> nat \<Rightarrow> utctx \<Rightarrow> bool" where
  "follows base off o' e t \<longleftrightarrow> t_ooo_len t = 0 \<and>
     (if following_packets t
      then expected_seq t = base + of_nat o' \<and> t_rx_buf_size t = 524288 \<and> unat (t_rx_next_pos t) < RX_BUF
        \<and> unat (off + of_nat o' - last_offset t) \<le> 1448
        \<and> (unat (t_rx_next_pos t) + unat (off + of_nat o' - last_offset t)) mod RX_BUF = e mod RX_BUF
      else o' = 0 \<and> e = 0 \<and> t_rx_next_pos t = 0)"

lemma wrap_pos:
  fixes n d :: u32
  assumes "unat n < RX_BUF" "unat d < RX_BUF"
  shows "unat (if n + d \<ge> 524288 then n + d - 524288 else n + d) = (unat n + unat d) mod RX_BUF"
  using assms by (simp add: seq_nat wrap_less)

lemma placed_mod: "h \<le> RX_BUF \<Longrightarrow> n < RX_BUF \<Longrightarrow> placed h n ((h + n) mod RX_BUF)"
  using wrap_less [of "h + n"] by (auto simp: placed_def)

lemma set_pos_fields:
  assumes "pkt_fits p"
  shows "rxmeta_pos (rxmeta_set_pos v p) = v" "plen_of (rxmeta_set_pos v p) = plen_of p" "pkt_fits (rxmeta_set_pos v p)"
    "payload_of (rxmeta_set_pos v p) = payload_of p" "rxmeta_plen (rxmeta_set_pos v p) = rxmeta_plen p"
  using assms by (simp_all add: rxmeta_set_pos_def pkt_fits_def plen_of_def payload_of_def copy_payload_def)

lemma user_add_in_order:
  assumes "follows base off o' e t" "seg_pkt i base off o' p" "parse_packet p (ucast (rxmeta_plen p)) = (a, b)"
  obtains t' pos where "user_add_data_seg a b (ucast (rxmeta_plen p)) (rxmeta_pos p) p t c
      = (t', in_order_receive (rxmeta_set_pos pos p) c, ucast (rxmeta_plen p))"
    "unat pos = e mod RX_BUF" "follows base off (o' + plen_of p) (e + plen_of p) t'"
proof -
  let ?n = "ucast (rxmeta_plen p) :: u32"
  have n: "unat ?n = plen_of p" by (simp add: unat_plen)
  have sg: "rxmeta_pos p = off + of_nat o'" "plen_of p \<le> 1448" "0 < plen_of p" using assms(2) by (simp_all add: seg_pkt_def)
  have a: "a = base + of_nat o'" using assms(2,3) by (auto simp: seg_pkt_def parse_packet_def Let_def)
  have w: "of_nat (o' + plen_of p) = of_nat o' + ?n" by (simp add: plen_of_def)
  have d: "off + of_nat (o' + plen_of p) - (off + of_nat o') = ?n" unfolding w by simp
  have ml: "(x mod RX_BUF + y) mod RX_BUF = (x + y) mod RX_BUF" for x y by (simp add: mod_simps)
  show thesis
  proof (cases "following_packets t")
    case False
    then have f: "t_ooo_len t = 0" "o' = 0" "e = 0" "t_rx_next_pos t = 0" using assms(1) by (simp_all add: follows_def)
    have b: "b = base + ?n" using assms(2,3) f(2) by (auto simp: seg_pkt_def parse_packet_def Let_def)
    show thesis
      by (rule that [of "t\<lparr>expected_seq := b, following_packets := True, t_rx_buf_size := 524288, last_offset := rxmeta_pos p\<rparr>" 0])
        (use False f b sg n d w in \<open>simp_all add: user_add_data_seg_def user_pos_def follows_def\<close>)
  next
    case True
    let ?d = "off + of_nat o' - last_offset t"
    have f: "t_ooo_len t = 0" "expected_seq t = base + of_nat o'" "t_rx_buf_size t = 524288" "unat (t_rx_next_pos t) < RX_BUF"
      "unat ?d \<le> 1448" "(unat (t_rx_next_pos t) + unat ?d) mod RX_BUF = e mod RX_BUF"
      using assms(1) True by (simp_all add: follows_def)
    let ?x = "t_rx_next_pos t + ?d" let ?pos = "if ?x \<ge> 524288 then ?x - 524288 else ?x"
    have pos: "unat ?pos = e mod RX_BUF" using wrap_pos [OF f(4), of ?d] f(5,6) by simp
    let ?t = "t\<lparr>expected_seq := expected_seq t + ?n, t_rx_next_pos := ?pos, last_offset := rxmeta_pos p\<rparr>"
    show thesis
    proof (rule that)
      show "user_add_data_seg a b ?n (rxmeta_pos p) p t c = (?t, in_order_receive (rxmeta_set_pos ?pos p) c, ?n)"
        using True f(1,2,3) a sg(1) by (simp add: user_add_data_seg_def user_pos_def advance_pos_def Let_def)
      show "unat ?pos = e mod RX_BUF" by (rule pos)
      have "expected_seq ?t = base + of_nat (o' + plen_of p)" using f(2) w by (simp add: add.assoc)
      moreover have "off + of_nat (o' + plen_of p) - last_offset ?t = ?n" using d sg(1) by simp
      moreover have "unat (t_rx_next_pos ?t) = e mod RX_BUF" "t_rx_buf_size ?t = 524288" "t_ooo_len ?t = 0" "following_packets ?t"
        using pos f(1,3) True by simp_all
      ultimately show "follows base off (o' + plen_of p) (e + plen_of p) ?t"
        using n sg(2) ml [of e "plen_of p"] unfolding follows_def by (simp only: if_True) simp
    qed
  qed
qed

section \<open>A round of received packets\<close>

text \<open>
  The state after the bytes \<open>rcv\<close> arrived and \<open>rd\<close> were read: the packets kept hold the rest.
\<close>

definition stream_in_sync :: "u32 \<Rightarrow> u32 \<Rightarrow> bytes \<Rightarrow> bytes \<Rightarrow> nat \<Rightarrow> utctx \<Rightarrow> eTrantcp_connection \<Rightarrow> bool" where
  "stream_in_sync base off rcv rd pend t c \<longleftrightarrow> rx_ok pend c \<and> ooo_rx_addrs c = [] \<and> rcv = rd @ bytes_of (rx_addrs c)
     \<and> follows base off (length rcv) (tail_of c) t \<and> unat (rxb_head c) \<le> length rd"

lemma in_sync_cong:
  "rx_view c' = rx_view c \<Longrightarrow> cursor t' = cursor t \<Longrightarrow> stream_in_sync base off rcv rd pend t' c' = stream_in_sync base off rcv rd pend t c"
  by (simp add: stream_in_sync_def rx_ok_def follows_def)

lemma user_go_back_frame: "rx_view (snd (user_go_back i pos t c)) = rx_view c" "cursor (fst (user_go_back i pos t c)) = cursor t"
  by (simp_all add: user_go_back_def Let_def)

lemma sync_state_frame:
  assumes "sync_state i p t c = (ev, t', c')"
  shows "rx_view c' = rx_view c" "cursor t' = cursor t"
proof -
  let ?g = "rx_go_back_pos (meta_rx (up_meta p))"
  define x where "x = (if ?g \<noteq> POISON_32 \<and> ?g AND RECOVERY_MASK \<noteq> 0 then user_go_back i ?g t c else (t, c))"
  have x: "rx_view (snd x) = rx_view c" "cursor (fst x) = cursor t" unfolding x_def using user_go_back_frame by (simp_all split: if_split)
  have "rx_view (snd (snd (sync_state i p t c))) = rx_view (snd x)" "cursor (fst (snd (sync_state i p t c))) = cursor (fst x)"
    unfolding sync_state_def Let_def x_def [symmetric] case_prod_beta by (simp_all add: if_distrib [of snd] if_distrib [of fst])
  then show "rx_view c' = rx_view c" "cursor t' = cursor t" unfolding x assms by simp_all
qed

lemma receive_step:
  assumes "stream_in_sync base off rcv rd pend t c" "seg_pkt i base off (length rcv) p" "unread (rx_addrs c) + plen_of p \<le> RX_BUF"
    and "parse_packet p (ucast (rxmeta_plen p)) = (a, b)"
    and "user_add_data_seg a b (ucast (rxmeta_plen p)) (rxmeta_pos p) p t c = (t', c', n)"
  shows "unat n = plen_of p" "stream_in_sync base off (rcv @ payload_of p) rd (pend + plen_of p) t' c'"
    "unread (rx_addrs c') = unread (rx_addrs c) + plen_of p"
proof -
  have i: "rx_ok pend c" "ooo_rx_addrs c = []" "rcv = rd @ bytes_of (rx_addrs c)" "follows base off (length rcv) (tail_of c) t"
    "unat (rxb_head c) \<le> length rd" using assms(1) unfolding stream_in_sync_def by blast+
  obtain t1 pos where u: "user_add_data_seg a b (ucast (rxmeta_plen p)) (rxmeta_pos p) p t c
      = (t1, in_order_receive (rxmeta_set_pos pos p) c, ucast (rxmeta_plen p))"
    "unat pos = tail_of c mod RX_BUF" "follows base off (length rcv + plen_of p) (tail_of c + plen_of p) t1"
    by (rule user_add_in_order [OF i(4) assms(2,4)])
  have e: "t' = t1" "c' = in_order_receive (rxmeta_set_pos pos p) c" "n = ucast (rxmeta_plen p)" using assms(5) u(1) by simp_all
  have fit: "pkt_fits p" "0 < plen_of p" using assms(2) by (simp_all add: seg_pkt_def)
  note sp = set_pos_fields [OF fit(1), of pos]
  have h: "unat (rxb_head c) \<le> RX_BUF" using i(1) by (simp add: rx_ok_def)
  have "placed (unat (rxb_head c)) (unread (rx_addrs c)) (unat pos)"
    unfolding u(2) by (rule placed_mod [OF h]) (use assms(3) fit(2) in simp)
  then have "rx_ok (pend + plen_of p) c'" using i(1) assms(3) sp unfolding e(2)
    by (simp add: rx_ok_def in_order_receive_def laid_append)
  then show "stream_in_sync base off (rcv @ payload_of p) rd (pend + plen_of p) t' c'"
    using i(2,3,5) u(3) sp unfolding stream_in_sync_def e(1,2) by (simp add: in_order_receive_def add.assoc)
  show "unread (rx_addrs c') = unread (rx_addrs c) + plen_of p" unfolding e(2) using sp by (simp add: in_order_receive_def)
  show "unat n = plen_of p" unfolding e(3) by (simp add: unat_plen)
qed

definition round_ok :: "u64 \<Rightarrow> u32 \<Rightarrow> u32 \<Rightarrow> bytes \<Rightarrow> bytes \<Rightarrow> rx_round \<Rightarrow> bool" where
  "round_ok i base off rcv rd r \<longleftrightarrow> (rr_cached r = None \<and> rr_bump r = 0 \<or> rr_cached r = Some i)
     \<and> stream_in_sync base off rcv rd (unat (rr_bump r)) (rr_t r) (rr_conns r i)"

lemma switch_ok:
  assumes "round_ok i base off rcv rd r"
  shows "rr_cached (switch_conn i r) = Some i" "stream_in_sync base off rcv rd (unat (rr_bump (switch_conn i r))) (rr_t (switch_conn i r)) (rr_conns (switch_conn i r) i)"
    "rr_conns (switch_conn i r) = rr_conns r"
  using assms by (auto simp: round_ok_def switch_conn_def)

definition close_round :: "rx_round \<Rightarrow> rx_round" where
  "close_round r = (case rr_cached r of None \<Rightarrow> r
     | Some j \<Rightarrow> lazy_update_prev_conn_txev j (lazy_update_prev_conn_rxev j r))"

lemma handle_rx_last: "handle_rx p True r = close_round (handle_rx p False r)"
  by (simp add: handle_rx_def close_round_def Let_def)

lemma close_round_ok:
  assumes "round_ok i base off rcv rd r"
  shows "stream_in_sync base off rcv rd 0 (rr_t (close_round r)) (rr_conns (close_round r) i)"
proof (cases "rr_cached r")
  case None
  then show ?thesis using assms by (auto simp: round_ok_def close_round_def)
next
  case (Some j)
  then have j: "j = i" and s: "stream_in_sync base off rcv rd (unat (rr_bump r)) (rr_t r) (rr_conns r i)" using assms by (auto simp: round_ok_def)
  have "unat (rxb_used (rr_conns r i) + rr_bump r) = unat (rxb_used (rr_conns r i)) + unat (rr_bump r)"
    using s by (auto simp: stream_in_sync_def rx_ok_def unat_plus_if')
  then show ?thesis using s Some j
    by (auto simp: close_round_def lazy_update_prev_conn_rxev_def lazy_update_prev_conn_txev_def stream_in_sync_def rx_ok_def)
qed

lemma round_ok_same:
  assumes "rx_view (rr_conns r' i) = rx_view (rr_conns r i)" "cursor (rr_t r') = cursor (rr_t r)" "rr_cached r' = Some i"
    and "rr_bump r' = rr_bump r" "stream_in_sync base off rcv rd (unat (rr_bump r)) (rr_t r) (rr_conns r i)"
  shows "round_ok i base off rcv rd r'"
  unfolding round_ok_def in_sync_cong [OF assms(1,2)] using assms(3-5) by simp

lemma handle_ctl:
  assumes "round_ok i base off rcv rd r" "ctl_pkt i p" "i \<noteq> 0" "i \<noteq> POISON_64"
  shows "round_ok i base off rcv rd (handle_rx p False r)" "unread (rx_addrs (rr_conns (handle_rx p False r) i)) = unread (rx_addrs (rr_conns r i))"
proof -
  let ?r = "switch_conn i r"
  note sw = switch_ok [OF assms(1)]
  have i: "rx_conn (meta_rx (up_meta p)) = i" using assms(2) by (simp add: ctl_pkt_def)
  have ooo: "ooo_rx_addrs (rr_conns r i) = []" using assms(1) by (simp add: round_ok_def stream_in_sync_def)
  have "round_ok i base off rcv rd (handle_rx p False r)
    \<and> rx_addrs (rr_conns (handle_rx p False r) i) = rx_addrs (rr_conns r i)"
  proof (cases "rx_qid (meta_rx (up_meta p)) = POISON_32")
    case True
    obtain ev t c where s: "sync_state i p (rr_t ?r) (rr_conns ?r i) = (ev, t, c)" by (metis prod_cases3)
    have e: "handle_rx p False r = give_back p ((put_user i t c ?r)\<lparr>rr_sendbuf := rr_sendbuf ?r \<or> ev\<rparr>)"
      using True assms(3,4) i s by (simp add: handle_rx_def Let_def)
    note fr = sync_state_frame [OF s]
    have "round_ok i base off rcv rd (handle_rx p False r)" unfolding e
      by (rule round_ok_same [OF _ _ _ _ sw(2)]) (use fr sw(1) in \<open>simp_all add: give_back_def put_user_def\<close>)
    then show ?thesis using fr sw(3) unfolding e by (simp add: give_back_def put_user_def)
  next
    case False
    let ?q = "rx_qid (meta_rx (up_meta p))"
    let ?c = "if ?q AND FORCE_RX_BUMP_MASK \<noteq> 0 then (rr_conns ?r i)\<lparr>force_rx_bump := True\<rparr> else rr_conns ?r i"
    have pl: "rxmeta_plen p = POISON_16" using assms(2) False by (simp add: ctl_pkt_def)
    obtain ev t c where s: "sync_state i p (rr_t ?r) ?c = (ev, t, c)" by (metis prod_cases3)
    let ?s = "(put_user i t c (?r\<lparr>rr_fill := rr_fill ?r @ [?q AND NOT FORCE_RX_BUMP_MASK]\<rparr>))\<lparr>rr_sendbuf := rr_sendbuf ?r \<or> ev\<rparr>"
    have e: "handle_rx p False r = handle_data i p ?s"
      using False assms(3,4) i s by (simp add: handle_rx_def Let_def)
    have fr: "rx_view c = rx_view (rr_conns ?r i)" "cursor t = cursor (rr_t ?r)" using sync_state_frame [OF s] by (simp_all split: if_splits)
    have "rx_view (rr_conns (handle_data i p ?s) i) = rx_view (rr_conns ?r i)" "cursor (rr_t (handle_data i p ?s)) = cursor (rr_t ?r)"
      "rr_cached (handle_data i p ?s) = rr_cached ?r" "rr_bump (handle_data i p ?s) = rr_bump ?r"
      using fr pl ooo sw(3) by (simp_all add: handle_data_def give_back_def put_user_def)
    then show ?thesis using round_ok_same [OF _ _ _ _ sw(2)] sw(1,3) unfolding e by simp
  qed
  then show "round_ok i base off rcv rd (handle_rx p False r)"
    "unread (rx_addrs (rr_conns (handle_rx p False r) i)) = unread (rx_addrs (rr_conns r i))" by simp_all
qed

lemma handle_rx_enters:
  assumes "rx_conn (meta_rx (up_meta p)) = i" "rx_qid (meta_rx (up_meta p)) \<noteq> POISON_32" "i \<noteq> 0" "i \<noteq> POISON_64"
    and "rr_cached r = None \<and> rr_bump r = 0 \<or> rr_cached r = Some i"
  obtains s where "handle_rx p False r = handle_data i p s" "rx_view (rr_conns s i) = rx_view (rr_conns r i)"
    "cursor (rr_t s) = cursor (rr_t r)" "rr_cached s = Some i" "rr_bump s = rr_bump r" "rr_events s = rr_events r"
    "\<And>j. j \<noteq> i \<Longrightarrow> rr_conns s j = rr_conns r j"
proof -
  let ?r = "switch_conn i r" and ?q = "rx_qid (meta_rx (up_meta p))"
  let ?c = "if ?q AND FORCE_RX_BUMP_MASK \<noteq> 0 then (rr_conns ?r i)\<lparr>force_rx_bump := True\<rparr> else rr_conns ?r i"
  have sw: "rr_cached ?r = Some i" "rr_bump ?r = rr_bump r" "rr_conns ?r = rr_conns r" "rr_t ?r = rr_t r" "rr_events ?r = rr_events r"
    using assms(5) by (auto simp: switch_conn_def)
  obtain ev t c where s: "sync_state i p (rr_t ?r) ?c = (ev, t, c)" by (metis prod_cases3)
  let ?s = "(put_user i t c (?r\<lparr>rr_fill := rr_fill ?r @ [?q AND NOT FORCE_RX_BUMP_MASK]\<rparr>))\<lparr>rr_sendbuf := rr_sendbuf ?r \<or> ev\<rparr>"
  have e: "handle_rx p False r = handle_data i p ?s" using assms(1-4) s by (simp add: handle_rx_def Let_def)
  have "rx_view c = rx_view (rr_conns r i)" "cursor t = cursor (rr_t r)" using sync_state_frame [OF s] sw(3,4) by (simp_all split: if_splits)
  then show thesis using that [OF e] sw by (simp add: put_user_def)
qed

lemma handle_data_adds:
  assumes "rxmeta_plen p \<noteq> POISON_16" "parse_packet p (ucast (rxmeta_plen p)) = (a, b)"
    and "user_add_data_seg a b (ucast (rxmeta_plen p)) (rxmeta_pos p) p (rr_t s) (rr_conns s i) = (t, c, n)"
  shows "handle_data i p s = (put_user i t c s)\<lparr>rr_bump := rr_bump s + n\<rparr>"
  using assms by (simp add: handle_data_def put_user_def)

lemma handle_seg:
  assumes "round_ok i base off rcv rd r" "seg_pkt i base off (length rcv) p" "i \<noteq> 0" "i \<noteq> POISON_64" "\<not> ctl_pkt i p"
    and "unread (rx_addrs (rr_conns r i)) + plen_of p \<le> RX_BUF"
  shows "round_ok i base off (rcv @ payload_of p) rd (handle_rx p False r)"
    "unread (rx_addrs (rr_conns (handle_rx p False r) i)) = unread (rx_addrs (rr_conns r i)) + plen_of p"
proof -
  have i: "rx_conn (meta_rx (up_meta p)) = i" "rx_qid (meta_rx (up_meta p)) \<noteq> POISON_32" "rxmeta_plen p \<noteq> POISON_16"
    using assms(2,5) by (simp_all add: seg_pkt_def ctl_pkt_def)
  have r: "rr_cached r = None \<and> rr_bump r = 0 \<or> rr_cached r = Some i" "stream_in_sync base off rcv rd (unat (rr_bump r)) (rr_t r) (rr_conns r i)"
    using assms(1) unfolding round_ok_def by blast+
  obtain s where s: "handle_rx p False r = handle_data i p s" "rx_view (rr_conns s i) = rx_view (rr_conns r i)"
    "cursor (rr_t s) = cursor (rr_t r)" "rr_cached s = Some i" "rr_bump s = rr_bump r"
    by (rule handle_rx_enters [OF i(1,2) assms(3,4) r(1)])
  have sy: "stream_in_sync base off rcv rd (unat (rr_bump s)) (rr_t s) (rr_conns s i)" using in_sync_cong [OF s(2,3)] r(2) s(5) by simp
  obtain a b where ab: "parse_packet p (ucast (rxmeta_plen p)) = (a, b)" by fastforce
  obtain t c n where u: "user_add_data_seg a b (ucast (rxmeta_plen p)) (rxmeta_pos p) p (rr_t s) (rr_conns s i) = (t, c, n)"
    by (metis prod_cases3)
  have sz: "unread (rx_addrs (rr_conns s i)) + plen_of p \<le> RX_BUF" "rx_addrs (rr_conns s i) = rx_addrs (rr_conns r i)"
    using assms(6) s(2) by simp_all
  note st = receive_step [OF sy assms(2) sz(1) ab u]
  note hd = handle_data_adds [OF i(3) ab u]
  have "unat (rr_bump s) + plen_of p \<le> RX_BUF" using st(2) by (simp add: stream_in_sync_def rx_ok_def)
  then have "unat (rr_bump s + n) = unat (rr_bump s) + plen_of p" using st(1) by (simp add: unat_plus_if')
  then show "round_ok i base off (rcv @ payload_of p) rd (handle_rx p False r)"
    using st(2) s(4) unfolding s(1) hd by (simp add: round_ok_def put_user_def)
  show "unread (rx_addrs (rr_conns (handle_rx p False r) i)) = unread (rx_addrs (rr_conns r i)) + plen_of p"
    using st(3) sz(2) unfolding s(1) hd by (simp add: put_user_def)
qed

lemma round_keeps_order:
  assumes "round_ok i base off rcv rd r" "carries i base off (length rcv) ps" "i \<noteq> 0" "i \<noteq> POISON_64"
    and "unread (rx_addrs (rr_conns r i)) + length (carried i ps) \<le> RX_BUF" "ps \<noteq> []"
  shows "stream_in_sync base off (rcv @ carried i ps) rd 0 (rr_t (handle_all ps r)) (rr_conns (handle_all ps r) i)"
  using assms
proof (induction ps arbitrary: r rcv)
  case (Cons p ps)
  let ?rcv = "rcv @ (if ctl_pkt i p then [] else payload_of p)" and ?r = "handle_rx p False r"
  have step: "round_ok i base off ?rcv rd ?r" "unread (rx_addrs (rr_conns ?r i)) + length (carried i ps) \<le> RX_BUF"
    "carries i base off (length ?rcv) ps"
    using handle_ctl [OF Cons.prems(1) _ Cons.prems(3,4)] handle_seg [OF Cons.prems(1) _ Cons.prems(3,4)] Cons.prems(2,5)
    by (auto split: if_splits)
  show ?case
  proof (cases "ps = []")
    case True
    then show ?thesis using close_round_ok [OF step(1)] by (simp add: handle_rx_last)
  next
    case False
    then show ?thesis using Cons.IH [OF step(1,3) Cons.prems(3,4) step(2) False] by simp
  qed
qed simp

section \<open>Operations that leave the receive side alone\<close>

lemma advance_head_frame [simp]: "rx_view (advance_head d c) = rx_view c"
  by (simp add: advance_head_def Let_def)

lemma segment_loop_frame: "segment_loop umem pend bufs buf c = Some (ps, c') \<Longrightarrow> rx_view c' = rx_view c"
proof (induction bufs arbitrary: pend buf c ps)
  case Nil
  then show ?case by (cases "buf = []") (simp_all add: segment_loop_empty segment_loop_no_buffer)
next
  case (Cons a bufs)
  show ?case
  proof (cases "buf = []")
    case False
    with Cons.prems obtain qs where
      "segment_loop umem 0 bufs (drop TCP_MSS_W_TS buf) (sent_conn a (take TCP_MSS_W_TS buf) c) = Some (qs, c')"
      by (auto simp: segment_loop_packet)
    from Cons.IH [OF this] show ?thesis by (simp add: advance_head_def Let_def)
  qed (use Cons.prems in \<open>simp add: segment_loop_empty\<close>)
qed

lemma conn_send_frame: "conn_send umem bufs buf c = Some (ret, ps, c') \<Longrightarrow> rx_view c' = rx_view c"
  by (auto simp: conn_send_def eTran_tcp_tx_reserve_zc_def eTran_tcp_tx_submit_zc_def tcp_flow_tx_segmentation_zc_def Let_def
      split: if_splits dest!: segment_loop_frame)

lemma free_buffers_frame:
  "free_buffers_loop js t cs = Some (t', cs') \<Longrightarrow> rx_view (cs' i) = rx_view (cs i) \<and> cursor t' = cursor t"
proof (induction js arbitrary: t cs)
  case (Cons j js)
  then obtain us fr where
    "free_buffers_loop js (t\<lparr>t_freed := t_freed t @ fr, free_pending_conns := js\<rparr>)
       (cs(j := (cs j)\<lparr>unack_tx_addrs := us, pending_free_bytes := 0\<rparr>)) = Some (t', cs')"
    by (auto split: option.splits)
  from Cons.IH [OF this] show ?case by (simp split: if_splits)
qed simp

lemma retransmit_loop_frame: "rx_view (snd (snd (retransmit_loop len sub skip us c))) = rx_view c"
proof (induction len sub skip us c rule: retransmit_loop.induct)
  case (1 len sub skip us c)
  show ?case
  proof (cases "len = 0 \<or> us = []")
    case True
    then show ?thesis by (simp add: retransmit_loop_end)
  next
    case False
    then obtain a n vs where us: "us = (a, n) # vs" by (cases us) auto
    show ?thesis
    proof (cases "skip + n < txb_sent c")
      case True
      then show ?thesis using "1.IH"(1) [OF _ us refl refl] False us by (simp add: retransmit_loop_skip)
    next
      case k: False
      then show ?thesis using "1.IH"(2) [OF _ us refl refl] False us
        by (simp add: retransmit_loop_submit Let_def case_prod_beta advance_head_def)
    qed
  qed
qed

lemma resubmit_frame: "rx_view (snd (eTran_tcp_tx_submit_zc_retransmission len c)) = rx_view c"
  using retransmit_loop_frame [of len False 0 "unack_tx_addrs c" c]
  by (simp add: eTran_tcp_tx_submit_zc_retransmission_def Let_def case_prod_beta)

lemma retransmission_frame:
  "retransmission_loop xs t cs = (ms, t', cs') \<Longrightarrow> rx_view (cs' i) = rx_view (cs i) \<and> cursor t' = cursor t"
proof (induction xs arbitrary: t cs ms)
  case (Cons x xs)
  obtain j len where x: "x = (j, len)" by fastforce
  obtain d ms' where m: "retransmission_loop xs (t\<lparr>retransmission_conns := xs\<rparr>) (cs(j := d)) = (ms', t', cs')"
    and "rx_view d = rx_view (cs j)"
  proof (cases "unack_tx_addrs (cs j) = []")
    case True
    then show thesis using Cons.prems x that [of "cs j"] by (auto simp: Let_def split: prod.splits)
  next
    case False
    then show thesis using Cons.prems x that [of "snd (eTran_tcp_tx_submit_zc_retransmission len (cs j))"] resubmit_frame [of len "cs j"]
      by (auto simp: Let_def split: prod.splits)
  qed
  with Cons.IH [OF m] show ?case by (cases "i = j") simp_all
qed simp

lemma ebpf_sync_frame:
  "ebpf_sync_loop umem rsv bufs js t cs = Some (ps, t', cs') \<Longrightarrow> rx_view (cs' i) = rx_view (cs i) \<and> cursor t' = cursor t"
proof (induction umem rsv bufs js t cs arbitrary: ps rule: ebpf_sync_loop.induct)
  case (2 umem rsv a bufs j js t cs)
  then show ?case by (fastforce simp: ebpf_sync_pkt_def Let_def split: if_splits)
qed auto

section \<open>Runs of a thread with one connection\<close>

text \<open>
  The runs of a thread that serves connection \<open>i\<close>: rounds of packets that the network
  delivers in order and that fit the receive buffer, reads and writes of the application in
  any sizes, and the work of a poll, in any order.  \<open>rcv\<close> are the bytes received, \<open>rd\<close> those read.
\<close>

inductive app_run :: "u64 \<Rightarrow> u32 \<Rightarrow> u32 \<Rightarrow> utctx \<Rightarrow> uconns \<Rightarrow> bytes \<Rightarrow> bytes \<Rightarrow> bool" for i base off where
  start: "\<lbrakk>i \<noteq> 0; i \<noteq> POISON_64; \<not> following_packets t; t_rx_next_pos t = 0; t_ooo_len t = 0;
      cs i = connection_prepare_buffer c; u_rx_buf_size c = 524288; rx_addrs c = []; ooo_rx_addrs c = []\<rbrakk>
    \<Longrightarrow> app_run i base off t cs [] []"
| poll: "\<lbrakk>app_run i base off t cs rcv rd; carries i base off (length rcv) ps; ps \<noteq> [];
      length rcv - length rd + length (carried i ps) \<le> RX_BUF; r = tcp_nic_poll ps t cs\<rbrakk>
    \<Longrightarrow> app_run i base off (rr_t r) (rr_conns r) (rcv @ carried i ps) rd"
| recv: "\<lbrakk>app_run i base off t cs rcv rd; conn_recv i k t (cs i) = (out, t', c')\<rbrakk>
    \<Longrightarrow> app_run i base off t' (cs(i := c')) rcv (rd @ out)"
| send: "\<lbrakk>app_run i base off t cs rcv rd; conn_send umem bufs buf (cs i) = Some (ret, ps, c')\<rbrakk>
    \<Longrightarrow> app_run i base off t (cs(i := c')) rcv rd"
| report: "\<lbrakk>app_run i base off t cs rcv rd; tcp_ebpf_sync umem rsv bufs t cs = Some (ps, t', cs')\<rbrakk>
    \<Longrightarrow> app_run i base off t' cs' rcv rd"
| free: "\<lbrakk>app_run i base off t cs rcv rd; tcp_free_buffers t cs = Some (t', cs')\<rbrakk>
    \<Longrightarrow> app_run i base off t' cs' rcv rd"
| resend: "\<lbrakk>app_run i base off t cs rcv rd; tcp_retransmission t cs = (ms, t', cs')\<rbrakk>
    \<Longrightarrow> app_run i base off t' cs' rcv rd"

lemma app_run_in_sync: "app_run i base off t cs rcv rd \<Longrightarrow> stream_in_sync base off rcv rd 0 t (cs i) \<and> i \<noteq> 0 \<and> i \<noteq> POISON_64"
proof (induction rule: app_run.induct)
  case (start t cs c)
  then show ?case by (simp add: stream_in_sync_def rx_ok_def follows_def connection_prepare_buffer_def)
next
  case (poll t cs rcv rd ps r)
  let ?r = "\<lparr>rr_t = t, rr_conns = cs, rr_cached = None, rr_bump = 0, rr_sendbuf = False, rr_events = [], rr_fill = []\<rparr>"
  have ok: "round_ok i base off rcv rd ?r" "unread (rx_addrs (rr_conns ?r i)) = length rcv - length rd"
    using poll.IH by (auto simp: round_ok_def stream_in_sync_def)
  show ?case using round_keeps_order [OF ok(1)] poll ok(2) by (simp add: tcp_nic_poll_def)
next
  case (recv t cs rcv rd k out t' c')
  then have i: "rx_ok 0 (cs i)" "ooo_rx_addrs (cs i) = []" "rcv = rd @ bytes_of (rx_addrs (cs i))" "follows base off (length rcv) (tail_of (cs i)) t"
    "unat (rxb_head (cs i)) \<le> length rd" unfolding stream_in_sync_def by blast+
  note r = conn_recv_reads [OF i(1) recv.hyps(2)]
  have zero: "tail_of (cs i) = 0 \<Longrightarrow> tail_of c' = 0"
  proof -
    assume "tail_of (cs i) = 0"
    then have "rxb_used (cs i) = 0" using i(1) by (simp add: rx_ok_def unat_eq_0)
    then have "c' = cs i" using recv.hyps(2) by (simp add: conn_recv_def eTran_tcp_rx_peek_count_zc_def)
    then show "tail_of c' = 0" using \<open>tail_of (cs i) = 0\<close> by simp
  qed
  have "follows base off (length rcv) (tail_of c') t'" using i(4) r(5,6) zero unfolding follows_def by (auto split: if_splits)
  moreover have "rcv = (rd @ out) @ bytes_of (rx_addrs c')" using i(3) r(1,2) by simp
  moreover have "unat (rxb_head c') \<le> length (rd @ out)" using r(7) i(5) by simp
  ultimately show ?case using r(3,4) i(2) recv.IH unfolding stream_in_sync_def by simp
next
  case (send t cs rcv rd umem bufs buf ret ps c')
  then show ?case using in_sync_cong [OF conn_send_frame [OF send.hyps(2)] refl] by simp
next
  case (report t cs rcv rd umem rsv bufs ps t' cs')
  then show ?case using ebpf_sync_frame [OF report.hyps(2) [unfolded tcp_ebpf_sync_def], of i] in_sync_cong [of "cs' i" "cs i" t' t] by simp
next
  case (free t cs rcv rd t' cs')
  then show ?case using free_buffers_frame [OF free.hyps(2) [unfolded tcp_free_buffers_def], of i] in_sync_cong [of "cs' i" "cs i" t' t] by simp
next
  case (resend t cs rcv rd ms t' cs')
  then show ?case using retransmission_frame [OF resend.hyps(2) [unfolded tcp_retransmission_def], of i] in_sync_cong [of "cs' i" "cs i" t' t] by simp
qed

lemma app_run_reads:
  assumes "app_run i base off t cs rcv rd" "conn_recv i k t (cs i) = (out, t', c')"
  shows "prefix rd rcv \<and> out = take k (drop (length rd) rcv)"
proof -
  have "rx_ok 0 (cs i)" "rcv = rd @ bytes_of (rx_addrs (cs i))" using app_run_in_sync [OF assms(1)] unfolding stream_in_sync_def by blast+
  then show ?thesis using conn_recv_reads(1) [OF _ assms(2)] by simp
qed

text \<open>C15: whatever the sizes of the application's reads and the rounds in which packets arrive,
  the bytes read are a prefix of the bytes received in order, and the next read of \<open>k\<close> bytes
  returns exactly the next \<open>k\<close> of them (all that is left, if fewer).\<close>

theorem app_reads_stream_in_order:
  assumes "app_run i base off t cs rcv rd" "conn_recv i k t (cs i) = (out, t', c')"
  shows "prefix rd rcv \<and> out = take k (drop (length rd) rcv)"
  by (rule app_run_reads [OF assms])

text \<open>Packets for examples.\<close>

definition demo_pkt :: "u64 \<Rightarrow> u32 \<Rightarrow> bytes \<Rightarrow> upkt" where
  "demo_pkt i o' bs = \<lparr>up_addr = 0, up_meta = upd_rx (\<lambda>r. r\<lparr>rx_conn := i, rx_qid := 0, rx_rx_pos := o', rx_poff := 66,
     rx_plen := of_nat (length bs)\<rparr>) (replicate 32 0), up_frame = st32 38 (bpf_htonl o') (replicate 66 0 @ bs)\<rparr>"

definition demo_thread :: utctx where
  "demo_thread = \<lparr>open_conns = Map.empty, t_freed = [], free_pending_conns = [], rx_bump_pending_conns = [], retransmission_conns = [],
     following_packets = False, expected_seq = 0, t_ooo_start = 0, t_ooo_len = 0, last_offset = 0, t_rx_next_pos = 0, t_rx_buf_size = 0\<rparr>"

definition demo_uconn :: eTrantcp_connection where
  "demo_uconn = \<lparr>rxb_head = 0, rxb_used = 0, rxb_bump = 0, txb_head = 0, txb_sent = 0, txb_allocated = 0, u_local_ip = 0,
     u_remote_ip = 0, u_local_port = 0, u_remote_port = 0, u_rx_buf_size = 524288, u_tx_buf_size = 524288, xsk_budget = 0,
     u_qid = 0, u_status = CONN_OPEN, pending_free_bytes = 0, unack_tx_addrs = [], rx_addrs = [], ooo_rx_addrs = [],
     in_rx_bump_pending = False, force_rx_bump = False, try_accept_done = False\<rparr>"

lemma demo_meta: "meta_rx (up_meta (demo_pkt i o' bs)) = (meta_rx (replicate 32 0))\<lparr>rx_conn := i, rx_qid := 0, rx_rx_pos := o',
     rx_poff := 66, rx_plen := of_nat (length bs)\<rparr>" "length (up_meta (demo_pkt i o' bs)) = 32"
  by (simp_all add: demo_pkt_def)

lemma demo_pkt_ok:
  assumes "bs \<noteq> []" "length bs \<le> 1448"
  shows "plen_of (demo_pkt i o' bs) = length bs" "payload_of (demo_pkt i o' bs) = bs" "seg_pkt i 0 0 (unat o') (demo_pkt i o' bs)"
    "\<not> ctl_pkt i (demo_pkt i o' bs)" "rxmeta_poff (demo_pkt i o' bs) = 66"
proof -
  have l: "unat (of_nat (length bs) :: u16) = length bs" using assms(2) by (simp add: unat_of_nat)
  show p: "plen_of (demo_pkt i o' bs) = length bs" by (simp add: plen_of_def demo_meta l)
  show "payload_of (demo_pkt i o' bs) = bs" unfolding payload_of_def p copy_payload_def demo_meta
    by (rule nth_equalityI) (simp_all add: demo_pkt_def mem_simps, simp add: ld8_def nth_default_def nth_append)
  have "bpf_ntohl (ld32 38 (up_frame (demo_pkt i o' bs))) = o'" by (simp add: demo_pkt_def mem_simps)
  then show "seg_pkt i 0 0 (unat o') (demo_pkt i o' bs)" using assms by (simp add: seg_pkt_def demo_meta pkt_fits_def p)
  show "\<not> ctl_pkt i (demo_pkt i o' bs)" using assms(2) l by (auto simp: ctl_pkt_def demo_meta)
  show "rxmeta_poff (demo_pkt i o' bs) = 66" by (simp add: demo_meta)
qed

lemma poll_other_conn:
  assumes "rx_conn (meta_rx (up_meta p)) = i" "rx_qid (meta_rx (up_meta p)) \<noteq> POISON_32" "i \<noteq> 0" "i \<noteq> POISON_64" "j \<noteq> i"
  shows "rr_conns (tcp_nic_poll [p] t cs) j = cs j"
proof -
  let ?r = "\<lparr>rr_t = t, rr_conns = cs, rr_cached = None, rr_bump = 0, rr_sendbuf = False, rr_events = [], rr_fill = []\<rparr>"
  obtain s where s: "handle_rx p False ?r = handle_data i p s" "rr_cached s = Some i" "rr_conns s j = cs j"
    using handle_rx_enters [OF assms(1-4), of ?r] assms(5) by auto
  have "rr_conns (handle_data i p s) j = cs j" "rr_cached (handle_data i p s) = Some i"
    using s(2,3) assms(5) by (simp_all add: handle_data_def Let_def case_prod_beta give_back_def put_user_def)
  then show ?thesis using assms(5) unfolding tcp_nic_poll_def
    by (simp add: handle_rx_last s(1) close_round_def lazy_update_prev_conn_rxev_def lazy_update_prev_conn_txev_def)
qed

lemma demo_run: "\<exists>t cs. app_run 7 0 0 t cs [1, 2, 3] [] \<and> rxb_used (cs 8) = 0"
proof -
  let ?cs = "\<lambda>_. connection_prepare_buffer demo_uconn"
  let ?r = "tcp_nic_poll [demo_pkt 7 0 [1, 2, 3]] demo_thread ?cs"
  note p = demo_pkt_ok [of "[1, 2, 3]" 7 0]
  have "app_run 7 0 0 demo_thread ?cs [] []"
    by (rule app_run.start [where c = demo_uconn]) (simp_all add: demo_thread_def demo_uconn_def)
  from app_run.poll [OF this _ _ _ refl, of "[demo_pkt 7 0 [1, 2, 3]]"] have "app_run 7 0 0 (rr_t ?r) (rr_conns ?r) [1, 2, 3] []"
    using p by simp
  moreover have "rxb_used (rr_conns ?r 8) = 0" by (simp add: poll_other_conn [where i = 7] demo_meta connection_prepare_buffer_def)
  ultimately show ?thesis by blast
qed

theorem app_reads_stream_in_order_witness: "\<exists>t cs t' c'. app_run 7 0 0 t cs [1, 2, 3] [] \<and> conn_recv 7 2 t (cs 7) = ([1, 2], t', c')"
proof -
  obtain t cs where run: "app_run 7 0 0 t cs [1, 2, 3] []" using demo_run by blast
  obtain out t' c' where r: "conn_recv 7 2 t (cs 7) = (out, t', c')" by (metis prod_cases3)
  from app_reads_stream_in_order [OF run r] have "out = [1, 2]" by simp
  then show ?thesis using run r by blast
qed

section \<open>A gap that is filled\<close>

lemma position_ahead:
  assumes "follows base off o' h t" "following_packets t" "h + n < RX_BUF" "n \<le> 1448"
  shows "unat (user_pos t (off + of_nat (o' + n))) = h + n"
proof -
  let ?d = "off + of_nat o' - last_offset t"
  have f: "t_rx_buf_size t = 524288" "unat (t_rx_next_pos t) < RX_BUF" "unat ?d \<le> 1448"
    "(unat (t_rx_next_pos t) + unat ?d) mod RX_BUF = h mod RX_BUF" using assms(1,2) by (simp_all add: follows_def)
  have e: "off + of_nat (o' + n) - last_offset t = ?d + of_nat n" by simp
  have u: "unat (?d + of_nat n) = unat ?d + n" using assms(4) f(3) by (simp add: unat_plus_if' unat_of_nat)
  have "unat (user_pos t (off + of_nat (o' + n))) = (unat (t_rx_next_pos t) + unat (?d + of_nat n)) mod RX_BUF"
    unfolding user_pos_def e Let_def f(1) by (rule wrap_pos [OF f(2)]) (use u assms(4) f(3) in simp)
  also have "\<dots> = ((unat (t_rx_next_pos t) + unat ?d) mod RX_BUF + n) mod RX_BUF" unfolding u by (simp add: mod_simps add.assoc)
  also have "\<dots> = h + n" using f(4) assms(3) by simp
  finally show ?thesis .
qed

lemma add_out_of_order:
  assumes "follows base off o' h t" "following_packets t" "seg_pkt i base off (o' + n) p" "0 < n" "n \<le> 1448" "h + n < RX_BUF"
    and "parse_packet p (ucast (rxmeta_plen p)) = (a, b)"
  shows "\<exists>pos. user_add_data_seg a b (ucast (rxmeta_plen p)) (rxmeta_pos p) p t c =
      (t\<lparr>t_ooo_start := base + of_nat (o' + n), t_ooo_len := ucast (rxmeta_plen p)\<rparr>, out_of_order_receive (rxmeta_set_pos pos p) c, 0)
    \<and> unat pos = h + n"
proof -
  have a: "a = base + of_nat (o' + n)" "rxmeta_pos p = off + of_nat (o' + n)" using assms(3,7) by (auto simp: seg_pkt_def parse_packet_def Let_def)
  have "(of_nat n :: u32) \<noteq> 0" using assms(4,5) by (simp add: word_unat_eq_iff unat_of_nat)
  then have "expected_seq t \<noteq> a" using assms(1,2) a(1) by (simp add: follows_def)
  moreover have "t_ooo_len t = 0" using assms(1) by (simp add: follows_def)
  ultimately show ?thesis using assms(2) position_ahead [OF assms(1,2,6,5)] a
    by (intro exI [of _ "user_pos t (rxmeta_pos p)"]) (simp add: user_add_data_seg_def)
qed

lemma add_completing:
  assumes "follows base off o' h t" "following_packets t" "seg_pkt i base off o' p" "rxmeta_poff p = 66" "h < RX_BUF"
    and "parse_packet p (ucast (rxmeta_plen p)) = (a, b)" "0 < m"
    and "cursor t' = cursor (t\<lparr>t_ooo_start := base + of_nat (o' + plen_of p), t_ooo_len := m\<rparr>)"
  shows "\<exists>pos u. user_add_data_seg a b (ucast (rxmeta_plen p)) (rxmeta_pos p) p t' c =
      (u, c\<lparr>rx_addrs := rx_addrs c @ ooo_rx_addrs c @ [rxmeta_set_pos pos p], ooo_rx_addrs := []\<rparr>, ucast (rxmeta_plen p) + m)
    \<and> unat pos = h"
proof -
  have a: "a = base + of_nat o'" "b = base + of_nat (o' + plen_of p)" "rxmeta_pos p = off + of_nat o'"
    using assms(3,4,6) by (auto simp: seg_pkt_def parse_packet_def Let_def plen_of_def)
  have e: "expected_seq t' = a" "t_ooo_len t' = m" "b = t_ooo_start t'" "following_packets t'" using assms(1,2,8) a by (simp_all add: follows_def)
  have "user_pos t' = user_pos t" using assms(8) by (simp add: user_pos_def fun_eq_iff Let_def)
  then have "unat (user_pos t' (rxmeta_pos p)) = h" using position_ahead [OF assms(1,2), of 0] assms(5) a(3) by simp
  then show ?thesis using e assms(7)
    by (intro exI [of _ "user_pos t' (rxmeta_pos p)"])
      (simp add: user_add_data_seg_def Let_def in_order_receive_def user_pos_def)
qed

lemma peek_whole:
  assumes "ok (unat (rxmeta_pos p))" "length out + plen_of p \<le> count"
  shows "peek_loop ok bufsz count out (p # ps) =
    (if length out + plen_of p = count then (out @ payload_of p, ps, [up_addr p])
     else let (o', qs, fr) = peek_loop ok bufsz count (out @ payload_of p) ps in (o', qs, up_addr p # fr))"
proof -
  have "min (plen_of p) (count - length out) = plen_of p" using assms(2) by simp
  then show ?thesis using assms(1) by (simp add: Let_def unat_plen payload_of_def)
qed

lemma recv_two:
  assumes "rx_addrs c = [p, q]" "u_rx_buf_size c = 524288" "unat (rxb_head c) = h" "rxb_used c = ucast (rxmeta_plen q) + ucast (rxmeta_plen p)"
    and "unat (rxmeta_pos p) = h + plen_of q" "unat (rxmeta_pos q) = h" "h + plen_of q + plen_of p \<le> RX_BUF" "0 < plen_of p" "0 < plen_of q"
  shows "fst (conn_recv i (plen_of q + plen_of p) t c) = payload_of p @ payload_of q"
proof -
  let ?n = "plen_of q + plen_of p"
  have u: "unat (rxb_used c) = ?n" unfolding assms(4) using unat_lt16 [of "rxmeta_plen p"] unat_lt16 [of "rxmeta_plen q"]
    by (simp add: unat_plus_if' unat_plen)
  then have nz: "rxb_used c \<noteq> 0" using assms(8) by auto
  have ok: "in_range h ?n (unat (rxmeta_pos p))" "in_range h ?n (unat (rxmeta_pos q))" using assms(5-9) by (simp_all add: in_range_def)
  have "peek_loop (in_range h ?n) RX_BUF ?n (payload_of p) [q] = (payload_of p @ payload_of q, [], [up_addr q])"
    using ok(2) by (subst peek_whole [where ok = "in_range h ?n"]) simp_all
  then have "peek_loop (in_range h ?n) RX_BUF ?n [] [p, q] = (payload_of p @ payload_of q, [], [up_addr p, up_addr q])"
    using assms(9) ok(1) by (subst peek_whole [where ok = "in_range h ?n"]) (simp_all del: peek_loop.simps)
  then have "eTran_tcp_rx_peek_count_zc ?n t c = (payload_of p @ payload_of q, t\<lparr>t_freed := t_freed t @ [up_addr p, up_addr q]\<rparr>, c\<lparr>rx_addrs := []\<rparr>)"
    using assms(1,3) u by (intro peek_count_loop [OF nz assms(2)]) (simp del: peek_loop.simps)
  then show ?thesis by (simp add: conn_recv_def case_prod_beta Let_def)
qed

text \<open>C36: when a packet arrives ahead of its predecessor and the predecessor then fills the gap,
  the application reads the bytes of the later packet before those of the earlier one: the
  packets kept aside are put in front of the packet that completes them, and a read copies
  packets in the order of the list.\<close>

theorem filled_gap_read_out_of_order:
  assumes "app_run i base off t cs rcv rcv" "rcv \<noteq> []"
    and "seg_pkt i base off (length rcv) p" "seg_pkt i base off (length rcv + plen_of p) q" "rxmeta_poff p = 66"
    and "length rcv + plen_of p + plen_of q \<le> RX_BUF" "r = tcp_nic_poll [q, p] t cs"
  shows "fst (conn_recv i (plen_of p + plen_of q) (rr_t r) (rr_conns r i)) = payload_of q @ payload_of p"
proof -
  let ?h = "unat (rxb_head (cs i))" and ?o = "length rcv"
  let ?r = "\<lparr>rr_t = t, rr_conns = cs, rr_cached = None, rr_bump = 0, rr_sendbuf = False, rr_events = [], rr_fill = []\<rparr>"
  have i: "rx_ok 0 (cs i)" "ooo_rx_addrs (cs i) = []" "bytes_of (rx_addrs (cs i)) = []" "follows base off ?o (tail_of (cs i)) t"
    "i \<noteq> 0" "i \<noteq> POISON_64" "?h \<le> ?o" using app_run_in_sync [OF assms(1)] unfolding stream_in_sync_def by auto
  have room: "?h + plen_of p + plen_of q \<le> RX_BUF" using i(7) assms(6) by simp
  have u0: "unread (rx_addrs (cs i)) = 0" using arg_cong [OF i(3), of length] by simp
  have fl: "follows base off ?o ?h t" using i(4) u0 by simp
  have fp: "following_packets t" using fl assms(2) by (auto simp: follows_def split: if_splits)
  have p: "rx_conn (meta_rx (up_meta p)) = i" "rx_qid (meta_rx (up_meta p)) \<noteq> POISON_32" "pkt_fits p" "0 < plen_of p" "plen_of p \<le> 1448"
    and q: "rx_conn (meta_rx (up_meta q)) = i" "rx_qid (meta_rx (up_meta q)) \<noteq> POISON_32" "pkt_fits q" "0 < plen_of q" "plen_of q \<le> 1448"
    using assms(3,4) by (simp_all add: seg_pkt_def)
  have nil: "rx_addrs (cs i) = []" "u_rx_buf_size (cs i) = 524288" "rxb_used (cs i) = 0"
    using i(1) u0 laid_unread_0 by (auto simp: rx_ok_def unat_eq_0)
  have pl: "rxmeta_plen p \<noteq> POISON_16" "rxmeta_plen q \<noteq> POISON_16" using p(5) q(5) by (auto simp: plen_of_def)
  obtain ap bp aq bq where ab: "parse_packet p (ucast (rxmeta_plen p)) = (ap, bp)" "parse_packet q (ucast (rxmeta_plen q)) = (aq, bq)"
    by fastforce
  obtain s1 where s1: "handle_rx q False ?r = handle_data i q s1" "rx_view (rr_conns s1 i) = rx_view (cs i)" "cursor (rr_t s1) = cursor t"
    "rr_cached s1 = Some i" "rr_bump s1 = 0" using handle_rx_enters [OF q(1,2) i(5,6), of ?r] by auto
  have "follows base off ?o ?h (rr_t s1)" "following_packets (rr_t s1)" using fl fp s1(3) by (simp_all add: follows_def)
  from add_out_of_order [OF this assms(4) p(4,5) _ ab(2), of "rr_conns s1 i"] room q(4) obtain pos1 where
    u1: "user_add_data_seg aq bq (ucast (rxmeta_plen q)) (rxmeta_pos q) q (rr_t s1) (rr_conns s1 i) =
      ((rr_t s1)\<lparr>t_ooo_start := base + of_nat (?o + plen_of p), t_ooo_len := ucast (rxmeta_plen q)\<rparr>,
       out_of_order_receive (rxmeta_set_pos pos1 q) (rr_conns s1 i), 0)" "unat pos1 = ?h + plen_of p" by auto
  define r1 where "r1 = handle_rx q False ?r"
  have r1: "r1 = put_user i ((rr_t s1)\<lparr>t_ooo_start := base + of_nat (?o + plen_of p), t_ooo_len := ucast (rxmeta_plen q)\<rparr>)
      (out_of_order_receive (rxmeta_set_pos pos1 q) (rr_conns s1 i)) s1"
    unfolding r1_def s1(1) handle_data_adds [OF pl(2) ab(2) u1(1)] using s1(5) by (simp add: put_user_def)
  have c1: "rr_cached r1 = Some i" "rr_bump r1 = 0" "rx_addrs (rr_conns r1 i) = []" "ooo_rx_addrs (rr_conns r1 i) = [rxmeta_set_pos pos1 q]"
    "rxb_used (rr_conns r1 i) = 0" "u_rx_buf_size (rr_conns r1 i) = 524288" "rxb_head (rr_conns r1 i) = rxb_head (cs i)"
    unfolding r1 using s1 nil i(2) by (simp_all add: put_user_def out_of_order_receive_def)
  obtain s2 where s2: "handle_rx p False r1 = handle_data i p s2" "rx_view (rr_conns s2 i) = rx_view (rr_conns r1 i)"
    "cursor (rr_t s2) = cursor (rr_t r1)" "rr_cached s2 = Some i" "rr_bump s2 = 0"
    using handle_rx_enters [OF p(1,2) i(5,6), of r1] c1(1,2) by auto
  have m: "(0::u32) < ucast (rxmeta_plen q)" using q(4) by (simp add: word_less_nat_alt unat_plen)
  have cur: "cursor (rr_t s2) = cursor (t\<lparr>t_ooo_start := base + of_nat (?o + plen_of p), t_ooo_len := ucast (rxmeta_plen q)\<rparr>)"
    using s2(3) s1(3) unfolding r1 by (simp add: put_user_def)
  from add_completing [OF fl fp assms(3,5) _ ab(1) m cur, of "rr_conns s2 i"] room p(4) obtain pos2 u where
    u2: "user_add_data_seg ap bp (ucast (rxmeta_plen p)) (rxmeta_pos p) p (rr_t s2) (rr_conns s2 i) =
      (u, (rr_conns s2 i)\<lparr>rx_addrs := rx_addrs (rr_conns s2 i) @ ooo_rx_addrs (rr_conns s2 i) @ [rxmeta_set_pos pos2 p], ooo_rx_addrs := []\<rparr>,
       ucast (rxmeta_plen p) + ucast (rxmeta_plen q))" "unat pos2 = ?h" by auto
  define d where "d = rr_conns r i"
  have r: "r = close_round (handle_rx p False r1)" unfolding assms(7) tcp_nic_poll_def r1_def by (simp add: handle_rx_last)
  have d: "rx_addrs d = [rxmeta_set_pos pos1 q, rxmeta_set_pos pos2 p]" "u_rx_buf_size d = 524288" "rxb_head d = rxb_head (cs i)"
    "rxb_used d = ucast (rxmeta_plen p) + ucast (rxmeta_plen q)"
    unfolding d_def r s2(1) handle_data_adds [OF pl(1) ab(1) u2(1)] using s2(2,4,5) c1
    by (simp_all add: close_round_def lazy_update_prev_conn_rxev_def lazy_update_prev_conn_txev_def put_user_def)
  note sp = set_pos_fields [OF p(3), of pos2] set_pos_fields [OF q(3), of pos1]
  have "fst (conn_recv i (plen_of (rxmeta_set_pos pos2 p) + plen_of (rxmeta_set_pos pos1 q)) (rr_t r) d) =
      payload_of (rxmeta_set_pos pos1 q) @ payload_of (rxmeta_set_pos pos2 p)"
    by (rule recv_two [OF d(1,2) refl]) (use sp d(3,4) u1(2) u2(2) room p(4) q(4) in simp_all)
  then show ?thesis unfolding d_def using sp by simp
qed

theorem filled_gap_read_out_of_order_witness:
  "\<exists>t cs. app_run 7 0 0 t cs [1, 2, 3] [1, 2, 3] \<and>
    (let r = tcp_nic_poll [demo_pkt 7 5 [6], demo_pkt 7 3 [4, 5]] t cs in fst (conn_recv 7 3 (rr_t r) (rr_conns r 7)) = [6, 4, 5])"
proof -
  obtain t cs where run: "app_run 7 0 0 t cs [1, 2, 3] []" using demo_run by blast
  obtain out t' c' where r: "conn_recv 7 3 t (cs 7) = (out, t', c')" by (metis prod_cases3)
  have "out = [1, 2, 3]" using app_run_reads [OF run r] by simp
  then have run': "app_run 7 0 0 t' (cs(7 := c')) [1, 2, 3] [1, 2, 3]" using app_run.recv [OF run r] by simp
  let ?p = "demo_pkt 7 3 [4, 5]" and ?q = "demo_pkt 7 5 [6]"
  let ?r = "tcp_nic_poll [?q, ?p] t' (cs(7 := c'))"
  have p: "plen_of ?p = 2" "payload_of ?p = [4, 5]" "seg_pkt 7 0 0 3 ?p" "rxmeta_poff ?p = 66"
    and q: "plen_of ?q = 1" "payload_of ?q = [6]" "seg_pkt 7 0 0 5 ?q"
    using demo_pkt_ok [of "[4, 5]" 7 3] demo_pkt_ok [of "[6]" 7 5] by simp_all
  have "fst (conn_recv 7 (plen_of ?p + plen_of ?q) (rr_t ?r) (rr_conns ?r 7)) = payload_of ?q @ payload_of ?p"
  proof (rule filled_gap_read_out_of_order [OF run' _ _ _ p(4) _ refl])
    have l: "length ([1, 2, 3] :: u8 list) = 3" by simp
    show "[1, 2, 3] \<noteq> ([] :: u8 list)" by simp
    show "seg_pkt 7 0 0 (length ([1, 2, 3] :: u8 list)) ?p" unfolding l by (rule p(3))
    show "seg_pkt 7 0 0 (length ([1, 2, 3] :: u8 list) + plen_of ?p) ?q" unfolding l p(1) using q(3) by simp
    show "length ([1, 2, 3] :: u8 list) + plen_of ?p + plen_of ?q \<le> RX_BUF" unfolding l p(1) q(1) by simp
  qed
  then have "fst (conn_recv 7 3 (rr_t ?r) (rr_conns ?r 7)) = [6, 4, 5]" unfolding p(1,2) q(1,2) by simp
  then show ?thesis using run' unfolding Let_def by blast
qed

section \<open>A second connection on the thread\<close>

text \<open>C37: the reassembly state belongs to the thread, not to the connection: once a thread has
  received data of one connection, the first segment of another connection is kept as out of
  order unless its sequence number happens to be the one expected of the first, so that nothing
  is delivered, no event is raised and a read returns nothing.\<close>

theorem second_connection_not_delivered:
  assumes "app_run i base off t cs rcv rd" "rcv \<noteq> []" "seg_pkt j base' off' 0 p" "base' \<noteq> base + of_nat (length rcv)"
    and "j \<noteq> 0" "j \<noteq> POISON_64" "rxb_used (cs j) = 0" "r = tcp_nic_poll [p] t cs"
  shows "fst (conn_recv j k (rr_t r) (rr_conns r j)) = [] \<and> ETRANTCP_EV_CONN_RECVED j \<notin> set (rr_events r)
    \<and> length (ooo_rx_addrs (rr_conns r j)) = length (ooo_rx_addrs (cs j)) + 1"
proof -
  let ?r = "\<lparr>rr_t = t, rr_conns = cs, rr_cached = None, rr_bump = 0, rr_sendbuf = False, rr_events = [], rr_fill = []\<rparr>"
  have f: "t_ooo_len t = 0" "following_packets t" "expected_seq t = base + of_nat (length rcv)"
    using app_run_in_sync [OF assms(1)] assms(2) by (auto simp: stream_in_sync_def follows_def split: if_splits)
  have p: "rx_conn (meta_rx (up_meta p)) = j" "rx_qid (meta_rx (up_meta p)) \<noteq> POISON_32" "plen_of p \<le> 1448"
    using assms(3) by (simp_all add: seg_pkt_def)
  have pl: "rxmeta_plen p \<noteq> POISON_16" using p(3) by (auto simp: plen_of_def)
  obtain a b where ab: "parse_packet p (ucast (rxmeta_plen p)) = (a, b)" by fastforce
  have a: "a = base'" using ab assms(3) by (auto simp: seg_pkt_def parse_packet_def Let_def)
  obtain s where s: "handle_rx p False ?r = handle_data j p s" "rx_view (rr_conns s j) = rx_view (cs j)" "cursor (rr_t s) = cursor t"
    "rr_cached s = Some j" "rr_bump s = 0" "rr_events s = []" using handle_rx_enters [OF p(1,2) assms(5,6), of ?r] by auto
  have u: "user_add_data_seg a b (ucast (rxmeta_plen p)) (rxmeta_pos p) p (rr_t s) (rr_conns s j) =
      ((rr_t s)\<lparr>t_ooo_start := a, t_ooo_len := ucast (rxmeta_plen p)\<rparr>,
       out_of_order_receive (rxmeta_set_pos (user_pos (rr_t s) (rxmeta_pos p)) p) (rr_conns s j), 0)"
    using s(3) f a assms(4) by (simp add: user_add_data_seg_def)
  have r: "r = close_round (handle_rx p False ?r)" unfolding assms(8) tcp_nic_poll_def by (simp add: handle_rx_last)
  have "rxb_used (rr_conns r j) = 0" "length (ooo_rx_addrs (rr_conns r j)) = length (ooo_rx_addrs (cs j)) + 1"
    "ETRANTCP_EV_CONN_RECVED j \<notin> set (rr_events r)"
    unfolding r s(1) handle_data_adds [OF pl ab u] using s(2,4,5,6) assms(7)
    by (simp_all add: close_round_def lazy_update_prev_conn_rxev_def lazy_update_prev_conn_txev_def put_user_def out_of_order_receive_def)
  then show ?thesis by (simp add: conn_recv_def eTran_tcp_rx_peek_count_zc_def)
qed

theorem second_connection_not_delivered_witness:
  "\<exists>t cs. app_run 7 0 0 t cs [1, 2, 3] [] \<and>
    (let r = tcp_nic_poll [demo_pkt 8 0 [9]] t cs in fst (conn_recv 8 1 (rr_t r) (rr_conns r 8)) = [])"
proof -
  obtain t cs where run: "app_run 7 0 0 t cs [1, 2, 3] []" "rxb_used (cs 8) = 0" using demo_run by blast
  have p: "seg_pkt 8 0 0 0 (demo_pkt 8 0 [9])" using demo_pkt_ok [of "[9]" 8 0] by simp
  have "fst (conn_recv 8 1 (rr_t (tcp_nic_poll [demo_pkt 8 0 [9]] t cs)) (rr_conns (tcp_nic_poll [demo_pkt 8 0 [9]] t cs) 8)) = []"
    using second_connection_not_delivered [OF run(1) _ p _ _ _ run(2) refl, of 1] by simp
  then show ?thesis using run(1) unfolding Let_def by blast
qed

section \<open>Events of a round\<close>

definition event_room :: "rx_round \<Rightarrow> nat" where
  "event_room r = length (rr_events r) + (if rr_cached r = None then 0 else 2)"

lemma event_room_keep [simp]:
  "event_room (give_back p r) = event_room r" "event_room (put_user i t c r) = event_room r"
  "event_room (r\<lparr>rr_bump := n\<rparr>) = event_room r" "event_room (r\<lparr>rr_sendbuf := v\<rparr>) = event_room r" "event_room (r\<lparr>rr_fill := q\<rparr>) = event_room r"
  by (simp_all add: event_room_def give_back_def put_user_def)

lemma event_room_switch: "event_room (switch_conn i r) \<le> event_room r + 2"
  by (auto simp: event_room_def switch_conn_def lazy_update_prev_conn_rxev_def lazy_update_prev_conn_txev_def split: option.split)

lemma event_room_data [simp]: "event_room (handle_data i p r) = event_room r"
  by (simp add: handle_data_def Let_def case_prod_beta)

lemma event_room_rx: "event_room (handle_rx p False r) \<le> event_room r + 2"
  using event_room_switch [of "rx_conn (meta_rx (up_meta p))" r]
  by (simp add: handle_rx_def Let_def case_prod_beta)

lemma event_room_close: "length (rr_events (close_round r)) \<le> event_room r"
  by (auto simp: event_room_def close_round_def lazy_update_prev_conn_rxev_def lazy_update_prev_conn_txev_def split: option.split)

lemma events_of_round: "length (rr_events (handle_all ps r)) \<le> event_room r + 2 * length ps"
proof (induction ps arbitrary: r)
  case Nil
  then show ?case by (simp add: event_room_def)
next
  case (Cons p ps)
  show ?case
  proof (cases "ps = []")
    case True
    then show ?thesis using event_room_close [of "handle_rx p False r"] event_room_rx [of p r] by (simp add: handle_rx_last)
  next
    case False
    then show ?thesis using Cons.IH [of "handle_rx p False r"] event_room_rx [of p r] by simp
  qed
qed

text \<open>C33: a round of received packets writes at most two events per packet into the
  caller's array, so the 64 packets of one poll need no more than 128 of its 256 entries.\<close>

theorem poll_events_bounded: "length (rr_events (tcp_nic_poll pkts t cs)) \<le> 2 * length pkts"
  using events_of_round [of pkts "\<lparr>rr_t = t, rr_conns = cs, rr_cached = None, rr_bump = 0, rr_sendbuf = False, rr_events = [], rr_fill = []\<rparr>"]
  by (simp add: tcp_nic_poll_def event_room_def)

end
