(* ===== verification/User_Tx.thy ===== *)
theory User_Tx
  imports User_Stream
begin

text \<open>
  The sending side of the user library: what a write hands to the egress program, what is
  sent again after a go-back, and the accounting of the transmit buffer.
\<close>

section \<open>What a write submits\<close>

abbreviation tx_info :: "upkt \<Rightarrow> tx_t" where "tx_info p \<equiv> meta_tx (up_meta p)"

definition tx_adv :: "u32 \<Rightarrow> u32 \<Rightarrow> u32 \<Rightarrow> u32" where
  "tx_adv b h n = (if h + n \<ge> b then h + n - b else h + n)"

text \<open>Packets with consecutive positions in a buffer of \<open>b\<close> bytes; the first announces \<open>pend\<close> bytes.\<close>

fun tx_laid :: "u32 \<Rightarrow> u32 \<Rightarrow> u32 \<Rightarrow> (u64 \<times> u32) list \<Rightarrow> (u64 \<times> meta_info) list \<Rightarrow> bool" where
  "tx_laid b h pend [] [] = True"
| "tx_laid b h pend ((a, n) # us) ((a', m) # ms) =
    (a' = a \<and> meta_tx m = \<lparr> tx_slowpath = 0, tx_flag = 0, tx_rx_bump = 0, tx_tx_pending = pend, tx_tx_pos = h, tx_plen = n \<rparr>
     \<and> tx_laid b (tx_adv b h n) 0 us ms)"
| "tx_laid b h pend us ms = False"

fun tx_end :: "u32 \<Rightarrow> u32 \<Rightarrow> (u64 \<times> u32) list \<Rightarrow> u32" where
  "tx_end b h [] = h"
| "tx_end b h ((a, n) # us) = tx_end b (tx_adv b h n) us"

primrec bytes_in :: "(u64 \<times> u32) list \<Rightarrow> nat" where
  "bytes_in [] = 0"
| "bytes_in (u # us) = unat (snd u) + bytes_in us"

definition sizes_ok :: "(u64 \<times> u32) list \<Rightarrow> bool" where
  "sizes_ok us = list_all (\<lambda>u. 0 < unat (snd u) \<and> unat (snd u) \<le> TCP_MSS_W_TS) us"

lemma sizes_ok_simps [simp]: "sizes_ok []" "sizes_ok (u # us) \<longleftrightarrow> 0 < unat (snd u) \<and> unat (snd u) \<le> TCP_MSS_W_TS \<and> sizes_ok us"
  "sizes_ok (us @ vs) \<longleftrightarrow> sizes_ok us \<and> sizes_ok vs"
  by (simp_all add: sizes_ok_def)

lemma bytes_in_append [simp]: "bytes_in (us @ vs) = bytes_in us + bytes_in vs"
  by (induction us) simp_all

lemma meta_tx_meta [simp]:
  "meta_tx (tx_meta pend pos n) = \<lparr> tx_slowpath = 0, tx_flag = 0, tx_rx_bump = 0, tx_tx_pending = pend, tx_tx_pos = pos, tx_plen = n \<rparr>"
  by (simp add: tx_meta_def)

lemma data_frame_payload: "length old \<ge> 66 \<Longrightarrow> drop 66 (data_frame c old payload) = payload"
  by (simp add: data_frame_def put_addresses_def)

abbreviation submitted :: "upkt list \<Rightarrow> (u64 \<times> meta_info) list" where
  "submitted ps \<equiv> map (\<lambda>p. (up_addr p, up_meta p)) ps"

abbreviation payloads :: "upkt list \<Rightarrow> bytes list" where
  "payloads ps \<equiv> map (\<lambda>p. drop 66 (up_frame p)) ps"

definition buffers_ok :: "(u64 \<Rightarrow> bytes) \<Rightarrow> u64 list \<Rightarrow> bool" where
  "buffers_ok umem bufs = list_all (\<lambda>a. length (umem a) \<ge> 66) bufs"

lemma segment_loop_sends:
  assumes "buffers_ok umem bufs" "length buf \<le> TCP_MSS_W_TS * length bufs"
  obtains ps us where "segment_loop umem pend bufs buf c =
      Some (ps, c\<lparr>unack_tx_addrs := unack_tx_addrs c @ us, txb_head := tx_end (u_tx_buf_size c) (txb_head c) us\<rparr>)"
    "tx_laid (u_tx_buf_size c) (txb_head c) pend us (submitted ps)" "concat (payloads ps) = buf"
    "map length (payloads ps) = map (\<lambda>u. unat (snd u)) us" "sizes_ok us"
proof -
  have "\<exists>ps us. segment_loop umem pend bufs buf c =
      Some (ps, c\<lparr>unack_tx_addrs := unack_tx_addrs c @ us, txb_head := tx_end (u_tx_buf_size c) (txb_head c) us\<rparr>)
    \<and> tx_laid (u_tx_buf_size c) (txb_head c) pend us (submitted ps) \<and> concat (payloads ps) = buf
    \<and> map length (payloads ps) = map (\<lambda>u. unat (snd u)) us \<and> sizes_ok us"
    using assms
  proof (induction bufs arbitrary: pend buf c)
    case Nil
    then show ?case by (intro exI [of _ "[]"]) (simp add: segment_loop_empty)
  next
    case (Cons a bufs)
    show ?case
    proof (cases "buf = []")
      case True
      then show ?thesis by (intro exI [of _ "[]"]) (simp add: segment_loop_empty)
    next
      case False
      let ?pl = "take TCP_MSS_W_TS buf"
      let ?n = "of_nat (length ?pl) :: u32"
      define d where "d = sent_conn a ?pl c"
      have n: "unat ?n = length ?pl" by (simp add: unat_of_nat)
      have d: "u_tx_buf_size d = u_tx_buf_size c" "txb_head d = tx_adv (u_tx_buf_size c) (txb_head c) ?n"
        "d\<lparr>unack_tx_addrs := unack_tx_addrs d @ us, txb_head := h\<rparr> = c\<lparr>unack_tx_addrs := unack_tx_addrs c @ (a, ?n) # us, txb_head := h\<rparr>" for us h
        unfolding d_def by (simp_all add: advance_head_def tx_adv_def Let_def)
      have "buffers_ok umem bufs" "length (drop TCP_MSS_W_TS buf) \<le> TCP_MSS_W_TS * length bufs" "length (umem a) \<ge> 66"
        using Cons.prems by (simp_all add: buffers_ok_def)
      from Cons.IH [OF this(1,2), of 0 d] obtain ps us where ih: "segment_loop umem 0 bufs (drop TCP_MSS_W_TS buf) d =
          Some (ps, d\<lparr>unack_tx_addrs := unack_tx_addrs d @ us, txb_head := tx_end (u_tx_buf_size d) (txb_head d) us\<rparr>)"
        "tx_laid (u_tx_buf_size d) (txb_head d) 0 us (submitted ps)" "concat (payloads ps) = drop TCP_MSS_W_TS buf"
        "map length (payloads ps) = map (\<lambda>u. unat (snd u)) us" "sizes_ok us" by blast
      have "segment_loop umem pend (a # bufs) buf c = Some (sent_pkt umem pend a ?pl c # ps,
          c\<lparr>unack_tx_addrs := unack_tx_addrs c @ (a, ?n) # us, txb_head := tx_end (u_tx_buf_size d) (txb_head d) us\<rparr>)"
        unfolding segment_loop_packet [OF False] d_def [symmetric] ih(1) d(3) by simp
      moreover have "0 < length ?pl" using False by simp
      ultimately show ?thesis using ih(2-5) n data_frame_payload [OF \<open>length (umem a) \<ge> 66\<close>] unfolding d(1,2)
        by (intro exI [of _ "sent_pkt umem pend a ?pl c # ps"] exI [of _ "(a, ?n) # us"]) simp
    qed
  qed
  then show thesis using that by blast
qed

text \<open>The transmit buffer: its size, its head, the bytes sent and reserved, the packets kept.\<close>

definition tx_wf :: "eTrantcp_connection \<Rightarrow> bool" where
  "tx_wf c \<longleftrightarrow> TCP_MSS_W_TS \<le> unat (u_tx_buf_size c) \<and> unat (u_tx_buf_size c) \<le> 2 ^ 30 \<and> txb_head c < u_tx_buf_size c
     \<and> unat (txb_sent c) + unat (txb_allocated c) + unat (pending_free_bytes c) \<le> unat (u_tx_buf_size c)
     \<and> bytes_in (unack_tx_addrs c) = unat (txb_sent c) + unat (pending_free_bytes c)
     \<and> sizes_ok (unack_tx_addrs c)"

lemma avail_bound:
  assumes "tx_wf c"
  shows "unat (txb_bytes_avail c) + unat (txb_sent c) + unat (txb_allocated c) \<le> unat (u_tx_buf_size c)"
  using assms by (auto simp: tx_wf_def txb_bytes_avail_def xsk_bytes_avail_def c_min_def min_def seq_nat split: if_splits)

lemma tx_end_bound:
  assumes "h < b" "TCP_MSS_W_TS \<le> unat b" "unat b \<le> 2 ^ 30" "sizes_ok us"
  shows "tx_end b h us < b"
  using assms(1,4)
proof (induction us arbitrary: h)
  case (Cons u us)
  obtain a n where u: "u = (a, n)" by fastforce
  have "tx_adv b h n < b" using Cons.prems assms(2,3) u by (auto simp: tx_adv_def seq_nat)
  from Cons.IH [OF this] show ?case using Cons.prems(2) u by simp
qed simp

lemma bytes_in_payloads: "map length (payloads ps) = map (\<lambda>u. unat (snd u)) us \<Longrightarrow> bytes_in us = length (concat (payloads ps))"
proof (induction us arbitrary: ps)
  case (Cons u us)
  then show ?case by (cases ps) simp_all
qed simp

lemma write_submits:
  assumes "tx_wf c" "u_status c = CONN_OPEN" "n = min (length buf) (unat (txb_bytes_avail c))" "0 < n"
    and "buffers_ok umem bufs" "n \<le> TCP_MSS_W_TS * length bufs"
  obtains ps us where "conn_send umem bufs buf c = Some (int n, ps, c\<lparr>unack_tx_addrs := unack_tx_addrs c @ us,
      txb_head := tx_end (u_tx_buf_size c) (txb_head c) us, txb_sent := txb_sent c + of_nat n\<rparr>)"
    "tx_laid (u_tx_buf_size c) (txb_head c) (of_nat n) us (submitted ps)" "concat (payloads ps) = take n buf" "sizes_ok us" "bytes_in us = n"
proof -
  let ?d = "c\<lparr>txb_allocated := txb_allocated c + of_nat n\<rparr>"
  have n: "n \<le> length buf" "n \<le> unat (txb_bytes_avail c)" using assms(3) by simp_all
  have b: "n + unat (txb_sent c) + unat (txb_allocated c) \<le> 2 ^ 30" using avail_bound [OF assms(1)] n(2) assms(1) by (simp add: tx_wf_def)
  have un: "unat (of_nat n :: u32) = n" using b by (simp add: unat_of_nat)
  have al: "unat (txb_allocated c + of_nat n) = unat (txb_allocated c) + n" using b un by (simp add: unat_plus_if')
  have len: "length (take n buf) = n" using n(1) by simp
  have len': "length (take n buf) \<le> TCP_MSS_W_TS * length bufs" using len assms(6) by simp
  obtain ps us where g: "segment_loop umem (of_nat n) bufs (take n buf) ?d =
      Some (ps, ?d\<lparr>unack_tx_addrs := unack_tx_addrs ?d @ us, txb_head := tx_end (u_tx_buf_size ?d) (txb_head ?d) us\<rparr>)"
    "tx_laid (u_tx_buf_size ?d) (txb_head ?d) (of_nat n) us (submitted ps)" "concat (payloads ps) = take n buf"
    "map length (payloads ps) = map (\<lambda>u. unat (snd u)) us" "sizes_ok us"
    by (rule segment_loop_sends [OF assms(5) len', of "of_nat n" ?d])
  have r: "eTran_tcp_tx_reserve_zc (length buf) c = (int n, ?d)" using assms(2,3) by (simp add: eTran_tcp_tx_reserve_zc_def Let_def)
  have "eTran_tcp_tx_submit_zc umem bufs (take n buf) ?d = Some (ps, c\<lparr>unack_tx_addrs := unack_tx_addrs c @ us,
      txb_head := tx_end (u_tx_buf_size c) (txb_head c) us, txb_sent := txb_sent c + of_nat n\<rparr>)"
    unfolding eTran_tcp_tx_submit_zc_def tcp_flow_tx_segmentation_zc_def len g(1) using assms(2) al by (cases c) simp
  then have "conn_send umem bufs buf c = Some (int n, ps, c\<lparr>unack_tx_addrs := unack_tx_addrs c @ us,
      txb_head := tx_end (u_tx_buf_size c) (txb_head c) us, txb_sent := txb_sent c + of_nat n\<rparr>)"
    unfolding conn_send_def r using assms(4) by simp
  moreover have "bytes_in us = n" using bytes_in_payloads [OF g(4)] g(3) len by simp
  ultimately show thesis using that g(2,3,5) by simp
qed

section \<open>Sending again\<close>

lemma unat_tx_end:
  assumes "h < b" "TCP_MSS_W_TS \<le> unat b" "unat b \<le> 2 ^ 30" "sizes_ok us"
  shows "unat (tx_end b h us) = (unat h + bytes_in us) mod unat b"
  using assms(1,4)
proof (induction us arbitrary: h)
  case Nil
  then show ?case by (simp add: word_less_nat_alt)
next
  case (Cons u us)
  obtain a n where u: "u = (a, n)" by fastforce
  have lt: "tx_adv b h n < b" "unat (tx_adv b h n) mod unat b = (unat h + unat n) mod unat b"
    using Cons.prems assms(2,3) u le_mod_geq [of "unat b" "unat h + unat n"] by (auto simp: tx_adv_def seq_nat)
  have "unat (tx_end b h (u # us)) = (unat (tx_adv b h n) mod unat b + bytes_in us) mod unat b"
    using Cons.IH [OF lt(1)] Cons.prems(2) u by (simp add: mod_simps)
  then show ?case unfolding lt(2) using u by (simp add: mod_simps add.assoc)
qed

fun placed_at :: "u32 \<Rightarrow> u32 \<Rightarrow> (u64 \<times> u32) list \<Rightarrow> (u64 \<times> u32 \<times> u32) list" where
  "placed_at b h [] = []"
| "placed_at b h ((a, n) # us) = (a, h, n) # placed_at b (tx_adv b h n) us"

lemma retransmit_all:
  assumes "unat len = bytes_in us" "sizes_ok us" "txb_sent c = 0"
  shows "retransmit_loop len sub skip us c =
    (placed_at (u_tx_buf_size c) (txb_head c) us, 0, c\<lparr>txb_head := tx_end (u_tx_buf_size c) (txb_head c) us\<rparr>)"
  using assms
proof (induction us arbitrary: len sub skip c)
  case Nil
  then show ?case by (simp add: retransmit_loop_end unat_eq_0)
next
  case (Cons u us)
  obtain a n where u: "u = (a, n)" by fastforce
  have nz: "len \<noteq> 0" using Cons.prems(1,2) by auto
  have l: "unat (if len > n then len - n else 0) = bytes_in us" using Cons.prems(1) u by (auto simp: seq_nat)
  have adv: "advance_head n c = c\<lparr>txb_head := tx_adv (u_tx_buf_size c) (txb_head c) n\<rparr>" by (simp add: advance_head_def tx_adv_def Let_def)
  show ?case using Cons.IH [OF l, of "c\<lparr>txb_head := tx_adv (u_tx_buf_size c) (txb_head c) n\<rparr>" True "skip + n"] Cons.prems(2,3) nz u
    by (simp add: retransmit_loop_submit adv)
qed

lemma placed_at_laid:
  "tx_laid b h 0 us (map (\<lambda>(a, pos, n). (a, tx_meta 0 pos n)) (placed_at b h us))"
  by (induction b h us rule: placed_at.induct) simp_all

lemma rewind_and_resend:
  assumes "tx_wf c" "u_status c = CONN_OPEN" "pending_free_bytes c = 0" "txb_sent c \<noteq> 0" "txb_sent c < u_tx_buf_size c"
    and "pos < u_tx_buf_size c" "(unat pos + unat (txb_sent c)) mod unat (u_tx_buf_size c) = unat (txb_head c)"
  obtains ms c1 where "user_go_back i (pos OR RECOVERY_MASK) t c = (t\<lparr>retransmission_conns := retransmission_conns t @ [(i, txb_sent c)]\<rparr>, c1)"
    "eTran_tcp_tx_submit_zc_retransmission (txb_sent c) c1 = (ms, c)" "tx_laid (u_tx_buf_size c) pos (txb_sent c) (unack_tx_addrs c) ms"
    "unack_tx_addrs c1 = unack_tx_addrs c"
proof -
  let ?b = "u_tx_buf_size c" and ?n = "txb_sent c" and ?us = "unack_tx_addrs c"
  have wf: "TCP_MSS_W_TS \<le> unat ?b" "unat ?b \<le> 2 ^ 30" "txb_head c < ?b" "bytes_in ?us = unat ?n" "sizes_ok ?us"
    "unat ?n + unat (txb_allocated c) \<le> unat ?b" using assms(1,3) by (simp_all add: tx_wf_def)
  have lt: "unat pos < unat ?b" "unat ?n < unat ?b" "0 < unat ?n" "unat (txb_head c) < unat ?b"
    using assms(4,5,6) wf(3) by (simp_all add: word_less_nat_alt unat_gt_0)
  have m: "(pos OR RECOVERY_MASK) AND NOT RECOVERY_MASK = pos"
    by (rule mask_decode(2) [OF high_bit_clear]) (use lt(1) wf(2) in \<open>simp_all add: word_less_nat_alt\<close>)
  have two: "unat pos + unat ?n = unat (txb_head c) \<or> unat pos + unat ?n = unat (txb_head c) + unat ?b"
  proof (cases "unat pos + unat ?n < unat ?b")
    case False
    then have "(unat pos + unat ?n) mod unat ?b = unat pos + unat ?n - unat ?b" using lt le_mod_geq [of "unat ?b" "unat pos + unat ?n"] by simp
    then show ?thesis using assms(7) False by simp
  qed (use assms(7) in simp)
  then have ne: "pos \<noteq> txb_head c" using lt by auto
  have behind: "(if txb_head c > pos then txb_head c - pos else ?b - (pos - txb_head c)) = ?n"
    using two lt by (auto simp: word_unat_eq_iff seq_nat)
  define c1 where "c1 = c\<lparr>txb_head := pos, txb_allocated := txb_allocated c + ?n, txb_sent := 0\<rparr>"
  have g: "user_go_back i (pos OR RECOVERY_MASK) t c = (t\<lparr>retransmission_conns := retransmission_conns t @ [(i, ?n)]\<rparr>, c1)"
    unfolding user_go_back_def m Let_def behind using ne by (simp add: c1_def)
  have c1: "u_tx_buf_size c1 = ?b" "txb_head c1 = pos" "txb_sent c1 = 0" "unack_tx_addrs c1 = ?us" "u_status c1 = CONN_OPEN" using assms(2) by (simp_all add: c1_def)
  have e: "tx_end ?b pos ?us = txb_head c" using unat_tx_end [OF assms(6) wf(1,2,5)] wf(4) assms(7) by (simp add: word_unat_eq_iff)
  have loop: "retransmit_loop ?n False 0 ?us c1 = (placed_at ?b pos ?us, 0, c1\<lparr>txb_head := txb_head c\<rparr>)"
    using retransmit_all [of ?n ?us c1 False 0] wf(4,5) c1 e by simp
  obtain a n vs where us: "?us = (a, n) # vs" using wf(4) lt(3) by (cases ?us) auto
  have "eTran_tcp_tx_submit_zc_retransmission ?n c1 =
      ((a, tx_meta ?n pos n) # map (\<lambda>(a, pos, n). (a, tx_meta 0 pos n)) (placed_at ?b (tx_adv ?b pos n) vs), c)"
    unfolding eTran_tcp_tx_submit_zc_retransmission_def c1(4,5) loop unfolding us by (cases c) (simp add: c1_def)
  moreover have "tx_laid ?b pos ?n ?us ((a, tx_meta ?n pos n) # map (\<lambda>(a, pos, n). (a, tx_meta 0 pos n)) (placed_at ?b (tx_adv ?b pos n) vs))"
    unfolding us using placed_at_laid by simp
  ultimately show thesis using that [OF g] c1(4) by simp
qed

section \<open>Giving buffers back\<close>

lemma free_acked_unfold: "free_acked n ((a, m) # us) = (if n = 0 then Some ((a, m) # us, []) else map_option (\<lambda>(us, fr). (us, a # fr)) (free_acked (n - m) us))"
  "free_acked n [] = (if n = 0 then Some ([], []) else None)"
  by (simp_all add: free_acked.simps)

lemma free_acked_prefix:
  assumes "bytes_in (take k us) = unat n" "sizes_ok us" "k \<le> length us"
  shows "free_acked n us = Some (drop k us, map fst (take k us))"
  using assms
proof (induction us arbitrary: n k)
  case Nil
  then show ?case by (simp add: free_acked_unfold unat_eq_0)
next
  case (Cons u us)
  obtain a m where u: "u = (a, m)" by fastforce
  show ?case
  proof (cases k)
    case 0
    then have "n = 0" using Cons.prems(1) by (simp add: unat_eq_0)
    then show ?thesis using 0 u by (simp add: free_acked_unfold)
  next
    case (Suc k')
    have e: "unat m + bytes_in (take k' us) = unat n" "0 < unat m" using Cons.prems u Suc by simp_all
    then have "n \<noteq> 0" "bytes_in (take k' us) = unat (n - m)" by (auto simp: unat_sub_if')
    then show ?thesis using Cons.IH [of k' "n - m"] Cons.prems u Suc by (simp add: free_acked_unfold)
  qed
qed

lemma free_acked_no_prefix:
  assumes "free_acked n us = Some (vs, fr)" "bytes_in us < 2 ^ 32"
  shows "\<exists>k \<le> length us. bytes_in (take k us) = unat n"
  using assms
proof (induction us arbitrary: n vs fr)
  case Nil
  then show ?case by (auto simp: free_acked_unfold split: if_splits)
next
  case (Cons u us)
  obtain a m where u: "u = (a, m)" by fastforce
  show ?case
  proof (cases "n = 0")
    case True
    then show ?thesis by (intro exI [of _ 0]) simp
  next
    case False
    then obtain fr' where "free_acked (n - m) us = Some (vs, fr')" using Cons.prems(1) u by (auto simp: free_acked_unfold)
    from Cons.IH [OF this] Cons.prems(2) obtain k where k: "k \<le> length us" "bytes_in (take k us) = unat (n - m)" by auto
    have "bytes_in (take k us) \<le> bytes_in us" using bytes_in_append [of "take k us" "drop k us"] by simp
    then have "unat m + bytes_in (take k us) = unat n" using k(2) Cons.prems(2) u by (auto simp: unat_sub_if' split: if_splits)
    then show ?thesis using k(1) u by (intro exI [of _ "Suc k"]) simp
  qed
qed

section \<open>Properties\<close>

text \<open>C17: a write on an open connection takes as many bytes as the transmit buffer and the budget
  allow, and hands exactly these to the egress program: the payloads of the packets, in order, are
  the first bytes of the data; each packet has its length and its position behind the previous one
  in the ring; the first announces the whole write; the packets are kept until acknowledged.\<close>

theorem write_is_segmented:
  assumes "tx_wf c" "u_status c = CONN_OPEN" "n = min (length buf) (unat (txb_bytes_avail c))" "0 < n"
    and "buffers_ok umem bufs" "n \<le> TCP_MSS_W_TS * length bufs"
  shows "\<exists>ps us. conn_send umem bufs buf c = Some (int n, ps, c\<lparr>unack_tx_addrs := unack_tx_addrs c @ us,
      txb_head := tx_end (u_tx_buf_size c) (txb_head c) us, txb_sent := txb_sent c + of_nat n\<rparr>)
    \<and> concat (payloads ps) = take n buf \<and> sizes_ok us \<and> bytes_in us = n
    \<and> tx_laid (u_tx_buf_size c) (txb_head c) (of_nat n) us (submitted ps)"
proof -
  obtain ps us where "conn_send umem bufs buf c = Some (int n, ps, c\<lparr>unack_tx_addrs := unack_tx_addrs c @ us,
      txb_head := tx_end (u_tx_buf_size c) (txb_head c) us, txb_sent := txb_sent c + of_nat n\<rparr>)"
    "tx_laid (u_tx_buf_size c) (txb_head c) (of_nat n) us (submitted ps)" "concat (payloads ps) = take n buf" "sizes_ok us" "bytes_in us = n"
    by (rule write_submits [OF assms])
  then show ?thesis by blast
qed

definition demo_tx :: eTrantcp_connection where
  "demo_tx = demo_uconn\<lparr>xsk_budget := 4000\<rparr>"

theorem write_is_segmented_witness:
  "\<exists>ps us. conn_send (\<lambda>_. replicate 2048 0) [64, 128] (replicate 2000 7) demo_tx = Some (2000, ps, demo_tx\<lparr>unack_tx_addrs := us,
      txb_head := tx_end 524288 0 us, txb_sent := 2000\<rparr>) \<and> concat (payloads ps) = replicate 2000 7"
proof -
  have n: "2000 = min (length (replicate 2000 7 :: bytes)) (unat (txb_bytes_avail demo_tx))"
    by (simp add: demo_tx_def demo_uconn_def txb_bytes_avail_def xsk_bytes_avail_def c_min_def)
  have "tx_wf demo_tx" "u_status demo_tx = CONN_OPEN" "buffers_ok (\<lambda>_. replicate 2048 0) [64, 128]"
    by (simp_all add: tx_wf_def demo_tx_def demo_uconn_def buffers_ok_def)
  from write_is_segmented [OF this(1,2) n _ this(3)] show ?thesis by (auto simp: demo_tx_def demo_uconn_def)
qed



text \<open>C35: the buffers of acknowledged packets can be given back exactly when the acknowledged bytes
  end at a packet boundary: then the packets up to there are freed and the others kept; otherwise the
  loop runs past the end of the list of packets.\<close>

theorem acked_buffers_freed_at_boundary:
  assumes "tx_wf c" "n = pending_free_bytes c"
  shows "(free_acked n (unack_tx_addrs c) \<noteq> None \<longleftrightarrow> (\<exists>k \<le> length (unack_tx_addrs c). bytes_in (take k (unack_tx_addrs c)) = unat n))
    \<and> (\<forall>k \<le> length (unack_tx_addrs c). bytes_in (take k (unack_tx_addrs c)) = unat n \<longrightarrow>
        free_acked n (unack_tx_addrs c) = Some (drop k (unack_tx_addrs c), map fst (take k (unack_tx_addrs c))))"
proof -
  let ?us = "unack_tx_addrs c"
  have "sizes_ok ?us" "bytes_in ?us < 2 ^ 32" using assms(1) by (simp_all add: tx_wf_def)
  then show ?thesis using free_acked_prefix [of _ ?us n] free_acked_no_prefix [of n ?us] by auto
qed

theorem acked_buffers_freed_at_boundary_witness:
  "free_acked 100 [(64, 100), (128, 200)] = Some ([(128, 200)], [64]) \<and> free_acked 150 [(64, 100), (128, 200)] = None"
proof -
  let ?c = "\<lambda>n. demo_tx\<lparr>txb_sent := 300 - n, pending_free_bytes := n, unack_tx_addrs := [(64, 100), (128, 200)]\<rparr>"
  have w: "tx_wf (?c 100)" "tx_wf (?c 150)" by (simp_all add: tx_wf_def demo_tx_def demo_uconn_def)
  have "free_acked 100 [(64, 100), (128, 200)] = Some ([(128, 200)], [64])"
    using conjunct2 [OF acked_buffers_freed_at_boundary [OF w(1) refl], rule_format, of 1] by simp
  moreover have "bytes_in (take k [(64, 100), (128, 200)]) \<noteq> 150" if "k \<le> Suc (Suc 0)" for k
  proof -
    consider "k = 0" | "k = 1" | "k = 2" using \<open>k \<le> Suc (Suc 0)\<close> by linarith
    then show ?thesis by cases simp_all
  qed
  then have "free_acked 150 [(64, 100), (128, 200)] = None"
    using conjunct1 [OF acked_buffers_freed_at_boundary [OF w(2) refl]] by auto
  ultimately show ?thesis by blast
qed

text \<open>
  The runs of one connection's sending side: writes between polls, acknowledgements of bytes in
  flight, go-backs with their resubmission, and the release of acknowledged packets.
\<close>

definition ack_only :: "upkt \<Rightarrow> eTrantcp_connection \<Rightarrow> bool" where
  "ack_only p c \<longleftrightarrow> (rx_go_back_pos (meta_rx (up_meta p)) = POISON_32 \<or> rx_go_back_pos (meta_rx (up_meta p)) AND RECOVERY_MASK = 0)
     \<and> (rx_ack_bytes (meta_rx (up_meta p)) = POISON_32 \<or> rx_ack_bytes (meta_rx (up_meta p)) \<le> txb_sent c)"

inductive tx_run :: "eTrantcp_connection \<Rightarrow> bool" where
  start: "\<lbrakk>TCP_MSS_W_TS \<le> unat (u_tx_buf_size c); unat (u_tx_buf_size c) \<le> 2 ^ 30; unack_tx_addrs c = []; pending_free_bytes c = 0\<rbrakk>
    \<Longrightarrow> tx_run (connection_prepare_buffer c)"
| send: "\<lbrakk>tx_run c; pending_free_bytes c = 0; buffers_ok umem bufs; length buf \<le> TCP_MSS_W_TS * length bufs;
      conn_send umem bufs buf c = Some (ret, ps, c')\<rbrakk> \<Longrightarrow> tx_run c'"
| ack: "\<lbrakk>tx_run c; ack_only p c; sync_state i p t c = (ev, t', c')\<rbrakk> \<Longrightarrow> tx_run c'"
| rewind: "\<lbrakk>tx_run c; u_status c = CONN_OPEN; pending_free_bytes c = 0; txb_sent c \<noteq> 0; txb_sent c < u_tx_buf_size c; pos < u_tx_buf_size c;
      (unat pos + unat (txb_sent c)) mod unat (u_tx_buf_size c) = unat (txb_head c);
      user_go_back i (pos OR RECOVERY_MASK) t c = (t', c1); eTran_tcp_tx_submit_zc_retransmission (txb_sent c) c1 = (ms, c')\<rbrakk> \<Longrightarrow> tx_run c'"
| free: "\<lbrakk>tx_run c; free_acked (pending_free_bytes c) (unack_tx_addrs c) = Some (us, fr)\<rbrakk>
    \<Longrightarrow> tx_run (c\<lparr>unack_tx_addrs := us, pending_free_bytes := 0\<rparr>)"

lemma send_keeps_wf:
  assumes "tx_wf c" "pending_free_bytes c = 0" "buffers_ok umem bufs" "length buf \<le> TCP_MSS_W_TS * length bufs"
    and "conn_send umem bufs buf c = Some (ret, ps, c')"
  shows "tx_wf c'"
proof (cases "u_status c = CONN_OPEN \<and> 0 < min (length buf) (unat (txb_bytes_avail c))")
  case True
  let ?n = "min (length buf) (unat (txb_bytes_avail c))"
  have h: "u_status c = CONN_OPEN" "0 < ?n" "?n \<le> TCP_MSS_W_TS * length bufs" using True assms(4) by auto
  obtain qs us where s: "conn_send umem bufs buf c = Some (int ?n, qs, c\<lparr>unack_tx_addrs := unack_tx_addrs c @ us,
      txb_head := tx_end (u_tx_buf_size c) (txb_head c) us, txb_sent := txb_sent c + of_nat ?n\<rparr>)" "sizes_ok us" "bytes_in us = ?n"
    by (rule write_submits [OF assms(1) h(1) refl h(2) assms(3) h(3)])
  have c': "c' = c\<lparr>unack_tx_addrs := unack_tx_addrs c @ us, txb_head := tx_end (u_tx_buf_size c) (txb_head c) us, txb_sent := txb_sent c + of_nat ?n\<rparr>"
    using s(1) assms(5) by simp
  define n where "n = ?n"
  have b: "n + unat (txb_sent c) + unat (txb_allocated c) \<le> unat (u_tx_buf_size c)" "unat (u_tx_buf_size c) \<le> 2 ^ 30"
    using avail_bound [OF assms(1)] assms(1) by (auto simp: n_def tx_wf_def)
  have u: "unat (txb_sent c + of_nat n) = unat (txb_sent c) + n" using b by (simp add: unat_plus_if' unat_of_nat)
  have "tx_end (u_tx_buf_size c) (txb_head c) us < u_tx_buf_size c" using tx_end_bound s(2) assms(1) by (simp add: tx_wf_def)
  then show ?thesis unfolding c' n_def [symmetric] using assms(1,2) s(2,3) u b n_def by (simp add: tx_wf_def)
next
  case False
  then have "c' = c" using assms(5) by (cases c) (auto simp: conn_send_def eTran_tcp_tx_reserve_zc_def Let_def split: if_splits)
  then show ?thesis using assms(1) by simp
qed

lemma ack_keeps_wf:
  assumes "tx_wf c" "ack_only p c" "sync_state i p t c = (ev, t', c')"
  shows "tx_wf c'"
proof -
  let ?a = "rx_ack_bytes (meta_rx (up_meta p))" and ?b = "rx_xsk_budget_avail (meta_rx (up_meta p))"
  define d where "d = (if ?b \<noteq> POISON_32 then c\<lparr>xsk_budget := ?b\<rparr> else c)"
  have d: "tx_wf d" "txb_sent d = txb_sent c" "pending_free_bytes d = pending_free_bytes c" using assms(1) by (simp_all add: d_def tx_wf_def)
  have c': "c' = (if ?a \<noteq> POISON_32 \<and> ?a \<noteq> 0 then d\<lparr>txb_sent := txb_sent d - ?a, pending_free_bytes := pending_free_bytes d + ?a\<rparr> else d)"
    using assms(2,3) by (auto simp: sync_state_def Let_def ack_only_def d_def)
  show ?thesis
  proof (cases "?a \<noteq> POISON_32 \<and> ?a \<noteq> 0")
    case True
    then have a: "unat ?a \<le> unat (txb_sent d)" using assms(2) d(2) by (auto simp: ack_only_def word_le_nat_alt)
    have s: "unat (txb_sent d - ?a) = unat (txb_sent d) - unat ?a" using a by (simp add: unat_sub word_le_nat_alt)
    have p: "unat (pending_free_bytes d + ?a) = unat (pending_free_bytes d) + unat ?a" using a d(1) by (auto simp: tx_wf_def unat_plus_if')
    show ?thesis unfolding c' using True a s p d(1) by (auto simp: tx_wf_def)
  next
    case False
    then have "c' = d" unfolding c' by (rule if_not_P)
    then show ?thesis using d(1) by simp
  qed
qed

lemma free_keeps_wf:
  assumes "tx_wf c" "free_acked (pending_free_bytes c) (unack_tx_addrs c) = Some (us, fr)"
  shows "tx_wf (c\<lparr>unack_tx_addrs := us, pending_free_bytes := 0\<rparr>)"
proof -
  let ?us = "unack_tx_addrs c"
  have w: "sizes_ok ?us" "bytes_in ?us < 2 ^ 32" "bytes_in ?us = unat (txb_sent c) + unat (pending_free_bytes c)" using assms(1) by (simp_all add: tx_wf_def)
  obtain k where k: "k \<le> length ?us" "bytes_in (take k ?us) = unat (pending_free_bytes c)" using free_acked_no_prefix [OF assms(2) w(2)] by blast
  have us: "us = drop k ?us" using free_acked_prefix [OF k(2) w(1) k(1)] assms(2) by simp
  have "bytes_in us = unat (txb_sent c)" using bytes_in_append [of "take k ?us" "drop k ?us"] k(2) w(3) us by simp
  moreover have "sizes_ok us" using sizes_ok_simps(3) [of "take k ?us" "drop k ?us"] w(1) us by simp
  ultimately show ?thesis using assms(1) by (simp add: tx_wf_def)
qed



end
