(* ===== verification/User_Api.thy ===== *)
theory User_Api
  imports User_Tx Handshake
begin

text \<open>
  The calls of the application's side of the control plane (\<open>lib/eTran_posix.cc\<close>,
  \<open>lib/include/eTran_posix.h\<close>): requests to the micro kernel and what its answers do to the
  user-level connection.  Messages are those of \<open>Ctl_Kernel\<close> and \<open>Ctl_Conn\<close>.  A null pointer
  is 0; \<open>sent\<close> says whether the channel took the request.
\<close>

section \<open>Requests\<close>

definition notify_kernel :: "bool \<Rightarrow> tcp_cmd \<Rightarrow> int \<times> tcp_cmd option" where
  "notify_kernel sent cmd = (if sent then (0, Some cmd) else (-1, None))"

definition eTran_tcp_bind ::
  "bool \<Rightarrow> u64 \<Rightarrow> u32 \<Rightarrow> u32 \<Rightarrow> u32 \<Rightarrow> bool \<Rightarrow> uconns \<Rightarrow> (int \<times> tcp_cmd option) \<times> uconns" where
  "eTran_tcp_bind sent i fd lip lport reuseport cs =
    (if i = 0 then ((-22, None), cs)
     else (notify_kernel sent (APPOUT_TCP_BIND i fd reuseport (ucast lport)),
           cs(i := (cs i)\<lparr>u_status := CONN_BIND_REQUESTED, u_local_ip := lip, u_local_port := ucast lport\<rparr>)))"

definition eTran_tcp_open :: "bool \<Rightarrow> u64 \<Rightarrow> u32 \<Rightarrow> u32 \<Rightarrow> u16 \<Rightarrow> uconns \<Rightarrow> (int \<times> tcp_cmd option) \<times> uconns" where
  "eTran_tcp_open sent i fd rip rport cs =
    (if i = 0 then ((-22, None), cs)
     else (notify_kernel sent (APPOUT_TCP_OPEN i fd rip rport),
           cs(i := (cs i)\<lparr>u_status := CONN_OPEN_REQUESTED, u_remote_ip := rip, u_remote_port := rport\<rparr>)))"

text \<open>Listeners are referred to by their pointers as well; a listener has a port.\<close>

definition eTran_tcp_listen ::
  "bool \<Rightarrow> u64 \<Rightarrow> u64 \<Rightarrow> u32 \<Rightarrow> u16 \<Rightarrow> u32 \<Rightarrow> (u64 \<Rightarrow> u16) \<Rightarrow> (int \<times> tcp_cmd option) \<times> (u64 \<Rightarrow> u16)" where
  "eTran_tcp_listen sent i l fd port backlog ports =
    (if l = 0 then ((-22, None), ports)
     else (notify_kernel sent (APPOUT_TCP_LISTEN i l fd backlog), ports(l := port)))"

definition eTran_tcp_accept ::
  "bool \<Rightarrow> u64 \<Rightarrow> u64 \<Rightarrow> u32 \<Rightarrow> u32 \<Rightarrow> (u64 \<Rightarrow> u16) \<Rightarrow> uconns \<Rightarrow> (int \<times> tcp_cmd option) \<times> uconns" where
  "eTran_tcp_accept sent l i fd newfd ports cs =
    (if l = 0 \<or> i = 0 then ((-22, None), cs)
     else (notify_kernel sent (APPOUT_TCP_ACCEPT l i fd newfd (ports l)),
           cs(i := (cs i)\<lparr>u_status := CONN_ACCEPT_REQUESTED, u_local_port := ports l\<rparr>)))"

definition eTran_tcp_close :: "bool \<Rightarrow> u64 \<Rightarrow> u32 \<Rightarrow> uconns \<Rightarrow> (int \<times> tcp_cmd option) \<times> uconns" where
  "eTran_tcp_close sent i fd cs =
    (if i = 0 then ((-22, None), cs)
     else (notify_kernel sent (APPOUT_TCP_CLOSE i fd), cs(i := (cs i)\<lparr>u_status := CONN_CLOSE_REQUESTED\<rparr>)))"

section \<open>Answers\<close>

definition uflow_of :: "eTrantcp_connection \<Rightarrow> uflow" where
  "uflow_of c = (u_remote_ip c, u_remote_port c, u_local_ip c, u_local_port c)"

text \<open>\<open>std::unordered_map::insert\<close> keeps an entry that is there.\<close>

definition insert_open :: "uflow \<Rightarrow> u64 \<Rightarrow> utctx \<Rightarrow> utctx" where
  "insert_open f i t = (if open_conns t f = None then t\<lparr>open_conns := (open_conns t)(f \<mapsto> i)\<rparr> else t)"

fun kernel_event :: "app_msg \<Rightarrow> utctx \<Rightarrow> uconns \<Rightarrow> etran_event list \<times> utctx \<times> uconns" where
  "kernel_event (TCP_EVENT_NEWCONN l fd rip rport) t cs = ([ETRANTCP_EV_LISTEN_NEWCONN l fd rip rport], t, cs)"
| "kernel_event (TCP_CONN_ACCEPT i fd newfd status backlog rxb txb lip rip rport q) t cs =
    (if status = 0
     then let c = connection_prepare_buffer ((cs i)\<lparr>u_local_ip := lip, u_remote_ip := rip, u_remote_port := rport, u_qid := q,
                    u_rx_buf_size := rxb, u_tx_buf_size := txb, u_status := uconn_status.CONN_OPEN\<rparr>)
          in ([ETRANTCP_EV_LISTEN_ACCEPT i fd newfd status backlog], insert_open (uflow_of c) i t, cs(i := c))
     else ([ETRANTCP_EV_LISTEN_ACCEPT i fd newfd status backlog], t, cs(i := (cs i)\<lparr>try_accept_done := True\<rparr>)))"
| "kernel_event (TCP_CONN_OPEN i fd status lip lport rxb txb q) t cs =
    (if status = 0 then ([ETRANTCP_EV_CONN_OPEN i fd status], t, cs(i := (cs i)\<lparr>u_local_ip := lip\<rparr>))
     else if status = 1
     then let c = connection_prepare_buffer ((cs i)\<lparr>u_qid := q, u_local_port := lport, u_rx_buf_size := rxb, u_tx_buf_size := txb,
                    u_status := uconn_status.CONN_OPEN\<rparr>)
          in ([ETRANTCP_EV_CONN_OPEN i fd status, ETRANTCP_EV_CONN_SENDBUF i], insert_open (uflow_of c) i t, cs(i := c))
     else ([ETRANTCP_EV_CONN_OPEN i fd status], t, cs))"
| "kernel_event (TCP_STATUS_LISTEN l fd status) t cs = ([ETRANTCP_EV_LISTEN_OPEN l fd status], t, cs)"
| "kernel_event (TCP_STATUS_BIND i fd status) t cs = ([ETRANTCP_EV_CONN_BIND i fd status], t, cs)"
| "kernel_event (TCP_STATUS_CLOSE i fd status) t cs = ([ETRANTCP_EV_CONN_CLOSE i fd status], t, cs)"

text \<open>
  One call takes messages until the channel is empty or \<open>max_events\<close> events are written;
  the messages left are returned.
\<close>

fun process_tcp_kernel_events ::
  "int \<Rightarrow> etran_event list \<Rightarrow> app_msg list \<Rightarrow> utctx \<Rightarrow> uconns \<Rightarrow> etran_event list \<times> app_msg list \<times> utctx \<times> uconns" where
  "process_tcp_kernel_events max_events evs [] t cs = (evs, [], t, cs)"
| "process_tcp_kernel_events max_events evs (m # ms) t cs =
    (let (es, t, cs) = kernel_event m t cs; evs = evs @ es
     in if int (length evs) \<ge> max_events then (evs, ms, t, cs)
        else process_tcp_kernel_events max_events evs ms t cs)"

lemma process_takes_one: "length (fst (snd (process_tcp_kernel_events max_events evs ms t cs))) \<le> length ms - 1"
proof (induction ms arbitrary: evs t cs)
  case (Cons m ms)
  have "length (fst (snd (process_tcp_kernel_events max_events e ms u c))) \<le> length ms" for e u c
    using Cons.IH [of e u c] by linarith
  then show ?case by (simp add: Let_def case_prod_beta)
qed simp

text \<open>The poll calls it until the channel is empty.\<close>

function kernel_poll ::
  "int \<Rightarrow> etran_event list \<Rightarrow> app_msg list \<Rightarrow> utctx \<Rightarrow> uconns \<Rightarrow> etran_event list \<times> utctx \<times> uconns" where
  "kernel_poll maxevents evs ms t cs =
    (if ms = [] then (evs, t, cs)
     else let r = process_tcp_kernel_events (maxevents - int (length evs)) [] ms t cs
          in kernel_poll maxevents (evs @ fst r) (fst (snd r)) (fst (snd (snd r))) (snd (snd (snd r))))"
  by pat_completeness auto
termination
  by (relation "measure (\<lambda>(maxevents, evs, ms, t, cs). length ms)") (auto simp: case_prod_beta intro: le_less_trans [OF process_takes_one])

declare kernel_poll.simps [simp del]

text \<open>
  The poll of a thread, for a call without a timeout: the packets \<open>pkts\<close> are what the receive rings
  hold, \<open>msgs\<close> what the channel holds.  With a timeout the rings are waited for with \<open>epoll\<close>, which
  is not modelled.
\<close>

definition eTran_tcp_poll_events ::
  "(u64 \<Rightarrow> bytes) \<Rightarrow> bool list \<Rightarrow> u64 list \<Rightarrow> upkt list \<Rightarrow> app_msg list \<Rightarrow> int \<Rightarrow> utctx \<Rightarrow> uconns
   \<Rightarrow> (etran_event list \<times> upkt list \<times> (u64 \<times> meta_info) list \<times> utctx \<times> uconns) option" where
  "eTran_tcp_poll_events umem rsv bufs pkts msgs maxevents t cs =
    (case tcp_ebpf_sync umem rsv bufs t cs of
       None \<Rightarrow> None
     | Some (syncs, t, cs) \<Rightarrow>
         let r = tcp_nic_poll pkts t cs;
             (evs, t, cs) = kernel_poll maxevents (rr_events r) msgs (rr_t r) (rr_conns r)
         in case tcp_free_buffers t cs of
              None \<Rightarrow> None
            | Some (t, cs) \<Rightarrow>
                let (retx, t, cs) = tcp_retransmission t cs in Some (evs, syncs, retx, t, cs))"

section \<open>Every message is handled\<close>

primrec kernel_events :: "app_msg list \<Rightarrow> utctx \<Rightarrow> uconns \<Rightarrow> etran_event list \<times> utctx \<times> uconns" where
  "kernel_events [] t cs = ([], t, cs)"
| "kernel_events (m # ms) t cs =
    (let (es, t, cs) = kernel_event m t cs; (es', t, cs) = kernel_events ms t cs in (es @ es', t, cs))"

lemma kernel_events_append:
  "kernel_events (ms @ ns) t cs = (let (es, t, cs) = kernel_events ms t cs; (es', t, cs) = kernel_events ns t cs in (es @ es', t, cs))"
  by (induction ms arbitrary: t cs) (simp_all add: Let_def case_prod_beta)

lemma process_prefix:
  "\<exists>pre rest. ms = pre @ rest \<and> process_tcp_kernel_events max_events evs ms t cs =
    (evs @ fst (kernel_events pre t cs), rest, fst (snd (kernel_events pre t cs)), snd (snd (kernel_events pre t cs)))"
proof (induction ms arbitrary: evs t cs)
  case (Cons m ms)
  obtain es t1 cs1 where e: "kernel_event m t cs = (es, t1, cs1)" by (metis prod_cases3)
  show ?case
  proof (cases "int (length (evs @ es)) \<ge> max_events")
    case True
    then show ?thesis using e by (intro exI [of _ "[m]"] exI [of _ ms]) simp
  next
    case False
    from Cons.IH [of "evs @ es" t1 cs1] obtain pre rest where p: "ms = pre @ rest" "process_tcp_kernel_events max_events (evs @ es) ms t1 cs1 =
      ((evs @ es) @ fst (kernel_events pre t1 cs1), rest, fst (snd (kernel_events pre t1 cs1)), snd (snd (kernel_events pre t1 cs1)))" by blast
    have "process_tcp_kernel_events max_events evs (m # ms) t cs = process_tcp_kernel_events max_events (evs @ es) ms t1 cs1"
      using e False by simp
    then show ?thesis using p e by (intro exI [of _ "m # pre"] exI [of _ rest]) (simp add: Let_def case_prod_beta)
  qed
qed simp

lemma kernel_poll_all:
  "kernel_poll maxevents evs ms t cs =
    (evs @ fst (kernel_events ms t cs), fst (snd (kernel_events ms t cs)), snd (snd (kernel_events ms t cs)))"
proof (induction maxevents evs ms t cs rule: kernel_poll.induct)
  case (1 maxevents evs ms t cs)
  show ?case
  proof (cases "ms = []")
    case True
    then show ?thesis by (simp add: kernel_poll.simps)
  next
    case False
    obtain pre rest where p: "ms = pre @ rest" "process_tcp_kernel_events (maxevents - int (length evs)) [] ms t cs =
      ([] @ fst (kernel_events pre t cs), rest, fst (snd (kernel_events pre t cs)), snd (snd (kernel_events pre t cs)))"
      using process_prefix [of ms "maxevents - int (length evs)" "[]" t cs] by blast
    have "kernel_poll maxevents evs ms t cs = kernel_poll maxevents (evs @ fst (kernel_events pre t cs)) rest
        (fst (snd (kernel_events pre t cs))) (snd (snd (kernel_events pre t cs)))"
      using False p(2) by (subst kernel_poll.simps) (simp add: Let_def)
    then show ?thesis using "1.IH" [OF False refl] unfolding p(2) unfolding p(1) by (simp add: kernel_events_append Let_def case_prod_beta)
  qed
qed

section \<open>Opening a connection\<close>

definition flow_agrees :: "eTrantcp_connection \<Rightarrow> tcp_connection \<Rightarrow> bool" where
  "flow_agrees u c \<longleftrightarrow> u_remote_ip u = tc_remote_ip c \<and> u_remote_port u = tc_remote_port c \<and> u_local_ip u = tc_local_ip c
     \<and> u_local_port u = tc_local_port c"

lemma reg_ebpf_frame:
  assumes "reg_tcp_conn_ebpf env j c listen k = Inr (True, k')"
  shows "k_msgs k' = k_msgs k" "\<exists>idx r. k_conns k' j = Some (start_cc idx r c)"
  using assms by (auto simp: reg_tcp_conn_ebpf_def alloc_cc_idx_def put_kconn_def Let_def split: option.splits list.splits if_splits) blast

lemma send_control_msgs: "k_msgs (send_tcp_control env c flags o' e m k) = k_msgs k"
  by (simp add: send_tcp_control_def slow_path_send_tcp_def Let_def)

abbreviation opened_msg :: "tcp_connection \<Rightarrow> app_msg" where
  "opened_msg c \<equiv> TCP_CONN_OPEN (tc_opaque c) (tc_fd c) 1 (tc_local_ip c) (tc_local_port c) (tc_rx_buf_size c) (tc_tx_buf_size c) (tc_qid c)"

lemma synack_answer:
  assumes "tcp_synack_pkt env j p opts k = Inr (True, k')" "k_conns k j = Some c" "ke_chan_ok env (tc_tctx c)"
  shows "k_msgs k' = k_msgs k @ [(tc_tctx c, opened_msg c)]"
proof -
  have g: "get_conn j k = Inr c" using assms(2) by (simp add: get_conn_def)
  have fl: "tcph_flags p AND (TCP_SYN OR TCP_ACK) = TCP_SYN OR TCP_ACK"
    using assms(1,2) by (auto simp: tcp_synack_pkt_def get_conn_def Let_def split: if_splits)
  obtain ts where ts: "op_ts opts = Some ts"
    using assms(1,2) fl by (cases "op_ts opts") (auto simp: tcp_synack_pkt_def get_conn_def Let_def put_kconn_def)
  define c1 where "c1 = c\<lparr>tc_next_timeout_tsc := 0, tc_local_mac := take 6 p, tc_remote_mac := take 6 (drop 6 p),
     tc_remote_seq := bpf_ntohl (ld32 38 p) + 1, tc_local_seq := bpf_ntohl (ld32 42 p), tc_syn_ts := opt_ts_val p ts,
     tc_flags := (if tcph_flags p AND (TCP_ECE OR TCP_CWR) = TCP_ECE then tc_flags c OR ECN_ENABLE else tc_flags c)\<rparr>"
  have e: "tcp_synack_pkt env j p opts k = andthen (reg_tcp_conn_ebpf env j c1 False (put_kconn j c1 k)) (\<lambda>(ok, k).
      if \<not> ok then andthen (get_conn j k) (\<lambda>c. Inr (False, put_kconn j (c\<lparr>tc_local_mac := replicate 6 0, tc_remote_mac := replicate 6 0,
        tc_remote_seq := 0, tc_local_seq := 0, tc_syn_ts := 0, tc_flags := 0,
        tc_next_timeout_tsc := ke_cycles env + ke_us_to_cycles env HANDSHAKE_US\<rparr>) k))
      else andthen (get_conn j k) (\<lambda>c. let c = c\<lparr>tc_status := connection_status.CONN_OPEN\<rparr>; k = put_kconn j c k;
        k = notify_app_tcp_conn_open env (tc_tctx c) (tc_opaque c) (tc_fd c) 1 c k
        in Inr (True, send_tcp_control env c TCP_ACK True (tc_syn_ts c) 0 k)))"
    using fl ts g by (simp add: tcp_synack_pkt_def Let_def c1_def)
  obtain k3 where k3: "reg_tcp_conn_ebpf env j c1 False (put_kconn j c1 k) = Inr (True, k3)"
    using assms(1) unfolding e by (cases "reg_tcp_conn_ebpf env j c1 False (put_kconn j c1 k)")
      (auto simp: andthen_def get_conn_def split: if_splits sum.splits option.splits)
  obtain idx r where c3: "k_conns k3 j = Some (start_cc idx r c1)" using reg_ebpf_frame(2) [OF k3] by blast
  show ?thesis using assms(1,3) reg_ebpf_frame(1) [OF k3] unfolding e k3
    by (auto simp: get_conn_def c3 Let_def send_control_msgs notify_app_tcp_conn_open_def notify_def put_kconn_def start_cc_def c1_def)
qed

lemma connect_answer:
  assumes "find_tcp_conn_slowpath i k = Inr None" "alloc_port k = Inr (Some lport, k0)" "ke_chan_ok env th"
    and "process_tcp_cmd env th (APPOUT_TCP_OPEN i fd rip rport) k = Inr k1"
  shows "k_msgs k1 = k_msgs k @ [(th, TCP_CONN_OPEN i fd 0 (ke_local_ip env)
      (tc_local_port (opened_conn env th i fd rip rport lport new_connection)) 0 0 0)]"
proof -
  have "k_msgs k0 = k_msgs k" using assms(2) by (auto simp: alloc_port_def split: list.splits if_splits)
  moreover have "k_msgs (record_port env app p q K) = k_msgs K" for app p q K by (simp add: record_port_def Let_def)
  ultimately show ?thesis using assms
    by (auto simp: tcp_open_def start_open_def reg_tcp_conn_slowpath_def put_kconn_def notify_app_tcp_conn_open_def notify_def opened_conn_def Let_def)
qed

text \<open>C20: a connection that the application asks to open is opened for the same flow on both
  sides: the request sent by \<open>eTran_tcp_open\<close> makes the micro kernel answer with its address; when its
  handshake completes it answers with the port, the queue and the buffer sizes; after the two
  messages the user-level connection is open with the micro kernel's addresses, ports and buffer
  sizes, empty buffers, and is registered with its thread under that flow.\<close>

theorem connect_opens_same_flow:
  assumes "i \<noteq> 0" "eTran_tcp_open True i fd rip rport cs = ((0, Some cmd), cs1)"
    and "find_tcp_conn_slowpath i k = Inr None" "alloc_port k = Inr (Some lport, k0)" "ke_chan_ok env th"
    and "process_tcp_cmd env th cmd k = Inr k1"
    and "k_conns k2 j = Some c" "tc_opaque c = i" "tc_tctx c = th" "ke_chan_ok env2 th"
    and "conn_tuple c = conn_tuple (opened_conn env th i fd rip rport lport new_connection)"
    and "tcp_synack_pkt env2 j p opts k2 = Inr (True, k3)" "open_conns t (rip, rport, ke_local_ip env, tc_local_port c) = None"
  shows "\<exists>m0 m1 es t' cs' u. k_msgs k1 = k_msgs k @ [(th, m0)] \<and> k_msgs k3 = k_msgs k2 @ [(th, m1)]
    \<and> kernel_events [m0, m1] t cs1 = (es, t', cs') \<and> u = cs' i \<and> u_status u = uconn_status.CONN_OPEN \<and> flow_agrees u c
    \<and> open_conns t' (uflow_of u) = Some i \<and> u_rx_buf_size u = tc_rx_buf_size c \<and> u_tx_buf_size u = tc_tx_buf_size c
    \<and> u_qid u = tc_qid c \<and> rxb_used u = 0 \<and> txb_sent u = 0 \<and> ETRANTCP_EV_CONN_SENDBUF i \<in> set es"
proof -
  have cmd: "cmd = APPOUT_TCP_OPEN i fd rip rport"
    and cs1: "cs1 = cs(i := (cs i)\<lparr>u_status := CONN_OPEN_REQUESTED, u_remote_ip := rip, u_remote_port := rport\<rparr>)"
    using assms(1,2) by (simp_all add: eTran_tcp_open_def notify_kernel_def)
  have m0: "k_msgs k1 = k_msgs k @ [(th, TCP_CONN_OPEN i fd 0 (ke_local_ip env)
      (tc_local_port (opened_conn env th i fd rip rport lport new_connection)) 0 0 0)]"
    by (rule connect_answer [OF assms(3,4,5) assms(6) [unfolded cmd]])
  have m1: "k_msgs k3 = k_msgs k2 @ [(th, opened_msg c)]" using synack_answer [OF assms(12,7)] assms(9,10) by simp
  have tup: "tc_remote_ip c = rip" "tc_remote_port c = rport" "tc_local_ip c = ke_local_ip env"
    using assms(11) by (simp_all add: conn_tuple_def opened_conn_def)
  define u where "u = connection_prepare_buffer ((cs1 i)\<lparr>u_local_ip := ke_local_ip env, u_qid := tc_qid c, u_local_port := tc_local_port c,
      u_rx_buf_size := tc_rx_buf_size c, u_tx_buf_size := tc_tx_buf_size c, u_status := uconn_status.CONN_OPEN\<rparr>)"
  have u: "u_status u = uconn_status.CONN_OPEN" "flow_agrees u c" "u_rx_buf_size u = tc_rx_buf_size c" "u_tx_buf_size u = tc_tx_buf_size c"
    "u_qid u = tc_qid c" "rxb_used u = 0" "txb_sent u = 0" "uflow_of u = (rip, rport, ke_local_ip env, tc_local_port c)"
    using tup by (simp_all add: u_def cs1 connection_prepare_buffer_def flow_agrees_def uflow_of_def)
  let ?m0 = "TCP_CONN_OPEN i fd 0 (ke_local_ip env) (tc_local_port (opened_conn env th i fd rip rport lport new_connection)) 0 0 0"
  have ev: "kernel_events [?m0, opened_msg c] t cs1 =
      ([ETRANTCP_EV_CONN_OPEN i fd 0, ETRANTCP_EV_CONN_OPEN i (tc_fd c) 1, ETRANTCP_EV_CONN_SENDBUF i], insert_open (uflow_of u) i t, cs1(i := u))"
    using assms(8) by (simp add: u_def Let_def)
  have "open_conns (insert_open (uflow_of u) i t) (uflow_of u) = Some i" using assms(13) u(8) by (simp add: insert_open_def)
  then show ?thesis using m0 m1 ev u(1-7) by (intro exI [of _ ?m0] exI [of _ "opened_msg c"]) auto
qed

lemma synack_succeeds:
  assumes "net_ok env" "k_avail_cc k = idx # is" "k_conns k j = Some c" "op_ts opts = Some ts"
    and "tcph_flags p AND (TCP_SYN OR TCP_ACK) = TCP_SYN OR TCP_ACK"
  shows "\<exists>k'. tcp_synack_pkt env j p opts k = Inr (True, k')"
proof -
  have g: "get_conn j k = Inr c" using assms(3) by (simp add: get_conn_def)
  define c1 where "c1 = c\<lparr>tc_next_timeout_tsc := 0, tc_local_mac := take 6 p, tc_remote_mac := take 6 (drop 6 p),
     tc_remote_seq := bpf_ntohl (ld32 38 p) + 1, tc_local_seq := bpf_ntohl (ld32 42 p), tc_syn_ts := opt_ts_val p ts,
     tc_flags := (if tcph_flags p AND (TCP_ECE OR TCP_CWR) = TCP_ECE then tc_flags c OR ECN_ENABLE else tc_flags c)\<rparr>"
  have av: "k_avail_cc (put_kconn j c1 k) = idx # is" using assms(2) by simp
  obtain k3 where "reg_tcp_conn_ebpf env j c1 False (put_kconn j c1 k) = Inr (True, k3)" "k_conns k3 j = Some (start_cc idx 463360 c1)"
    using reg_ebpf_success [OF assms(1) av, of j c1 False] by auto
  then show ?thesis using assms(4,5) g by (auto simp: tcp_synack_pkt_def Let_def c1_def get_conn_def)
qed

theorem connect_opens_same_flow_witness:
  "\<exists>k1 k3 m0 m1 es t' cs' u. process_tcp_cmd (demo_env 0x0a000001) 0 (APPOUT_TCP_OPEN 77 4 0x0a000002 2000) small_ctl = Inr k1
    \<and> k_msgs k1 = [(0, m0)] \<and> k_msgs (k3 :: ctl_state) = k_msgs k1 @ [(0, m1)]
    \<and> kernel_events [m0, m1] demo_thread (snd (eTran_tcp_open True 77 4 0x0a000002 2000 (\<lambda>_. demo_uconn))) = (es, t', cs') \<and> u = cs' 77
    \<and> u_status u = uconn_status.CONN_OPEN \<and> uflow_of u = (0x0a000002, 2000, 0x0a000001, 1000)"
proof -
  let ?env = "demo_env 0x0a000001"
  let ?p = "st16 46 (bpf_htons (TCP_SYN OR TCP_ACK)) (replicate 100 0)" and ?opts = "\<lparr>op_mss = None, op_ts = Some 0\<rparr>"
  let ?o = "opened_conn ?env 0 77 4 0x0a000002 2000 1000 new_connection"
  obtain k1 where k1: "process_tcp_cmd ?env 0 (APPOUT_TCP_OPEN 77 4 0x0a000002 2000) small_ctl = Inr k1" "k_conns k1 0 = Some ?o" "k_avail_cc k1 = [3]"
    by (simp add: demo_eval)
  obtain k0 where al: "find_tcp_conn_slowpath 77 small_ctl = Inr None" "alloc_port small_ctl = Inr (Some 1000, k0)" by (simp add: demo_eval)
  have fl: "tcph_flags ?p AND (TCP_SYN OR TCP_ACK) = TCP_SYN OR TCP_ACK" by (simp add: tcph_flags_def mem_simps)
  obtain k3 where k3: "tcp_synack_pkt ?env 0 ?p ?opts k1 = Inr (True, k3)"
    using synack_succeeds [OF _ k1(3,2) _ fl, of ?env ?opts 0] by (auto simp: net_ok_def demo_env_def)
  have op: "eTran_tcp_open True 77 4 0x0a000002 2000 (\<lambda>_. demo_uconn) = ((0, Some (APPOUT_TCP_OPEN 77 4 0x0a000002 2000)),
      snd (eTran_tcp_open True 77 4 0x0a000002 2000 (\<lambda>_. demo_uconn)))" by (simp add: eTran_tcp_open_def notify_kernel_def)
  have c: "tc_opaque ?o = 77" "tc_tctx ?o = 0" "ke_chan_ok ?env 0" "tc_local_port ?o = 1000" "tc_local_ip ?o = 0x0a000001"
    "tc_remote_ip ?o = 0x0a000002" "tc_remote_port ?o = 2000" "k_msgs small_ctl = []"
    by (simp_all add: opened_conn_def demo_env_def new_connection_def small_ctl_def empty_ctl_def)
  from connect_opens_same_flow [OF _ op al c(3) k1(1,2) c(1,2,3) refl k3, of demo_thread] obtain m0 m1 es t' cs' u where
    w: "k_msgs k1 = k_msgs small_ctl @ [(0, m0)]" "k_msgs k3 = k_msgs k1 @ [(0, m1)]"
      "kernel_events [m0, m1] demo_thread (snd (eTran_tcp_open True 77 4 0x0a000002 2000 (\<lambda>_. demo_uconn))) = (es, t', cs')" "u = cs' 77"
      "u_status u = uconn_status.CONN_OPEN" "flow_agrees u ?o" by (auto simp: demo_thread_def)
  have fo: "uflow_of u = (0x0a000002, 2000, 0x0a000001, 1000)" using w(6) c by (simp add: flow_agrees_def uflow_of_def)
  have ms: "k_msgs k1 = [(0, m0)]" using w(1) c(8) by simp
  show ?thesis by (intro exI conjI) (fact k1(1), fact ms, fact w(2), fact w(3), fact w(4), fact w(5), fact fo)
qed

end
