(* ===== verification/Buf_Pool.thy ===== *)
theory Buf_Pool
  imports Xdp_Prelude "HOL-Library.Multiset"
begin

text \<open>
  The pool of packet buffers (\<open>common/xskbp/xsk_buffer_pool.cc\<close>): buffers are handed out
  from and collected in slabs, arrays of \<open>nr_buffers_per_slab\<close> buffer addresses.  A thread owns two
  slabs, one to take from and one to fill, and exchanges an empty one for a full one, or a full
  one for an empty one, with the pool.  Slabs are referred to by number; \<open>slab_mem\<close> is their
  memory.  The exchanges run under the pool's lock and are single steps here.  \<open>None\<close> is a failed
  assertion or an access outside the array of slabs.
\<close>

section \<open>State\<close>

record buffer_pool =
  slab_mem :: "nat \<Rightarrow> u64 list"
  bp_slabs :: "nat list"
  nr_slabs_avail :: nat
  bp_slabs_swap :: "nat list"
  nr_slabs_swap_avail :: nat
  nr_buffers_per_slab :: nat

record thread_bcache =
  slabs_cons :: nat
  slabs_prod :: nat
  nr_buffers_cons :: nat
  nr_buffers_prod :: nat

abbreviation (input) XSK_FRAME_SIZE :: u64 where "XSK_FRAME_SIZE \<equiv> 4096"

definition bp_init :: "nat \<Rightarrow> nat \<Rightarrow> nat \<Rightarrow> buffer_pool" where
  "bp_init nr_buffers per_slab users =
    (let nr_slabs = (nr_buffers + per_slab - 1) div per_slab; nr_swap = users * 2
     in \<lparr>slab_mem = (\<lambda>s. if s < nr_slabs then map (\<lambda>j. of_nat (s * per_slab + j) * XSK_FRAME_SIZE) [0..<per_slab]
                       else replicate per_slab 0),
         bp_slabs = [0..<nr_slabs], nr_slabs_avail = nr_slabs, bp_slabs_swap = [nr_slabs..<nr_slabs + nr_swap],
         nr_slabs_swap_avail = nr_swap, nr_buffers_per_slab = per_slab\<rparr>)"

section \<open>Operations\<close>

definition thread_bcache_create :: "buffer_pool \<Rightarrow> (thread_bcache \<times> buffer_pool) option" where
  "thread_bcache_create bp =
    (if nr_slabs_swap_avail bp < 2 then None
     else Some (\<lparr>slabs_cons = bp_slabs_swap bp ! (nr_slabs_swap_avail bp - 1), slabs_prod = bp_slabs_swap bp ! (nr_slabs_swap_avail bp - 2),
                 nr_buffers_cons = 0, nr_buffers_prod = 0\<rparr>,
                bp\<lparr>nr_slabs_swap_avail := nr_slabs_swap_avail bp - 2\<rparr>))"

definition thread_bcache_free :: "thread_bcache \<Rightarrow> buffer_pool \<Rightarrow> buffer_pool option" where
  "thread_bcache_free bc bp =
    (let n = nr_slabs_swap_avail bp
     in if n + 1 \<ge> length (bp_slabs_swap bp) then None
        else Some (bp\<lparr>bp_slabs_swap := (bp_slabs_swap bp)[n := slabs_cons bc, n + 1 := slabs_prod bc], nr_slabs_swap_avail := n + 2\<rparr>))"

definition thread_bcache_check :: "thread_bcache \<Rightarrow> nat \<Rightarrow> buffer_pool \<Rightarrow> nat \<times> thread_bcache \<times> buffer_pool" where
  "thread_bcache_check bc nr_req bp =
    (if nr_buffers_cons bc \<noteq> 0 then (min (nr_buffers_cons bc) nr_req, bc, bp)
     else if nr_slabs_avail bp = 0 then (0, bc, bp)
     else let a = nr_slabs_avail bp - 1; slab_full = bp_slabs bp ! a
          in (nr_req, bc\<lparr>slabs_cons := slab_full, nr_buffers_cons := nr_buffers_per_slab bp\<rparr>,
              bp\<lparr>nr_slabs_avail := a, bp_slabs := (bp_slabs bp)[a := slabs_cons bc]\<rparr>))"

definition fix_umem_offset :: "u64 \<Rightarrow> u64" where
  "fix_umem_offset addr = addr AND NOT (XSK_FRAME_SIZE - 1)"

definition add_offset_tx_frame :: "u64 \<Rightarrow> u64" where
  "add_offset_tx_frame frame_addr = frame_addr + 256 + 0"

definition thread_bcache_cons :: "thread_bcache \<Rightarrow> buffer_pool \<Rightarrow> (u64 \<times> thread_bcache) option" where
  "thread_bcache_cons bc bp =
    (if nr_buffers_cons bc = 0 then None
     else Some (slab_mem bp (slabs_cons bc) ! (nr_buffers_cons bc - 1), bc\<lparr>nr_buffers_cons := nr_buffers_cons bc - 1\<rparr>))"

definition put_slot :: "nat \<Rightarrow> nat \<Rightarrow> u64 \<Rightarrow> buffer_pool \<Rightarrow> buffer_pool" where
  "put_slot s j v bp = bp\<lparr>slab_mem := (slab_mem bp)(s := (slab_mem bp s)[j := v])\<rparr>"

definition thread_bcache_prod :: "thread_bcache \<Rightarrow> u64 \<Rightarrow> buffer_pool \<Rightarrow> (thread_bcache \<times> buffer_pool) option" where
  "thread_bcache_prod bc buf bp =
    (let buf = fix_umem_offset buf; n = nr_buffers_prod bc; a = nr_slabs_avail bp
     in if a > length (bp_slabs bp) then None
        else if n < nr_buffers_per_slab bp
        then Some (bc\<lparr>nr_buffers_prod := n + 1\<rparr>, put_slot (slabs_prod bc) n buf bp)
        else if a \<ge> length (bp_slabs bp) then None
        else let slab_empty = bp_slabs bp ! a
             in Some (bc\<lparr>slabs_prod := slab_empty, nr_buffers_prod := 1\<rparr>,
                      put_slot slab_empty 0 buf (bp\<lparr>bp_slabs := (bp_slabs bp)[a := slabs_prod bc], nr_slabs_avail := a + 1\<rparr>)))"

section \<open>The pool with its threads\<close>

text \<open>A thread takes a buffer as the library does: a check for one, then the buffer.\<close>

type_synonym bp_sys = "buffer_pool \<times> thread_bcache list"

definition take_buffer :: "nat \<Rightarrow> bp_sys \<Rightarrow> (u64 \<times> bp_sys) option" where
  "take_buffer t s =
    (if t \<ge> length (snd s) then None
     else let (ret, bc, bp) = thread_bcache_check (snd s ! t) 1 (fst s)
          in if ret \<noteq> 1 then None
             else map_option (\<lambda>(a, bc). (a, bp, (snd s)[t := bc])) (thread_bcache_cons bc bp))"

definition give_buffer :: "nat \<Rightarrow> u64 \<Rightarrow> bp_sys \<Rightarrow> bp_sys option" where
  "give_buffer t a s =
    (if t \<ge> length (snd s) then None
     else map_option (\<lambda>(bc, bp). (bp, (snd s)[t := bc])) (thread_bcache_prod (snd s ! t) a (fst s)))"

definition start_thread :: "bp_sys \<Rightarrow> bp_sys option" where
  "start_thread s = map_option (\<lambda>(bc, bp). (bp, snd s @ [bc])) (thread_bcache_create (fst s))"

section \<open>Contract of a shared stock\<close>

text \<open>
  What the users of the pool rely on: a take removes one item of the stock; a give adds
  the item and succeeds as long as the stock is not complete.  From that follows, for every
  interleaving of takes and of gives by holders, that the stock and the items held are
  always the same items and that no give fails.
\<close>

datatype ('t, 'i) stock_op = Stock_Take 't | Stock_Give 't 'i

fun run_stock :: "('t \<Rightarrow> 's \<Rightarrow> ('i \<times> 's) option) \<Rightarrow> ('t \<Rightarrow> 'i \<Rightarrow> 's \<Rightarrow> 's option) \<Rightarrow> ('t, 'i) stock_op list \<Rightarrow> 's \<Rightarrow> 'i list \<Rightarrow> ('s \<times> 'i list) option" where
  "run_stock get give [] s held = Some (s, held)"
| "run_stock get give (Stock_Take t # ops) s held =
    (case get t s of None \<Rightarrow> run_stock get give ops s held | Some (i, s') \<Rightarrow> run_stock get give ops s' (i # held))"
| "run_stock get give (Stock_Give t i # ops) s held =
    (if i \<notin> set held then run_stock get give ops s held
     else case give t i s of None \<Rightarrow> None | Some s' \<Rightarrow> run_stock get give ops s' (remove1 i held))"

locale shared_stock =
  fixes stock :: "'s \<Rightarrow> 'i multiset" and inv :: "'s \<Rightarrow> bool" and valid :: "'i \<Rightarrow> bool" and cap :: "'s \<Rightarrow> nat" and member :: "'t \<Rightarrow> 's \<Rightarrow> bool"
    and get :: "'t \<Rightarrow> 's \<Rightarrow> ('i \<times> 's) option" and give :: "'t \<Rightarrow> 'i \<Rightarrow> 's \<Rightarrow> 's option"
  assumes get_some: "inv s \<Longrightarrow> get t s = Some (i, s') \<Longrightarrow> inv s' \<and> stock s = add_mset i (stock s') \<and> cap s' = cap s \<and> (\<forall>u. member u s' = member u s)"
    and give_some: "inv s \<Longrightarrow> member t s \<Longrightarrow> valid i \<Longrightarrow> size (stock s) < cap s \<Longrightarrow>
      \<exists>s'. give t i s = Some s' \<and> inv s' \<and> stock s' = add_mset i (stock s) \<and> cap s' = cap s \<and> (\<forall>u. member u s' = member u s)"
begin

lemma run_conserves:
  assumes "inv s" "size (stock s) + length held = cap s" "\<forall>i\<in>#stock s + mset held. valid i" "\<forall>t i. Stock_Give t i \<in> set ops \<longrightarrow> member t s"
  shows "\<exists>s' held'. run_stock get give ops s held = Some (s', held') \<and> inv s' \<and> stock s' + mset held' = stock s + mset held"
  using assms
proof (induction ops arbitrary: s held)
  case (Cons op ops)
  have mem: "\<forall>t i. Stock_Give t i \<in> set ops \<longrightarrow> member t s" using Cons.prems(4) by auto
  show ?case
  proof (cases op)
    case (Stock_Take t)
    show ?thesis
    proof (cases "get t s")
      case None
      then show ?thesis using Cons.IH [OF Cons.prems(1-3) mem] Stock_Take by simp
    next
      case (Some x)
      obtain i s1 where x: "get t s = Some (i, s1)" using Some by (cases x) simp
      note g = get_some [OF Cons.prems(1) x]
      have "\<exists>s' held'. run_stock get give ops s1 (i # held) = Some (s', held') \<and> inv s' \<and> stock s' + mset held' = stock s1 + mset (i # held)"
        by (rule Cons.IH) (use g Cons.prems Stock_Take in auto)
      then show ?thesis using x g Stock_Take by simp
    qed
  next
    case (Stock_Give t i)
    show ?thesis
    proof (cases "i \<in> set held")
      case False
      then show ?thesis using Cons.IH [OF Cons.prems(1-3) mem] Stock_Give by simp
    next
      case True
      then have pos: "0 < length held" by (cases held) simp_all
      then have "size (stock s) < cap s" using Cons.prems(2) by linarith
      moreover have "valid i" "member t s" using True Cons.prems(3,4) Stock_Give by auto
      ultimately obtain s1 where g: "give t i s = Some s1" "inv s1" "stock s1 = add_mset i (stock s)" "cap s1 = cap s" "\<forall>u. member u s1 = member u s"
        using give_some [OF Cons.prems(1)] by blast
      have h: "add_mset i (mset (remove1 i held)) = mset held" "Suc (length (remove1 i held)) = length held"
        using True pos by (simp_all add: length_remove1)
      have eq: "stock s1 + mset (remove1 i held) = stock s + mset held" unfolding g(3) h(1) [symmetric] by simp
      have "\<exists>s' held'. run_stock get give ops s1 (remove1 i held) = Some (s', held') \<and> inv s' \<and> stock s' + mset held' = stock s1 + mset (remove1 i held)"
      proof (rule Cons.IH)
        show "inv s1" by (rule g(2))
        show "size (stock s1) + length (remove1 i held) = cap s1" using g(3,4) h(2) Cons.prems(2) by simp
        show "\<forall>j\<in>#stock s1 + mset (remove1 i held). valid j" unfolding eq by (rule Cons.prems(3))
        show "\<forall>t i. Stock_Give t i \<in> set ops \<longrightarrow> member t s1" using mem g(5) by simp
      qed
      moreover note eq
      ultimately show ?thesis using g(1) True Stock_Give by simp
    qed
  qed
qed simp

end

section \<open>The invariant\<close>

text \<open>
  Slabs with a number of entries in use: the full slabs of the pool and the two slabs of
  each thread.  The stock are the entries in use.
\<close>

definition cache_segs :: "thread_bcache \<Rightarrow> (nat \<times> nat) list" where
  "cache_segs c = [(slabs_cons c, nr_buffers_cons c), (slabs_prod c, nr_buffers_prod c)]"

abbreviation segs_of :: "bp_sys \<Rightarrow> (nat \<times> nat) list" where
  "segs_of s \<equiv> map (\<lambda>x. (x, nr_buffers_per_slab (fst s))) (take (nr_slabs_avail (fst s)) (bp_slabs (fst s))) @ concat (map cache_segs (snd s))"

primrec seg_stock :: "(nat \<Rightarrow> u64 list) \<Rightarrow> (nat \<times> nat) list \<Rightarrow> u64 multiset" where
  "seg_stock m [] = {#}"
| "seg_stock m (x # xs) = mset (take (snd x) (m (fst x))) + seg_stock m xs"

definition bp_stock :: "bp_sys \<Rightarrow> u64 multiset" where
  "bp_stock s = seg_stock (slab_mem (fst s)) (segs_of s)"

definition slab_names :: "bp_sys \<Rightarrow> nat list" where
  "slab_names s = bp_slabs (fst s) @ take (nr_slabs_swap_avail (fst s)) (bp_slabs_swap (fst s)) @ map fst (concat (map cache_segs (snd s)))"

definition cache_ok :: "nat \<Rightarrow> thread_bcache \<Rightarrow> bool" where
  "cache_ok per c \<longleftrightarrow> nr_buffers_cons c \<le> per \<and> nr_buffers_prod c \<le> per"

definition bp_wf :: "bp_sys \<Rightarrow> bool" where
  "bp_wf s \<longleftrightarrow> 0 < nr_buffers_per_slab (fst s) \<and> nr_slabs_avail (fst s) \<le> length (bp_slabs (fst s))
     \<and> nr_slabs_swap_avail (fst s) \<le> length (bp_slabs_swap (fst s))
     \<and> distinct (slab_names s) \<and> list_all (cache_ok (nr_buffers_per_slab (fst s))) (snd s)
     \<and> list_all (\<lambda>x. length (slab_mem (fst s) x) = nr_buffers_per_slab (fst s)) (slab_names s)"

definition bp_cap :: "bp_sys \<Rightarrow> nat" where
  "bp_cap s = length (bp_slabs (fst s)) * nr_buffers_per_slab (fst s)"

abbreviation frame_addr :: "u64 \<Rightarrow> bool" where "frame_addr a \<equiv> fix_umem_offset a = a"

lemma seg_stock_append [simp]: "seg_stock m (xs @ ys) = seg_stock m xs + seg_stock m ys"
  by (induction xs) (simp_all add: add.assoc)

lemma seg_stock_other: "x \<notin> fst ` set xs \<Longrightarrow> seg_stock (m(x := v)) xs = seg_stock m xs"
  by (induction xs) auto

text \<open>The state seen from one thread.\<close>

lemma thread_split:
  assumes "t < length cs"
  obtains us vs where "cs = us @ (cs ! t) # vs" "length us = t" "\<And>d. cs[t := d] = us @ d # vs"
proof -
  have e: "cs = take t cs @ (cs ! t) # drop (Suc t) cs" using assms by (simp add: id_take_nth_drop)
  show thesis by (rule that [of "take t cs" "drop (Suc t) cs"]) (use assms e in \<open>simp_all add: upd_conv_take_nth_drop\<close>)
qed

lemma refill:
  assumes "bp_wf (bp, us @ c # vs)" "nr_buffers_cons c = 0" "nr_slabs_avail bp \<noteq> 0" "thread_bcache_check c 1 bp = (r, c', bp')"
  shows "r = 1" "bp_wf (bp', us @ c' # vs)" "bp_stock (bp', us @ c' # vs) = bp_stock (bp, us @ c # vs)"
    "bp_cap (bp', us @ c' # vs) = bp_cap (bp, us @ c # vs)" "nr_buffers_cons c' \<noteq> 0"
proof -
  let ?a = "nr_slabs_avail bp - 1" and ?per = "nr_buffers_per_slab bp"
  let ?x = "bp_slabs bp ! ?a"
  have wf: "0 < ?per" "nr_slabs_avail bp \<le> length (bp_slabs bp)" "distinct (slab_names (bp, us @ c # vs))"
    "list_all (\<lambda>x. length (slab_mem bp x) = ?per) (slab_names (bp, us @ c # vs))" "list_all (cache_ok ?per) (us @ c # vs)"
    "nr_slabs_swap_avail bp \<le> length (bp_slabs_swap bp)" using assms(1) by (simp_all add: bp_wf_def)
  have a: "?a < length (bp_slabs bp)" "nr_slabs_avail bp = Suc ?a" using assms(3) wf(2) by simp_all
  have c': "r = 1" "c' = c\<lparr>slabs_cons := ?x, nr_buffers_cons := ?per\<rparr>"
    "bp' = bp\<lparr>nr_slabs_avail := ?a, bp_slabs := (bp_slabs bp)[?a := slabs_cons c]\<rparr>"
    using assms(2,3,4) by (auto simp: thread_bcache_check_def Let_def)
  show "r = 1" by (rule c'(1))
  show "nr_buffers_cons c' \<noteq> 0" using wf(1) c'(2) by simp
  show "bp_cap (bp', us @ c' # vs) = bp_cap (bp, us @ c # vs)" by (simp add: bp_cap_def c'(3))
  have names: "mset (slab_names (bp', us @ c' # vs)) = mset (slab_names (bp, us @ c # vs))"
    using a(1) by (simp add: slab_names_def c'(2,3) cache_segs_def mset_update)
  then have dist: "distinct (slab_names (bp', us @ c' # vs))" "set (slab_names (bp', us @ c' # vs)) = set (slab_names (bp, us @ c # vs))"
    using wf(3) mset_eq_imp_distinct_iff mset_eq_setD by blast+
  have "list_all (cache_ok ?per) (us @ c' # vs)" using wf(5) c'(2) by (simp add: cache_ok_def)
  then show "bp_wf (bp', us @ c' # vs)" using dist wf a unfolding bp_wf_def list_all_iff by (simp add: c'(3))
  have x: "length (slab_mem bp ?x) = ?per" using wf(4) a(1) unfolding list_all_iff slab_names_def by simp
  have tk: "take (nr_slabs_avail bp) (bp_slabs bp) = take ?a (bp_slabs bp) @ [?x]" using a by (metis take_Suc_conv_app_nth)
  have "bp_stock (bp, us @ c # vs) = seg_stock (slab_mem bp) (map (\<lambda>x. (x, ?per)) (take ?a (bp_slabs bp))) + mset (slab_mem bp ?x)
      + seg_stock (slab_mem bp) (concat (map cache_segs us)) + mset (take (nr_buffers_prod c) (slab_mem bp (slabs_prod c)))
      + seg_stock (slab_mem bp) (concat (map cache_segs vs))"
    unfolding bp_stock_def fst_conv snd_conv tk using x assms(2) by (simp add: cache_segs_def add.assoc)
  also have "\<dots> = bp_stock (bp', us @ c' # vs)"
    unfolding bp_stock_def fst_conv snd_conv c'(2,3) using x by (simp add: cache_segs_def ac_simps)
  finally show "bp_stock (bp', us @ c' # vs) = bp_stock (bp, us @ c # vs)" by simp
qed

lemma take_one:
  assumes "bp_wf (bp, us @ c # vs)" "nr_buffers_cons c \<noteq> 0" "thread_bcache_cons c bp = Some (a, c')"
  shows "bp_wf (bp, us @ c' # vs)" "bp_stock (bp, us @ c # vs) = add_mset a (bp_stock (bp, us @ c' # vs))"
proof -
  obtain n where n: "nr_buffers_cons c = Suc n" using assms(2) by (cases "nr_buffers_cons c") simp_all
  have c': "a = slab_mem bp (slabs_cons c) ! n" "c' = c\<lparr>nr_buffers_cons := n\<rparr>" using assms(3) n by (auto simp: thread_bcache_cons_def)
  have "length (slab_mem bp (slabs_cons c)) = nr_buffers_per_slab bp" "Suc n \<le> nr_buffers_per_slab bp"
    using assms(1) n by (simp_all add: bp_wf_def list_all_iff slab_names_def cache_segs_def cache_ok_def)
  then have "take (Suc n) (slab_mem bp (slabs_cons c)) = take n (slab_mem bp (slabs_cons c)) @ [a]" using c'(1) by (simp add: take_Suc_conv_app_nth)
  then show "bp_stock (bp, us @ c # vs) = add_mset a (bp_stock (bp, us @ c' # vs))"
    using n c'(2) by (simp add: bp_stock_def cache_segs_def)
  show "bp_wf (bp, us @ c' # vs)" using assms(1) n c'(2) by (simp add: bp_wf_def slab_names_def cache_segs_def cache_ok_def)
qed

lemma take_buffer_ok:
  assumes "bp_wf s" "take_buffer t s = Some (a, s')"
  shows "bp_wf s'" "bp_stock s = add_mset a (bp_stock s')" "bp_cap s' = bp_cap s" "length (snd s') = length (snd s)"
proof -
  obtain bp cs where s: "s = (bp, cs)" by fastforce
  have t: "t < length cs" using assms(2) s by (auto simp: take_buffer_def split: if_splits)
  obtain us vs where cs: "cs = us @ (cs ! t) # vs" "\<And>d. cs[t := d] = us @ d # vs" using thread_split [OF t] by metis
  define c where "c = cs ! t"
  have wf: "bp_wf (bp, us @ c # vs)" using assms(1) s cs(1) c_def by simp
  obtain r c1 bp1 where ck: "thread_bcache_check c 1 bp = (r, c1, bp1)" by (metis prod_cases3)
  have r: "r = 1" using assms(2) ck t s by (auto simp: take_buffer_def c_def split: if_splits)
  obtain c2 where c2: "thread_bcache_cons c1 bp1 = Some (a, c2)" "s' = (bp1, us @ c2 # vs)"
    using assms(2) ck r t s cs(2) by (auto simp: take_buffer_def c_def)
  have "bp_wf (bp1, us @ c1 # vs) \<and> bp_stock (bp1, us @ c1 # vs) = bp_stock (bp, us @ c # vs)
    \<and> bp_cap (bp1, us @ c1 # vs) = bp_cap (bp, us @ c # vs) \<and> nr_buffers_cons c1 \<noteq> 0"
  proof (cases "nr_buffers_cons c = 0")
    case True
    then have "nr_slabs_avail bp \<noteq> 0" using ck r by (auto simp: thread_bcache_check_def split: if_splits)
    from refill [OF wf True this ck] show ?thesis by blast
  next
    case False
    then have "c1 = c" "bp1 = bp" using ck by (auto simp: thread_bcache_check_def)
    then show ?thesis using wf False by simp
  qed
  then have one: "bp_wf (bp1, us @ c1 # vs)" "bp_stock (bp1, us @ c1 # vs) = bp_stock (bp, us @ c # vs)"
    "bp_cap (bp1, us @ c1 # vs) = bp_cap (bp, us @ c # vs)" "nr_buffers_cons c1 \<noteq> 0" by blast+
  have e: "s = (bp, us @ c # vs)" using s cs(1) c_def by simp
  show "bp_wf s'" "bp_stock s = add_mset a (bp_stock s')" using take_one [OF one(1,4) c2(1)] one(2) unfolding e c2(2) by simp_all
  show "bp_cap s' = bp_cap s" using one(3) unfolding e c2(2) by (simp add: bp_cap_def)
  show "length (snd s') = length (snd s)" unfolding e c2(2) by simp
qed

lemma slab_names_split: "slab_names (bp, us @ c # vs) = bp_slabs bp @ take (nr_slabs_swap_avail bp) (bp_slabs_swap bp)
    @ map fst (concat (map cache_segs us)) @ [slabs_cons c, slabs_prod c] @ map fst (concat (map cache_segs vs))"
  by (simp add: slab_names_def cache_segs_def)

lemma names_apart:
  assumes "distinct (slab_names (bp, us @ c # vs))"
  shows "slabs_prod c \<notin> set (bp_slabs bp)" "slabs_prod c \<notin> fst ` set (concat (map cache_segs us))"
    "slabs_prod c \<notin> fst ` set (concat (map cache_segs vs))" "slabs_prod c \<noteq> slabs_cons c" "distinct (bp_slabs bp)"
    "x \<in> set (bp_slabs bp) \<Longrightarrow> x \<notin> fst ` set (concat (map cache_segs us)) \<and> x \<notin> fst ` set (concat (map cache_segs vs)) \<and> x \<noteq> slabs_cons c \<and> x \<noteq> slabs_prod c"
proof -
  define U V where "U = concat (map cache_segs us)" "V = concat (map cache_segs vs)"
  then show "slabs_prod c \<notin> set (bp_slabs bp)" "slabs_prod c \<notin> fst ` set (concat (map cache_segs us))"
    "slabs_prod c \<notin> fst ` set (concat (map cache_segs vs))" "slabs_prod c \<noteq> slabs_cons c" "distinct (bp_slabs bp)"
    "x \<in> set (bp_slabs bp) \<Longrightarrow> x \<notin> fst ` set (concat (map cache_segs us)) \<and> x \<notin> fst ` set (concat (map cache_segs vs)) \<and> x \<noteq> slabs_cons c \<and> x \<noteq> slabs_prod c"
    using assms unfolding slab_names_split U_V_def [symmetric] by auto
qed

lemma put_fast:
  assumes "bp_wf (bp, us @ c # vs)" "nr_buffers_prod c < nr_buffers_per_slab bp"
    and c'_def: "c' = c\<lparr>nr_buffers_prod := nr_buffers_prod c + 1\<rparr>" and bp'_def: "bp' = put_slot (slabs_prod c) (nr_buffers_prod c) a bp"
  shows "bp_wf (bp', us @ c' # vs)" "bp_stock (bp', us @ c' # vs) = add_mset a (bp_stock (bp, us @ c # vs))"
proof -
  let ?x = "slabs_prod c" and ?n = "nr_buffers_prod c"
  have d: "distinct (slab_names (bp, us @ c # vs))" and len: "length (slab_mem bp ?x) = nr_buffers_per_slab bp"
    using assms(1) by (simp_all add: bp_wf_def list_all_iff slab_names_def cache_segs_def)
  show "bp_wf (bp', us @ c' # vs)" using assms(1,2) unfolding c'_def bp'_def
    by (auto simp: bp_wf_def slab_names_def cache_segs_def cache_ok_def put_slot_def list_all_iff)
  have o: "?x \<notin> fst ` set (map (\<lambda>x. (x, nr_buffers_per_slab bp)) (take (nr_slabs_avail bp) (bp_slabs bp)))"
    "?x \<notin> fst ` set (concat (map cache_segs us))" "?x \<notin> fst ` set (concat (map cache_segs vs))" "?x \<noteq> slabs_cons c"
    using names_apart(1-4) [OF d] in_set_takeD by force+
  have "take (Suc ?n) ((slab_mem bp ?x)[?n := a]) = take ?n (slab_mem bp ?x) @ [a]" using len assms(2) by (simp add: take_Suc_conv_app_nth)
  then show "bp_stock (bp', us @ c' # vs) = add_mset a (bp_stock (bp, us @ c # vs))"
    unfolding c'_def bp'_def bp_stock_def put_slot_def using o
    by (simp add: cache_segs_def seg_stock_other)
qed

lemma put_slow:
  assumes "bp_wf (bp, us @ c # vs)" "nr_buffers_prod c = nr_buffers_per_slab bp" "nr_slabs_avail bp < length (bp_slabs bp)"
    and c'_def: "c' = c\<lparr>slabs_prod := bp_slabs bp ! nr_slabs_avail bp, nr_buffers_prod := 1\<rparr>"
    and bp'_def: "bp' = put_slot (bp_slabs bp ! nr_slabs_avail bp) 0 a
      (bp\<lparr>bp_slabs := (bp_slabs bp)[nr_slabs_avail bp := slabs_prod c], nr_slabs_avail := nr_slabs_avail bp + 1\<rparr>)"
  shows "bp_wf (bp', us @ c' # vs)" "bp_stock (bp', us @ c' # vs) = add_mset a (bp_stock (bp, us @ c # vs))"
proof -
  let ?k = "nr_slabs_avail bp" and ?per = "nr_buffers_per_slab bp"
  let ?x = "bp_slabs bp ! ?k" and ?p = "slabs_prod c"
  have wf: "0 < ?per" "distinct (slab_names (bp, us @ c # vs))" "list_all (cache_ok ?per) (us @ c # vs)" "nr_slabs_swap_avail bp \<le> length (bp_slabs_swap bp)"
    and len: "\<And>y. y \<in> set (slab_names (bp, us @ c # vs)) \<Longrightarrow> length (slab_mem bp y) = ?per"
    using assms(1) by (simp_all add: bp_wf_def list_all_iff)
  have lx: "length (slab_mem bp ?x) = ?per" "length (slab_mem bp ?p) = ?per" using len assms(3) by (simp_all add: slab_names_def cache_segs_def)
  have names: "mset (slab_names (bp', us @ c' # vs)) = mset (slab_names (bp, us @ c # vs))"
    using assms(3) by (simp add: slab_names_def c'_def bp'_def put_slot_def cache_segs_def mset_update)
  then have dist: "distinct (slab_names (bp', us @ c' # vs))" "set (slab_names (bp', us @ c' # vs)) = set (slab_names (bp, us @ c # vs))"
    using wf(2) mset_eq_imp_distinct_iff mset_eq_setD by blast+
  have "list_all (cache_ok ?per) (us @ c' # vs)" using wf(1,3) c'_def by (simp add: cache_ok_def)
  moreover have "length (slab_mem bp' y) = ?per" if "y \<in> set (slab_names (bp', us @ c' # vs))" for y
    using len [of y] that dist(2) lx(1) by (auto simp: bp'_def put_slot_def)
  ultimately show "bp_wf (bp', us @ c' # vs)" using dist(1) wf(1,4) assms(3) unfolding bp_wf_def list_all_iff by (simp add: bp'_def put_slot_def)
  have o: "?x \<notin> set (take ?k (bp_slabs bp))" using names_apart(5) [OF wf(2)] assms(3) by (auto simp: in_set_conv_nth nth_eq_iff_index_eq)
  have mem: "?x \<in> set (bp_slabs bp)" using assms(3) by simp
  then have o': "?x \<notin> fst ` set (concat (map cache_segs us))" "?x \<notin> fst ` set (concat (map cache_segs vs))" "?x \<noteq> slabs_cons c" "?x \<noteq> ?p"
    using names_apart(6) [OF wf(2)] by blast+
  have o1: "?x \<notin> fst ` set (map (\<lambda>x. (x, ?per)) (take ?k (bp_slabs bp)))" using o by auto
  have tk: "take (?k + 1) ((bp_slabs bp)[?k := ?p]) = take ?k (bp_slabs bp) @ [?p]" using assms(3) by (simp add: take_Suc_conv_app_nth)
  have one: "take 1 ((slab_mem bp ?x)[0 := a]) = [a]" using lx(1) wf(1) by (cases "slab_mem bp ?x") simp_all
  have "bp_stock (bp', us @ c' # vs) = seg_stock (slab_mem bp) (map (\<lambda>x. (x, ?per)) (take ?k (bp_slabs bp))) + mset (slab_mem bp ?p)
      + seg_stock (slab_mem bp) (concat (map cache_segs us)) + mset (take (nr_buffers_cons c) (slab_mem bp (slabs_cons c))) + {#a#}
      + seg_stock (slab_mem bp) (concat (map cache_segs vs))"
    unfolding bp_stock_def fst_conv snd_conv c'_def bp'_def put_slot_def using o1 o' one lx tk
    by (simp add: cache_segs_def seg_stock_other)
  also have "\<dots> = add_mset a (bp_stock (bp, us @ c # vs))"
    using assms(2) lx(2) by (simp add: bp_stock_def cache_segs_def ac_simps)
  finally show "bp_stock (bp', us @ c' # vs) = add_mset a (bp_stock (bp, us @ c # vs))" .
qed

lemma size_seg_stock: "\<forall>x\<in>set xs. snd x \<le> length (m (fst x)) \<Longrightarrow> size (seg_stock m xs) = sum_list (map snd xs)"
  by (induction xs) simp_all

lemma size_bp_stock:
  assumes "bp_wf (bp, cs)"
  shows "size (bp_stock (bp, cs)) = nr_slabs_avail bp * nr_buffers_per_slab bp + sum_list (map (\<lambda>c. nr_buffers_cons c + nr_buffers_prod c) cs)"
proof -
  let ?per = "nr_buffers_per_slab bp"
  have len: "\<And>y. y \<in> set (slab_names (bp, cs)) \<Longrightarrow> length (slab_mem bp y) = ?per" and ok: "\<forall>c\<in>set cs. cache_ok ?per c" and av: "nr_slabs_avail bp \<le> length (bp_slabs bp)"
    using assms by (simp_all add: bp_wf_def list_all_iff)
  have "\<forall>x\<in>set (segs_of (bp, cs)). snd x \<le> length (slab_mem bp (fst x))"
  proof
    fix x assume x: "x \<in> set (segs_of (bp, cs))"
    then have "fst x \<in> set (slab_names (bp, cs))" by (force simp: slab_names_def dest: in_set_takeD)
    moreover have "snd x \<le> ?per" using x ok by (auto simp: cache_segs_def cache_ok_def)
    ultimately show "snd x \<le> length (slab_mem bp (fst x))" using len by simp
  qed
  then have "size (bp_stock (bp, cs)) = sum_list (map snd (segs_of (bp, cs)))" unfolding bp_stock_def fst_conv by (rule size_seg_stock)
  moreover have "sum_list (map snd (concat (map cache_segs cs))) = sum_list (map (\<lambda>c. nr_buffers_cons c + nr_buffers_prod c) cs)"
    by (induction cs) (simp_all add: cache_segs_def)
  ultimately show ?thesis using av by (simp add: map_replicate_const o_def sum_list_replicate)
qed

lemma give_buffer_ok:
  assumes "bp_wf s" "t < length (snd s)" "frame_addr a" "size (bp_stock s) < bp_cap s"
  shows "\<exists>s'. give_buffer t a s = Some s' \<and> bp_wf s' \<and> bp_stock s' = add_mset a (bp_stock s) \<and> bp_cap s' = bp_cap s
    \<and> length (snd s') = length (snd s)"
proof -
  obtain bp cs where s: "s = (bp, cs)" by fastforce
  obtain us vs where cs: "cs = us @ (cs ! t) # vs" "\<And>d. cs[t := d] = us @ d # vs" using thread_split [of t cs] assms(2) s by (metis snd_conv)
  define c where "c = cs ! t"
  have e: "s = (bp, us @ c # vs)" using s cs(1) c_def by simp
  have wf: "bp_wf (bp, us @ c # vs)" "nr_slabs_avail bp \<le> length (bp_slabs bp)" "cache_ok (nr_buffers_per_slab bp) c"
    using assms(1) unfolding e by (simp_all add: bp_wf_def)
  have give: "give_buffer t a s = map_option (\<lambda>(bc, bp). (bp, us @ bc # vs)) (thread_bcache_prod c a bp)"
    using assms(2) s cs(2) c_def by (simp add: give_buffer_def)
  show ?thesis
  proof (cases "nr_buffers_prod c < nr_buffers_per_slab bp")
    case True
    then have "give_buffer t a s = Some (put_slot (slabs_prod c) (nr_buffers_prod c) a bp, us @ c\<lparr>nr_buffers_prod := nr_buffers_prod c + 1\<rparr> # vs)"
      unfolding give using wf(2) assms(3) by (simp add: thread_bcache_prod_def Let_def)
    then show ?thesis using put_fast [OF wf(1) True refl refl, of a] unfolding e by (auto simp: bp_cap_def put_slot_def)
  next
    case False
    then have full: "nr_buffers_prod c = nr_buffers_per_slab bp" using wf(3) by (simp add: cache_ok_def)
    have "nr_slabs_avail bp * nr_buffers_per_slab bp + nr_buffers_per_slab bp \<le> size (bp_stock s)"
      unfolding e size_bp_stock [OF wf(1)] using full by simp
    then have "(nr_slabs_avail bp + 1) * nr_buffers_per_slab bp < length (bp_slabs bp) * nr_buffers_per_slab bp"
      using assms(4) unfolding e by (simp add: bp_cap_def)
    then have room: "nr_slabs_avail bp < length (bp_slabs bp)" by (metis add_lessD1 mult_less_cancel2)
    then have "give_buffer t a s = Some (put_slot (bp_slabs bp ! nr_slabs_avail bp) 0 a
        (bp\<lparr>bp_slabs := (bp_slabs bp)[nr_slabs_avail bp := slabs_prod c], nr_slabs_avail := nr_slabs_avail bp + 1\<rparr>),
        us @ c\<lparr>slabs_prod := bp_slabs bp ! nr_slabs_avail bp, nr_buffers_prod := 1\<rparr> # vs)"
      unfolding give using False assms(3) by (simp add: thread_bcache_prod_def Let_def)
    then show ?thesis using put_slow [OF wf(1) full room refl refl, of a] unfolding e by (auto simp: bp_cap_def put_slot_def)
  qed
qed

interpretation pool: shared_stock bp_stock bp_wf "\<lambda>a. frame_addr a" bp_cap "\<lambda>t s. t < length (snd s)" take_buffer give_buffer
proof unfold_locales
  fix s t i s'
  assume "bp_wf s" "take_buffer t s = Some (i, s')"
  then show "bp_wf s' \<and> bp_stock s = add_mset i (bp_stock s') \<and> bp_cap s' = bp_cap s \<and> (\<forall>u. (u < length (snd s')) = (u < length (snd s)))"
    using take_buffer_ok by metis
next
  fix s t i
  assume "bp_wf s" "t < length (snd s)" "frame_addr i" "size (bp_stock s) < bp_cap s"
  then show "\<exists>s'. give_buffer t i s = Some s' \<and> bp_wf s' \<and> bp_stock s' = add_mset i (bp_stock s) \<and> bp_cap s' = bp_cap s
      \<and> (\<forall>u. (u < length (snd s')) = (u < length (snd s)))"
    using give_buffer_ok by metis
qed

section \<open>A pool in use\<close>

primrec start_threads :: "nat \<Rightarrow> bp_sys \<Rightarrow> bp_sys option" where
  "start_threads 0 s = Some s"
| "start_threads (Suc n) s = (case start_thread s of None \<Rightarrow> None | Some s' \<Rightarrow> start_threads n s')"

definition frames :: "nat \<Rightarrow> u64 list" where
  "frames n = map (\<lambda>j. of_nat j * XSK_FRAME_SIZE) [0..<n]"

lemma start_thread_ok:
  assumes "bp_wf (bp, cs)" "2 \<le> nr_slabs_swap_avail bp"
  shows "\<exists>bp' c. start_thread (bp, cs) = Some (bp', cs @ [c]) \<and> bp_wf (bp', cs @ [c]) \<and> bp_stock (bp', cs @ [c]) = bp_stock (bp, cs)
    \<and> bp_cap (bp', cs @ [c]) = bp_cap (bp, cs) \<and> nr_slabs_swap_avail bp' = nr_slabs_swap_avail bp - 2"
proof -
  let ?sw = "bp_slabs_swap bp"
  define k where "k = nr_slabs_swap_avail bp - 2"
  have k: "nr_slabs_swap_avail bp = Suc (Suc k)" using assms(2) by (simp add: k_def)
  have len: "Suc (Suc k) \<le> length ?sw" using assms(1) k by (simp add: bp_wf_def)
  define c where "c = \<lparr>slabs_cons = ?sw ! (k + 1), slabs_prod = ?sw ! k, nr_buffers_cons = 0, nr_buffers_prod = 0\<rparr>"
  define bp' where "bp' = bp\<lparr>nr_slabs_swap_avail := k\<rparr>"
  have st: "start_thread (bp, cs) = Some (bp', cs @ [c])" using k by (simp add: start_thread_def thread_bcache_create_def c_def bp'_def)
  have tk: "take (Suc (Suc k)) ?sw = take k ?sw @ [?sw ! k, ?sw ! (k + 1)]" using len by (simp add: take_Suc_conv_app_nth)
  have "mset (slab_names (bp', cs @ [c])) = mset (slab_names (bp, cs))"
    unfolding slab_names_def fst_conv snd_conv k tk by (simp add: bp'_def c_def cache_segs_def)
  then have "distinct (slab_names (bp', cs @ [c])) = distinct (slab_names (bp, cs))" "set (slab_names (bp', cs @ [c])) = set (slab_names (bp, cs))"
    using mset_eq_imp_distinct_iff mset_eq_setD by blast+
  then have "bp_wf (bp', cs @ [c])" using assms(1) k unfolding bp_wf_def list_all_iff by (simp add: bp'_def c_def cache_ok_def)
  moreover have "bp_stock (bp', cs @ [c]) = bp_stock (bp, cs)" by (simp add: bp_stock_def bp'_def c_def cache_segs_def)
  ultimately show ?thesis using st k by (auto simp: bp_cap_def bp'_def)
qed

lemma start_threads_ok:
  assumes "bp_wf (bp, cs)" "2 * n \<le> nr_slabs_swap_avail bp"
  shows "\<exists>bp' ds. start_threads n (bp, cs) = Some (bp', cs @ ds) \<and> bp_wf (bp', cs @ ds) \<and> bp_stock (bp', cs @ ds) = bp_stock (bp, cs)
    \<and> bp_cap (bp', cs @ ds) = bp_cap (bp, cs) \<and> length ds = n"
  using assms
proof (induction n arbitrary: bp cs)
  case (Suc n)
  obtain bp1 c where s: "start_thread (bp, cs) = Some (bp1, cs @ [c])" "bp_wf (bp1, cs @ [c])" "bp_stock (bp1, cs @ [c]) = bp_stock (bp, cs)"
    "bp_cap (bp1, cs @ [c]) = bp_cap (bp, cs)" "nr_slabs_swap_avail bp1 = nr_slabs_swap_avail bp - 2"
    using start_thread_ok [OF Suc.prems(1)] Suc.prems(2) by auto
  have sw: "2 * n \<le> nr_slabs_swap_avail bp1" using s(5) Suc.prems(2) by simp
  obtain bp2 ds where "start_threads n (bp1, cs @ [c]) = Some (bp2, (cs @ [c]) @ ds)" "bp_wf (bp2, (cs @ [c]) @ ds)"
    "bp_stock (bp2, (cs @ [c]) @ ds) = bp_stock (bp1, cs @ [c])" "bp_cap (bp2, (cs @ [c]) @ ds) = bp_cap (bp1, cs @ [c])" "length ds = n"
    using Suc.IH [OF s(2) sw] by blast
  then show ?case using s by (intro exI [of _ bp2] exI [of _ "c # ds"]) simp
qed simp

lemma init_frames:
  "seg_stock (\<lambda>s. if s < m then map (\<lambda>j. of_nat (s * per + j) * XSK_FRAME_SIZE) [0..<per] else z) (map (\<lambda>x. (x, per)) [0..<k]) =
    mset (frames (k * per))" if "k \<le> m"
  using that
proof (induction k)
  case (Suc k)
  have "[0..<Suc k * per] = [0..<k * per] @ map (\<lambda>j. k * per + j) [0..<per]"
    using upt_add_eq_append [of 0 "k * per" per] map_add_upt [of "k * per" per] by (simp add: add.commute)
  then have "frames (Suc k * per) = frames (k * per) @ map (\<lambda>j. of_nat (k * per + j) * XSK_FRAME_SIZE) [0..<per]" unfolding frames_def by simp
  then show ?case using Suc by simp
qed (simp add: frames_def)

lemma bp_init_ok:
  assumes "0 < per" "nr_slabs = (nb + per - 1) div per"
  shows "bp_wf (bp_init nb per users, [])" "bp_stock (bp_init nb per users, []) = mset (frames (nr_slabs * per))"
    "bp_cap (bp_init nb per users, []) = nr_slabs * per" "nr_slabs_swap_avail (bp_init nb per users) = 2 * users"
  using assms init_frames [of nr_slabs nr_slabs per]
  by (auto simp: bp_wf_def bp_init_def Let_def slab_names_def list_all_iff bp_stock_def bp_cap_def)

lemma unat_frame:
  assumes "j < 2 ^ 52"
  shows "unat (of_nat j * XSK_FRAME_SIZE :: u64) = j * 4096"
proof -
  have "(of_nat j * XSK_FRAME_SIZE :: u64) = of_nat (j * 4096)" by simp
  moreover have "unat (of_nat (j * 4096) :: u64) = j * 4096" using assms by (simp only: unat_of_nat) simp
  ultimately show ?thesis by simp
qed

lemma frames_distinct:
  assumes "n \<le> 2 ^ 52"
  shows "distinct (frames n)"
proof -
  have "i = j" if "i < n" "j < n" and e: "(of_nat i * XSK_FRAME_SIZE :: u64) = of_nat j * XSK_FRAME_SIZE" for i j
  proof -
    have l: "i < 2 ^ 52" "j < 2 ^ 52" using that(1,2) assms by linarith+
    have "i * 4096 = j * 4096" using arg_cong [OF e, of unat] unfolding unat_frame [OF l(1)] unat_frame [OF l(2)] .
    then show ?thesis by simp
  qed
  then show ?thesis unfolding frames_def distinct_map inj_on_def by simp
qed

lemma frames_aligned:
  assumes "a \<in> set (frames n)"
  shows "frame_addr a"
proof -
  from assms obtain j where "a = of_nat j * XSK_FRAME_SIZE" unfolding frames_def by auto
  then have a: "a = push_bit 12 (of_nat j)" by (simp add: push_bit_eq_mult mult.commute)
  have m: "(XSK_FRAME_SIZE - 1 :: u64) = mask 12" by (simp add: mask_eq_exp_minus_1)
  show ?thesis unfolding fix_umem_offset_def m a by (rule bit_eqI) (auto simp: bit_simps)
qed

text \<open>C18: from a pool as it is set up, with threads that have made their caches, every
  interleaving of the threads' allocations and of their returns of buffers they hold keeps
  the buffers: no buffer is held twice, none is lost or made up, and no return fails its
  assertion or leaves the array of slabs.\<close>

theorem pool_conserves_buffers:
  assumes "0 < per" "n \<le> users" "nf = (nb + per - 1) div per * per" "nf \<le> 2 ^ 52"
    and "\<forall>t i. Stock_Give t i \<in> set ops \<longrightarrow> t < n"
  shows "\<exists>s s' held. start_threads n (bp_init nb per users, []) = Some s \<and> run_stock take_buffer give_buffer ops s [] = Some (s', held)
    \<and> distinct held \<and> set held \<subseteq> set (frames nf) \<and> bp_stock s' + mset held = mset (frames nf)"
proof -
  note i = bp_init_ok [OF assms(1) refl, of nb users]
  obtain bp cs where s: "start_threads n (bp_init nb per users, []) = Some (bp, [] @ cs)" "bp_wf (bp, [] @ cs)"
    "bp_stock (bp, [] @ cs) = mset (frames nf)" "bp_cap (bp, [] @ cs) = nf" "length cs = n"
    using start_threads_ok [OF i(1), of n] i(2,3,4) assms(2,3) by auto
  have "\<forall>a\<in>#mset (frames nf). frame_addr a" using frames_aligned by auto
  moreover have "size (bp_stock (bp, cs)) + length ([] :: u64 list) = bp_cap (bp, cs)" using s(3,4) by (simp add: frames_def)
  ultimately obtain s' held where r: "run_stock take_buffer give_buffer ops (bp, cs) [] = Some (s', held)"
    "bp_stock s' + mset held = mset (frames nf)"
    using pool.run_conserves [of "(bp, cs)" "[]" ops] s(2,3,5) assms(5) by auto
  obtain xs where "mset xs = bp_stock s'" using ex_mset by blast
  then have m: "mset (xs @ held) = mset (frames nf)" using r(2) by simp
  have "distinct (xs @ held)" using mset_eq_imp_distinct_iff [OF m] frames_distinct [OF assms(4)] by blast
  moreover have "set (xs @ held) = set (frames nf)" by (rule mset_eq_setD [OF m])
  ultimately have "distinct held" "set held \<subseteq> set (frames nf)" by auto
  then show ?thesis using s(1) r unfolding append_Nil by blast
qed

theorem pool_conserves_buffers_witness:
  "\<exists>s s' held. start_threads 2 (bp_init 6 3 4, []) = Some s
    \<and> run_stock take_buffer give_buffer [Stock_Take 0, Stock_Take 1, Stock_Give 1 0, Stock_Take 1] s [] = Some (s', held) \<and> distinct held
    \<and> bp_stock s' + mset held = mset (frames 6)"
  using pool_conserves_buffers [of 3 2 4 6 6 "[Stock_Take 0, Stock_Take 1, Stock_Give 1 0, Stock_Take 1]"] by auto

text \<open>A thread whose own slab is empty is refused a buffer exactly when the pool has no
  full slab left, however many free buffers lie in slabs that threads are filling, its own
  included; so free buffers do not guarantee an allocation.\<close>

theorem allocation_refused_iff_no_full_slab:
  assumes "bp_wf s" "t < length (snd s)"
  shows "take_buffer t s = None \<longleftrightarrow> nr_buffers_cons (snd s ! t) = 0 \<and> nr_slabs_avail (fst s) = 0"
proof -
  have "0 < nr_buffers_per_slab (fst s)" using assms(1) by (simp add: bp_wf_def)
  then show ?thesis using assms(2) by (auto simp: take_buffer_def thread_bcache_check_def thread_bcache_cons_def Let_def)
qed

theorem allocation_refused_iff_no_full_slab_witness:
  "\<exists>s. bp_wf s \<and> take_buffer 0 s = None \<and> size (bp_stock s) = 3"
proof -
  let ?bp = "(bp_init 3 3 1)\<lparr>nr_slabs_avail := 0, nr_slabs_swap_avail := 0\<rparr>"
  let ?c = "\<lparr>slabs_cons = 1, slabs_prod = 2, nr_buffers_cons = 0, nr_buffers_prod = 3\<rparr>"
  let ?s = "(?bp, [?c])"
  have wf: "bp_wf ?s" by (simp add: bp_wf_def bp_init_def slab_names_def cache_segs_def cache_ok_def upt_rec)
  have "take_buffer 0 ?s = None" using allocation_refused_iff_no_full_slab [OF wf, of 0] by simp
  moreover have "size (bp_stock ?s) = 3" unfolding size_bp_stock [OF wf] by simp
  ultimately show ?thesis using wf by blast
qed

end
